(* ===== verification/Prelude.thy ===== *)
theory Prelude
  imports Complex_Main
begin

text \<open>
  Shared groundwork: the development's theorem collections, the error values of the
  Go code (package-level sentinels, wrapping with \<open>%w\<close>, \<open>errors.Join\<close>, \<open>errors.Is\<close>), the
  state-passing type in which every fallible operation is written, and the generic lemmas
  on both that the component theories share.
\<close>

named_theorems op_simps \<open>evaluation of state-passing operations\<close>
named_theorems domain_simps \<open>unfolding of domain operations\<close>

section \<open>Errors\<close>

text \<open>Every package-level \<open>errors.New\<close> value that the code compares with \<open>errors.Is\<close>.\<close>

datatype sentinel =
    ErrNotFound | ErrConcurrentModification
  | ErrMeasuredRateUnavailable | ErrIdleShareUnavailable | ErrInstalledCapacityUnavailable
  | ErrEmptyAssociateId | ErrEmptyPathId | ErrEmptyCertification
  | ErrNoPathPlans | ErrPlannedHeadsExceedInstalled | ErrPlannedHoursExceedCapacity
  | ErrMissingInstalledStations | ErrExceedsInstalledCapacity
  | ErrAlreadyOnBreak | ErrNotOnBreak | ErrOnBreak | ErrMaxHoursExceeded | ErrShiftEnded
  | ErrCertificationRequired | ErrUnknownPath | ErrCommitShiftPlanNoCatalogue
  | ErrNotCloudEvent
  | ErrMissingBuildingId | ErrMissingShiftId | ErrMissingCharge | ErrNullBody
  | ErrNoRows | ErrTxClosed | ContextCanceled | DeadlineExceeded | ErrOpenState | ErrTooManyRequests

text \<open>
  An error value: a sentinel, some other error (a driver or transport error, with its text),
  an error wrapped by \<open>fmt.Errorf("...%w", e)\<close>, or several joined ones
  (\<open>errors.Join\<close>, or \<open>fmt.Errorf\<close> with two \<open>%w\<close>). \<open>Panic\<close> is no error value but a panic on its way up; nothing
  between the one that raises it and the router's \<open>Recoverer\<close> may turn it into something else.
\<close>

datatype err = Sentinel sentinel | Other string | Wrap string err | Joined "err list" | Panic string

definition is_panic :: "err \<Rightarrow> bool" where
  "is_panic e \<longleftrightarrow> (case e of Panic _ \<Rightarrow> True | _ \<Rightarrow> False)"

lemma is_panic_simps [simp]: "is_panic (Panic p)" "\<not> is_panic (Sentinel s)" "\<not> is_panic (Other x)" "\<not> is_panic (Wrap x e)"
  "\<not> is_panic (Joined es)"
  by (simp_all add: is_panic_def)

text \<open>\<open>errors.Is(err, target)\<close> walks the chain of wrapped errors.\<close>

fun errors_is :: "err \<Rightarrow> sentinel \<Rightarrow> bool" where
  "errors_is (Sentinel s) t \<longleftrightarrow> s = t"
| "errors_is (Other _) t \<longleftrightarrow> False"
| "errors_is (Wrap _ e) t \<longleftrightarrow> errors_is e t"
| "errors_is (Joined es) t \<longleftrightarrow> list_ex (\<lambda>e. errors_is e t) es"
| "errors_is (Panic _) t \<longleftrightarrow> False"

section \<open>State-passing operations\<close>

text \<open>
  A Go call \<open>x, err := f(ctx, ...)\<close> that may change some state \<open>'s\<close>: it returns the error or
  the value, and the state it leaves (a failing call may have changed the state).
\<close>

type_synonym ('s, 'a) op = "'s \<Rightarrow> (err + 'a) \<times> 's"

definition oret :: "'a \<Rightarrow> ('s, 'a) op" where
  "oret a = (\<lambda>s. (Inr a, s))"

definition ofail :: "err \<Rightarrow> ('s, 'a) op" where
  "ofail e = (\<lambda>s. (Inl e, s))"

text \<open>\<open>x, err := m; if err != nil { return err }; f(x)\<close>\<close>

definition obind :: "('s, 'a) op \<Rightarrow> ('a \<Rightarrow> ('s, 'b) op) \<Rightarrow> ('s, 'b) op" where
  "obind m f = (\<lambda>s. case m s of (Inl e, s') \<Rightarrow> (Inl e, s') | (Inr a, s') \<Rightarrow> f a s')"

text \<open>\<open>x, err := m\<close> where the caller looks at \<open>err\<close> itself.\<close>

definition ocatch :: "('s, 'a) op \<Rightarrow> (err + 'a \<Rightarrow> ('s, 'b) op) \<Rightarrow> ('s, 'b) op" where
  "ocatch m f = (\<lambda>s. case m s of (r, s') \<Rightarrow> f r s')"

text \<open>A pure fallible computation used as an operation.\<close>

definition olift :: "err + 'a \<Rightarrow> ('s, 'a) op" where
  "olift r = (\<lambda>s. (r, s))"

fun omapM :: "('x \<Rightarrow> ('s, 'y) op) \<Rightarrow> 'x list \<Rightarrow> ('s, 'y list) op" where
  "omapM f [] = oret []"
| "omapM f (x # xs) = obind (f x) (\<lambda>y. obind (omapM f xs) (\<lambda>ys. oret (y # ys)))"

lemma oret_app [simp, op_simps]: "oret a s = (Inr a, s)"
  by (simp add: oret_def)

lemma ofail_app [simp, op_simps]: "ofail e s = (Inl e, s)"
  by (simp add: ofail_def)

lemma olift_app [simp, op_simps]: "olift r s = (r, s)"
  by (simp add: olift_def)

lemma obind_Inl [op_simps]: "m s = (Inl e, s') \<Longrightarrow> obind m f s = (Inl e, s')"
  by (simp add: obind_def)

lemma obind_Inr [op_simps]: "m s = (Inr a, s') \<Longrightarrow> obind m f s = f a s'"
  by (simp add: obind_def)

lemma obind_app:
  "obind m f s = (case m s of (Inl e, s') \<Rightarrow> (Inl e, s') | (Inr a, s') \<Rightarrow> f a s')"
  by (simp add: obind_def)

lemma ocatch_app: "ocatch m f s = (case m s of (r, s') \<Rightarrow> f r s')"
  by (simp add: ocatch_def)

lemma obind_oret [simp, op_simps]: "obind (oret a) f = f a"
  by (simp add: obind_def fun_eq_iff)

lemma obind_ofail [simp, op_simps]: "obind (ofail e) f = ofail e"
  by (simp add: obind_def fun_eq_iff)

lemma obind_olift_Inl [simp, op_simps]: "obind (olift (Inl e)) f = ofail e"
  by (simp add: obind_def fun_eq_iff)

lemma obind_olift_Inr [simp, op_simps]: "obind (olift (Inr a)) f = f a"
  by (simp add: obind_def fun_eq_iff)

lemma obind_Pair [simp]: "obind (Pair (Inr a)) f = f a" "obind (Pair (Inl e)) f = ofail e"
  by (simp_all add: obind_def fun_eq_iff)

lemma obind_assoc: "obind (obind m f) g = obind m (\<lambda>x. obind (f x) g)"
  by (auto simp: obind_def fun_eq_iff split: prod.splits sum.splits)

lemma ocatch_assoc: "obind (ocatch m f) g = ocatch m (\<lambda>x. obind (f x) g)"
  by (auto simp: obind_def ocatch_def fun_eq_iff split: prod.splits sum.splits)

lemma obind_cases:
  assumes "obind m f s = (r, s')"
  obtains (err) e where "m s = (Inl e, s')" "r = Inl e"
    | (ok) a s1 where "m s = (Inr a, s1)" "f a s1 = (r, s')"
  using assms by (auto simp: obind_def split: prod.splits sum.splits)

lemma obind_InrE:
  assumes "obind m f s = (Inr b, s')"
  obtains a s1 where "m s = (Inr a, s1)" "f a s1 = (Inr b, s')"
  using assms by (auto simp: obind_def split: prod.splits sum.splits)

lemma olift_InrD: "olift r s = (Inr a, s') \<Longrightarrow> r = Inr a \<and> s' = s"
  by simp

lemma oret_InrD: "oret b s = (Inr a, s') \<Longrightarrow> a = b \<and> s' = s"
  by simp

text \<open>An operation leaves the state alone, whatever its result.\<close>

definition reads_only :: "('s, 'a) op \<Rightarrow> bool" where
  "reads_only m \<longleftrightarrow> (\<forall>s. snd (m s) = s)"

lemma reads_onlyD: "reads_only m \<Longrightarrow> m s = (r, s') \<Longrightarrow> s' = s"
  by (metis reads_only_def snd_conv)

lemma reads_only_oret [simp]: "reads_only (oret a)"
  by (simp add: reads_only_def)

lemma reads_only_ofail [simp]: "reads_only (ofail e)"
  by (simp add: reads_only_def)

lemma reads_only_olift [simp]: "reads_only (olift r)"
  by (simp add: reads_only_def)

lemma reads_only_obind:
  "reads_only m \<Longrightarrow> (\<And>a. reads_only (f a)) \<Longrightarrow> reads_only (obind m f)"
  by (auto simp: reads_only_def obind_def split: prod.splits sum.splits) (metis snd_conv)+

lemma reads_only_ocatch:
  "reads_only m \<Longrightarrow> (\<And>a. reads_only (f a)) \<Longrightarrow> reads_only (ocatch m f)"
  by (auto simp: reads_only_def ocatch_def split: prod.splits) (metis snd_conv)+

lemma reads_only_omapM: "(\<And>x. reads_only (f x)) \<Longrightarrow> reads_only (omapM f xs)"
  by (induction xs) (auto intro!: reads_only_obind)

lemma omapM_length: "omapM f xs s = (Inr ys, s') \<Longrightarrow> length ys = length xs"
  by (induction xs arbitrary: s ys) (auto elim!: obind_InrE)

section \<open>Generic lemmas\<close>

lemma map_upd_frame [simp]: "k' \<noteq> k \<Longrightarrow> (m(k \<mapsto> v)) k' = m k'"
  by simp

lemma find_Some_mem: "find P xs = Some x \<Longrightarrow> x \<in> set xs \<and> P x"
  by (auto simp: find_Some_iff in_set_conv_nth)

lemma find_first_split:
  "find P xs = Some x \<longleftrightarrow> (\<exists>ys zs. xs = ys @ x # zs \<and> P x \<and> (\<forall>y \<in> set ys. \<not> P y))"
proof (induction xs)
  case (Cons a xs)
  show ?case
  proof (cases "P a")
    case True
    then show ?thesis
      by (auto simp: Cons_eq_append_conv) 
  next
    case False
    with Cons.IH show ?thesis
      by (auto simp: Cons_eq_append_conv) (metis set_ConsD)+
  qed
qed simp

end
