(* ===== verification/GoFloat.thy ===== *)
theory GoFloat
  imports Prelude "HOL-Library.Log_Nat"
begin

text \<open>
  Go's \<open>float64\<close>: IEEE 754 binary64 with round-to-nearest, ties to even. A finite value is its
  exact rational; every operation computes the exact rational result and rounds it to 53
  significant bits (fewer below the normal range), overflowing to an infinity. The two zeros
  are one value: the code never divides by a zero it has not excluded, so their difference
  is not observable in it.
\<close>

datatype f64 = NaN | Inf bool | Fin rat

section \<open>Rounding a rational\<close>

definition fexp :: "rat \<Rightarrow> int" where
  "fexp x = (case quotient_of x of (n, d) \<Rightarrow>
     let e = bitlen n - bitlen d in if x < 2 powi e then e - 1 else e)"

definition rne :: "rat \<Rightarrow> int" where
  "rne q = (let m = \<lfloor>q\<rfloor>; r = q - of_int m in
     if r < 1 / 2 then m else if 1 / 2 < r then m + 1 else if even m then m else m + 1)"

definition uexp :: "rat \<Rightarrow> int" where
  "uexp x = max (fexp \<bar>x\<bar> - 52) (- 1074)"

definition rnd :: "rat \<Rightarrow> rat" where
  "rnd x = (if x = 0 then 0 else of_int (rne (x / 2 powi uexp x)) * 2 powi uexp x)"

definition flround :: "rat \<Rightarrow> f64" where
  "flround x = (let r = rnd x in if 2 ^ 1024 \<le> \<bar>r\<bar> then Inf (0 < r) else Fin r)"

section \<open>Operations and comparisons\<close>

definition f64_of_int :: "int \<Rightarrow> f64" where
  "f64_of_int n = flround (of_int n)"

fun fneg :: "f64 \<Rightarrow> f64" where
  "fneg NaN = NaN"
| "fneg (Inf s) = Inf (\<not> s)"
| "fneg (Fin a) = Fin (- a)"

fun fadd :: "f64 \<Rightarrow> f64 \<Rightarrow> f64" where
  "fadd (Fin a) (Fin b) = flround (a + b)"
| "fadd (Inf s) (Inf t) = (if s = t then Inf s else NaN)"
| "fadd (Inf s) (Fin _) = Inf s"
| "fadd (Fin _) (Inf t) = Inf t"
| "fadd _ _ = NaN"

definition fsub :: "f64 \<Rightarrow> f64 \<Rightarrow> f64" where
  "fsub a b = fadd a (fneg b)"

fun fmul :: "f64 \<Rightarrow> f64 \<Rightarrow> f64" where
  "fmul (Fin a) (Fin b) = flround (a * b)"
| "fmul (Inf s) (Inf t) = Inf (s = t)"
| "fmul (Inf s) (Fin b) = (if b = 0 then NaN else Inf (s = (0 < b)))"
| "fmul (Fin a) (Inf t) = (if a = 0 then NaN else Inf (t = (0 < a)))"
| "fmul _ _ = NaN"

fun fdiv :: "f64 \<Rightarrow> f64 \<Rightarrow> f64" where
  "fdiv (Fin a) (Fin b) = (if b = 0 then (if a = 0 then NaN else Inf (0 < a)) else flround (a / b))"
| "fdiv (Inf s) (Fin b) = Inf (s = (0 \<le> b))"
| "fdiv (Fin a) (Inf t) = Fin 0"
| "fdiv _ _ = NaN"

text \<open>\<open>math.Ceil\<close>: exact, since a float with a fraction is below \<open>2 ^ 53\<close>.\<close>

fun fceil :: "f64 \<Rightarrow> f64" where
  "fceil (Fin a) = Fin (of_int \<lceil>a\<rceil>)"
| "fceil x = x"

fun flt :: "f64 \<Rightarrow> f64 \<Rightarrow> bool" where
  "flt (Fin a) (Fin b) \<longleftrightarrow> a < b"
| "flt (Inf s) (Inf t) \<longleftrightarrow> \<not> s \<and> t"
| "flt (Inf s) (Fin _) \<longleftrightarrow> \<not> s"
| "flt (Fin _) (Inf t) \<longleftrightarrow> t"
| "flt _ _ \<longleftrightarrow> False"

fun fle :: "f64 \<Rightarrow> f64 \<Rightarrow> bool" where
  "fle (Fin a) (Fin b) \<longleftrightarrow> a \<le> b"
| "fle (Inf s) (Inf t) \<longleftrightarrow> s \<longrightarrow> t"
| "fle (Inf s) (Fin _) \<longleftrightarrow> \<not> s"
| "fle (Fin _) (Inf t) \<longleftrightarrow> t"
| "fle _ _ \<longleftrightarrow> False"

text \<open>
  The conversion \<open>int(f)\<close> truncates toward zero; outside the range of \<open>int\<close> (and for NaN) the
  Go specification leaves the value to the implementation, which is the argument \<open>plat\<close>.
\<close>

fun f64_to_int :: "(f64 \<Rightarrow> int) \<Rightarrow> f64 \<Rightarrow> int" where
  "f64_to_int plat (Fin a) =
     (let t = (if 0 \<le> a then \<lfloor>a\<rfloor> else \<lceil>a\<rceil>)
      in if - (2 ^ 63) \<le> t \<and> t < 2 ^ 63 then t else plat (Fin a))"
| "f64_to_int plat x = plat x"

section \<open>Rounding is monotone and exact on small integers\<close>

lemma rne_cases: "rne q = \<lfloor>q\<rfloor> \<or> rne q = \<lfloor>q\<rfloor> + 1"
  by (simp add: rne_def Let_def)

lemma rne_of_int [simp]: "rne (of_int n) = n"
  by (simp add: rne_def)

lemma rne_mono:
  assumes "p \<le> q"
  shows "rne p \<le> rne q"
proof (cases "\<lfloor>p\<rfloor> = \<lfloor>q\<rfloor>")
  case True
  then have "p - of_int \<lfloor>p\<rfloor> \<le> q - of_int \<lfloor>q\<rfloor>" using assms by simp
  then show ?thesis using True by (auto simp: rne_def Let_def)
next
  case False
  then have "\<lfloor>p\<rfloor> + 1 \<le> \<lfloor>q\<rfloor>" using floor_mono [OF assms] by linarith
  then show ?thesis using rne_cases [of p] rne_cases [of q] by linarith
qed

lemma rne_le_of_int: "q \<le> of_int n \<Longrightarrow> rne q \<le> n"
  using rne_mono [of q "of_int n"] by simp

lemma rne_ge_of_int: "of_int n \<le> q \<Longrightarrow> n \<le> rne q"
  using rne_mono [of "of_int n" q] by simp

lemma quotient_of_pos:
  assumes "0 < x" "quotient_of x = (n, d)"
  shows "0 < n" "0 < d" "x = of_int n / of_int d"
proof -
  show d: "0 < d" using assms(2) by (rule quotient_of_denom_pos)
  show x: "x = of_int n / of_int d" using assms(2) by (rule quotient_of_div)
  show "0 < n" using assms(1) d x by (simp add: zero_less_divide_iff)
qed

lemma powi2_pos [simp]: "(0::rat) < 2 powi e"
  by simp

lemma powi2_le_of_int: "2 ^ nat e \<le> n \<Longrightarrow> 0 \<le> e \<Longrightarrow> (2::rat) powi e \<le> of_int n"
proof -
  assume "2 ^ nat e \<le> n" "0 \<le> e"
  then have "(of_int (2 ^ nat e) :: rat) \<le> of_int n" by (simp only: of_int_le_iff)
  then show ?thesis using \<open>0 \<le> e\<close> by (simp add: power_int_def)
qed

lemma powi2_gt_of_int: "n < 2 ^ nat e \<Longrightarrow> 0 \<le> e \<Longrightarrow> of_int n < (2::rat) powi e"
proof -
  assume "n < 2 ^ nat e" "0 \<le> e"
  then have "(of_int n :: rat) < of_int (2 ^ nat e)" by (simp only: of_int_less_iff)
  then show ?thesis using \<open>0 \<le> e\<close> by (simp add: power_int_def)
qed

lemma fexp_bounds:
  assumes "0 < x"
  shows "2 powi fexp x \<le> x" and "x < 2 powi (fexp x + 1)"
proof -
  obtain n d where q: "quotient_of x = (n, d)" by fastforce
  note pos = quotient_of_pos [OF assms q]
  let ?a = "bitlen n" and ?b = "bitlen d"
  have nb: "2 ^ nat (?a - 1) \<le> n" "n < 2 ^ nat ?a" and db: "2 ^ nat (?b - 1) \<le> d" "d < 2 ^ nat ?b"
    using bitlen_bounds [of n] bitlen_bounds [of d] pos by auto
  have a1: "1 \<le> ?a" and b1: "1 \<le> ?b"
    using pos bitlen_nonneg [of n] bitlen_nonneg [of d] bitlen_eq_zero_iff [of n] bitlen_eq_zero_iff [of d]
    by linarith+
  have nr: "2 powi (?a - 1) \<le> (of_int n :: rat)" "(of_int n :: rat) < 2 powi ?a"
    and dr: "2 powi (?b - 1) \<le> (of_int d :: rat)" "(of_int d :: rat) < 2 powi ?b"
    using nb db a1 b1 by (auto intro: powi2_le_of_int powi2_gt_of_int)
  have dp: "(0::rat) < of_int d" using pos by simp
  have lo: "2 powi (?a - ?b - 1) \<le> x"
  proof -
    have "2 powi (?a - ?b - 1) * of_int d \<le> 2 powi (?a - ?b - 1) * (2 powi ?b :: rat)"
      using dr(2) by (intro mult_left_mono) auto
    also have "\<dots> = 2 powi (?a - 1)" by (simp flip: power_int_add)
    finally show ?thesis using nr(1) dp unfolding pos(3) by (simp add: le_divide_eq)
  qed
  have hi: "x < 2 powi (?a - ?b + 1)"
  proof -
    have "(2 powi ?a :: rat) = 2 powi (?a - ?b + 1) * 2 powi (?b - 1)" by (simp flip: power_int_add)
    also have "\<dots> \<le> 2 powi (?a - ?b + 1) * of_int d" using dr(1) by (intro mult_left_mono) auto
    finally show ?thesis using nr(2) dp unfolding pos(3) by (simp add: divide_less_eq)
  qed
  show "2 powi fexp x \<le> x" "x < 2 powi (fexp x + 1)"
    using lo hi by (auto simp: fexp_def q Let_def)
qed

lemma powi2_mono: "a \<le> b \<Longrightarrow> (2::rat) powi a \<le> 2 powi b"
  by (rule power_int_increasing) auto

lemma powi2_less_cancel: "(2::rat) powi a < 2 powi b \<Longrightarrow> a < b"
  by (meson linorder_not_less powi2_mono)

lemma fexp_mono:
  assumes "0 < x" "x \<le> y"
  shows "fexp x \<le> fexp y"
proof -
  have "2 powi fexp x < (2::rat) powi (fexp y + 1)"
    using fexp_bounds [of x] fexp_bounds [of y] assms by linarith
  then show ?thesis using powi2_less_cancel by fastforce
qed

lemma powi2_ratio:
  assumes "b \<le> a"
  shows "(2::rat) powi a = of_int (2 ^ nat (a - b)) * 2 powi b"
proof -
  have "(2::rat) powi a = 2 powi (a - b) * 2 powi b" by (simp flip: power_int_add)
  also have "(2::rat) powi (a - b) = 2 ^ nat (a - b)" using assms by (simp add: power_int_def)
  finally show ?thesis by simp
qed

lemma rnd_le_grid:
  assumes "x \<noteq> 0" "uexp x \<le> e" "x \<le> of_int k * 2 powi e"
  shows "rnd x \<le> of_int k * 2 powi e"
proof -
  let ?u = "2 powi uexp x :: rat"
  have g: "of_int k * 2 powi e = of_int (k * 2 ^ nat (e - uexp x)) * ?u"
    using powi2_ratio [OF assms(2)] by simp
  have "x \<le> of_int (k * 2 ^ nat (e - uexp x)) * ?u" using assms(3) g by (simp only:)
  then have "x / ?u \<le> of_int (k * 2 ^ nat (e - uexp x))"
    by (simp only: pos_divide_le_eq powi2_pos)
  then have "rne (x / ?u) \<le> k * 2 ^ nat (e - uexp x)" by (rule rne_le_of_int)
  then have "of_int (rne (x / ?u)) * ?u \<le> of_int (k * 2 ^ nat (e - uexp x)) * ?u"
    by (intro mult_right_mono) (auto simp flip: of_int_mult of_int_power)
  then show ?thesis unfolding g using assms(1) by (simp add: rnd_def)
qed

lemma rnd_ge_grid:
  assumes "x \<noteq> 0" "uexp x \<le> e" "of_int k * 2 powi e \<le> x"
  shows "of_int k * 2 powi e \<le> rnd x"
proof -
  let ?u = "2 powi uexp x :: rat"
  have g: "of_int k * 2 powi e = of_int (k * 2 ^ nat (e - uexp x)) * ?u"
    using powi2_ratio [OF assms(2)] by simp
  have "of_int (k * 2 ^ nat (e - uexp x)) * ?u \<le> x" using assms(3) g by (simp only:)
  then have "of_int (k * 2 ^ nat (e - uexp x)) \<le> x / ?u"
    by (simp only: pos_le_divide_eq powi2_pos)
  then have "k * 2 ^ nat (e - uexp x) \<le> rne (x / ?u)" by (rule rne_ge_of_int)
  then have "of_int (k * 2 ^ nat (e - uexp x)) * ?u \<le> of_int (rne (x / ?u)) * ?u"
    by (intro mult_right_mono) (auto simp flip: of_int_mult of_int_power)
  then show ?thesis unfolding g using assms(1) by (simp add: rnd_def)
qed

lemma rnd_0 [simp]: "rnd 0 = 0"
  by (simp add: rnd_def)

lemma rnd_nonneg: "0 \<le> x \<Longrightarrow> 0 \<le> rnd x"
  using rnd_ge_grid [of x "uexp x" 0] by (cases "x = 0") auto

lemma rnd_nonpos: "x \<le> 0 \<Longrightarrow> rnd x \<le> 0"
  using rnd_le_grid [of x "uexp x" 0] by (cases "x = 0") auto

lemma rnd_mono_pos:
  assumes "0 < x" "x \<le> y"
  shows "rnd x \<le> rnd y"
proof (cases "uexp x = uexp y")
  case True
  have "rne (x / 2 powi uexp y) \<le> rne (y / 2 powi uexp y)"
    using assms by (intro rne_mono divide_right_mono) auto
  then show ?thesis using assms True by (simp add: rnd_def)
next
  case False
  let ?g = "of_int 1 * 2 powi fexp y :: rat"
  have le: "fexp x \<le> fexp y" using assms by (rule fexp_mono)
  have u: "uexp x < uexp y" "uexp y = fexp y - 52" "fexp x < fexp y" "uexp x \<le> fexp y"
    using False le assms by (auto simp: uexp_def)
  have "(2::rat) powi (fexp x + 1) \<le> 2 powi fexp y" using u by (intro powi2_mono) auto
  then have "x \<le> ?g" using fexp_bounds(2) [OF assms(1)] by simp
  then have "rnd x \<le> ?g" using assms u by (intro rnd_le_grid) auto
  also have "?g \<le> rnd y" using assms u fexp_bounds(1) [of y] by (intro rnd_ge_grid) auto
  finally show ?thesis .
qed

lemma uexp_uminus [simp]: "uexp (- x) = uexp x"
  by (simp add: uexp_def)

lemma rne_uminus: "rne (- q) = - rne q"
proof (cases "q = of_int \<lfloor>q\<rfloor>")
  case True
  then show ?thesis by (metis of_int_minus rne_of_int)
next
  case False
  then have "\<lfloor>- q\<rfloor> = - \<lfloor>q\<rfloor> - 1"
    by (metis ceiling_altdef ceiling_def diff_minus_eq_add minus_add_distrib minus_minus
        add_uminus_conv_diff)
  then show ?thesis by (auto simp: rne_def Let_def)
qed

lemma rnd_uminus [simp]: "rnd (- x) = - rnd x"
  by (simp add: rnd_def rne_uminus)

theorem rnd_mono:
  assumes "x \<le> y"
  shows "rnd x \<le> rnd y"
proof -
  consider "0 < x" | "y < 0" | "x \<le> 0" "0 \<le> y" by linarith
  then show ?thesis
  proof cases
    case 2
    then show ?thesis using rnd_mono_pos [of "- y" "- x"] assms by simp
  next
    case 3
    then show ?thesis using rnd_nonpos [of x] rnd_nonneg [of y] by linarith
  qed (use rnd_mono_pos assms in auto)
qed

lemma rnd_of_int_small_pos:
  assumes "0 < n" "n \<le> 2 ^ 53"
  shows "rnd (of_int n) = of_int n"
proof -
  have "(2::rat) powi fexp (of_int n) \<le> of_int n" using fexp_bounds(1) assms by simp
  also have "\<dots> \<le> 2 ^ 53" using assms(2) by (metis of_int_le_iff of_int_numeral of_int_power)
  also have "\<dots> < 2 powi 54" by simp
  finally have "fexp (of_int n) < 54" by (rule powi2_less_cancel)
  then have u: "uexp (of_int n) \<le> 1" using assms by (simp add: uexp_def)
  show ?thesis
  proof (cases "n = 2 ^ 53")
    case True
    have e: "of_int n = of_int 1 * (2::rat) powi 53" using True by simp
    show ?thesis
      using rnd_le_grid [of "of_int n" 53 1] rnd_ge_grid [of "of_int n" 53 1] u e assms by auto
  next
    case False
    then have "(of_int n :: rat) < 2 ^ 53"
      using assms(2) by (metis of_int_less_iff of_int_numeral of_int_power order_le_less)
    then have "(2::rat) powi fexp (of_int n) < 2 powi 53" using fexp_bounds(1) [of "of_int n"] assms by simp
    then have "uexp (of_int n) \<le> 0" using powi2_less_cancel assms by (fastforce simp: uexp_def)
    then show ?thesis
      using rnd_le_grid [of "of_int n" 0 n] rnd_ge_grid [of "of_int n" 0 n] assms by auto
  qed
qed

theorem rnd_of_int_small: "\<bar>n\<bar> \<le> 2 ^ 53 \<Longrightarrow> rnd (of_int n) = of_int n"
  using rnd_of_int_small_pos [of n] rnd_of_int_small_pos [of "- n"]
  by (cases "n = 0") (auto simp: abs_if split: if_splits)

lemma rnd_le_small: "x \<le> of_int n \<Longrightarrow> \<bar>n\<bar> \<le> 2 ^ 53 \<Longrightarrow> rnd x \<le> of_int n"
  using rnd_mono [of x "of_int n"] by (simp add: rnd_of_int_small)

lemma rnd_ge_small: "of_int n \<le> x \<Longrightarrow> \<bar>n\<bar> \<le> 2 ^ 53 \<Longrightarrow> of_int n \<le> rnd x"
  using rnd_mono [of "of_int n" x] by (simp add: rnd_of_int_small)

section \<open>Facts about the operations\<close>

lemma flround_cases:
  obtains (fin) "flround x = Fin (rnd x)" "\<bar>rnd x\<bar> < 2 ^ 1024"
  | (inf) "flround x = Inf (0 < rnd x)" "2 ^ 1024 \<le> \<bar>rnd x\<bar>"
  by (cases "2 ^ 1024 \<le> \<bar>rnd x\<bar>") (auto simp: flround_def Let_def)

lemma flround_0 [simp]: "flround 0 = Fin 0"
  by (simp add: flround_def)

lemma flround_not_NaN [simp]: "flround x \<noteq> NaN"
  by (simp add: flround_def Let_def)

lemma flround_small: "\<bar>rnd x\<bar> \<le> of_int (2 ^ 53) \<Longrightarrow> flround x = Fin (rnd x)"
proof -
  assume "\<bar>rnd x\<bar> \<le> of_int (2 ^ 53)"
  also have "(of_int (2 ^ 53) :: rat) < 2 ^ 1024" by simp
  finally show ?thesis by (simp add: flround_def Let_def)
qed

lemma f64_of_int_small: "\<bar>n\<bar> \<le> 2 ^ 53 \<Longrightarrow> f64_of_int n = Fin (of_int n)"
proof -
  assume a: "\<bar>n\<bar> \<le> 2 ^ 53"
  then have "\<bar>rnd (of_int n)\<bar> \<le> of_int (2 ^ 53)"
    unfolding rnd_of_int_small [OF a] by (metis of_int_abs of_int_le_iff)
  then show ?thesis unfolding f64_of_int_def using rnd_of_int_small [OF a] by (simp add: flround_small)
qed

lemma fle_refl: "x \<noteq> NaN \<Longrightarrow> fle x x"
  by (cases x) auto

lemma fle_trans: "fle x y \<Longrightarrow> fle y z \<Longrightarrow> fle x z"
  by (cases x; cases y; cases z) auto

lemma not_flt_fle: "x \<noteq> NaN \<Longrightarrow> y \<noteq> NaN \<Longrightarrow> \<not> flt x y \<longleftrightarrow> fle y x"
  by (cases x; cases y) auto

lemma flt_fle: "flt x y \<Longrightarrow> fle x y"
  by (cases x; cases y) auto

lemma fle_not_NaN: "fle x y \<Longrightarrow> x \<noteq> NaN \<and> y \<noteq> NaN"
  by (cases x; cases y) auto

lemma flround_mono: "x \<le> y \<Longrightarrow> fle (flround x) (flround y)"
proof -
  assume "x \<le> y"
  then have "rnd x \<le> rnd y" by (rule rnd_mono)
  then show ?thesis by (auto simp: flround_def Let_def abs_if split: if_splits)
qed

lemma fceil_mono: "fle x y \<Longrightarrow> fle (fceil x) (fceil y)"
  by (cases x; cases y) (auto simp: ceiling_mono)


section \<open>Rounding a float changes nothing\<close>

lemma rnd_idem_pos:
  assumes "0 < x"
  shows "rnd (rnd x) = rnd x"
proof (cases "rnd x = 0")
  case False
  let ?u = "uexp x" and ?m = "rne (x / 2 powi uexp x)" and ?y = "rnd x"
  have y: "?y = of_int ?m * 2 powi ?u" using assms by (simp add: rnd_def)
  have ypos: "0 < ?y" using rnd_nonneg [of x] assms False by simp
  have "(2::rat) powi (fexp x + 1) \<le> 2 powi (?u + 53)" using assms by (intro powi2_mono) (simp add: uexp_def)
  then have "x \<le> of_int 1 * 2 powi (?u + 53)" using fexp_bounds(2) [OF assms] by simp
  then have le: "?y \<le> 2 powi (?u + 53)" using assms rnd_le_grid [of x "?u + 53" 1] by simp
  have grid: "\<exists>k e. uexp ?y \<le> e \<and> ?y = of_int k * 2 powi e"
  proof (cases "?y = 2 powi (?u + 53)")
    case True
    have "(2::rat) powi fexp ?y < 2 powi (?u + 54)"
    proof -
      have "(2::rat) powi (?u + 54) = 2 * 2 powi (?u + 53)" using powi2_ratio [of "?u + 53" "?u + 54"] by simp
      moreover have "(0::rat) < 2 powi (?u + 53)" by simp
      ultimately show ?thesis using fexp_bounds(1) [OF ypos] True by linarith
    qed
    then have "fexp ?y < ?u + 54" by (rule powi2_less_cancel)
    then have "uexp ?y \<le> ?u + 53" using ypos by (auto simp: uexp_def)
    then show ?thesis using True by (intro exI [of _ 1] exI [of _ "?u + 53"]) simp
  next
    case False
    then have "(2::rat) powi fexp ?y < 2 powi (?u + 53)" using fexp_bounds(1) [OF ypos] le by simp
    then have "fexp ?y < ?u + 53" by (rule powi2_less_cancel)
    then have "uexp ?y \<le> ?u" using ypos by (auto simp: uexp_def)
    then show ?thesis using y by blast
  qed
  then obtain k e where g: "uexp ?y \<le> e" "?y = of_int k * 2 powi e" by blast
  show ?thesis using rnd_le_grid [OF False g(1), of k] rnd_ge_grid [OF False g(1), of k] g(2) by simp
qed simp

theorem rnd_idem [simp]: "rnd (rnd x) = rnd x"
proof -
  consider "0 < x" | "x = 0" | "0 < - x" by linarith
  then show ?thesis
  proof cases
    case 3
    then show ?thesis using rnd_idem_pos [of "- x"] by simp
  qed (use rnd_idem_pos in auto)
qed

text \<open>The values the operations produce.\<close>

definition is_float :: "f64 \<Rightarrow> bool" where
  "is_float v \<longleftrightarrow> (case v of Fin q \<Rightarrow> flround q = Fin q | _ \<Rightarrow> True)"

lemma is_float_flround [simp]: "is_float (flround x)"
  by (cases x rule: flround_cases) (auto simp: is_float_def flround_def Let_def)

lemma is_float_0 [simp]: "is_float (Fin 0)"
  by (simp add: is_float_def)

lemma is_float_fadd: "is_float a \<Longrightarrow> is_float b \<Longrightarrow> is_float (fadd a b)"
  using is_float_flround by (cases "(a, b)" rule: fadd.cases) (simp_all add: is_float_def)

lemma fadd_0 [simp]: "is_float v \<Longrightarrow> fadd v (Fin 0) = v" "is_float v \<Longrightarrow> fadd (Fin 0) v = v"
  by (cases v; simp add: is_float_def)+

end
