(* ===== verification/GoTime.thy ===== *)
theory GoTime
  imports GoFloat
begin

text \<open>
  The parts of Go's standard library the code computes with: \<open>time.Time\<close> as nanoseconds since
  the zero time (January 1, year 1, UTC), \<open>time.Duration\<close> as nanoseconds in 64 bits,
  and the string functions of package \<open>strings\<close>. A string is its list of bytes.
\<close>

type_synonym time = int
type_synonym duration = int

section \<open>Time and durations\<close>

abbreviation (input) hour_ns :: int where "hour_ns \<equiv> 3600000000000"
abbreviation (input) second_ns :: int where "second_ns \<equiv> 1000000000"

text \<open>Go's integer division and remainder truncate toward zero.\<close>

definition go_quot :: "int \<Rightarrow> int \<Rightarrow> int" where
  "go_quot a b = sgn a * sgn b * (\<bar>a\<bar> div \<bar>b\<bar>)"

definition go_rem :: "int \<Rightarrow> int \<Rightarrow> int" where
  "go_rem a b = a - b * go_quot a b"

text \<open>\<open>t.Sub(u)\<close> saturates at the limits of a 64-bit duration.\<close>

definition time_Sub :: "time \<Rightarrow> time \<Rightarrow> duration" where
  "time_Sub t u = max (- (2 ^ 63)) (min (2 ^ 63 - 1) (t - u))"

definition Hours :: "duration \<Rightarrow> f64" where
  "Hours d = fadd (f64_of_int (go_quot d hour_ns))
     (fdiv (f64_of_int (go_rem d hour_ns)) (Fin (of_int hour_ns)))"

definition Seconds :: "duration \<Rightarrow> f64" where
  "Seconds d = fadd (f64_of_int (go_quot d second_ns))
     (fdiv (f64_of_int (go_rem d second_ns)) (Fin (of_int second_ns)))"

text \<open>\<open>t.UTC().Truncate(time.Hour)\<close>: down to a multiple of the hour since the zero time.\<close>

definition truncate_hour :: "time \<Rightarrow> time" where
  "truncate_hour t = t - t mod hour_ns"

definition IsZero :: "time \<Rightarrow> bool" where
  "IsZero t \<longleftrightarrow> t = 0"

lemma go_quot_nonneg: "0 \<le> a \<Longrightarrow> 0 < b \<Longrightarrow> go_quot a b = a div b"
  by (cases "a = 0") (simp_all add: go_quot_def)

lemma go_rem_nonneg: "0 \<le> a \<Longrightarrow> 0 < b \<Longrightarrow> go_rem a b = a mod b"
  by (simp add: go_rem_def go_quot_nonneg minus_mult_div_eq_mod)

lemma time_Sub_self [simp]: "time_Sub t t = 0"
  by (simp add: time_Sub_def)

lemma time_Sub_nonneg: "u \<le> t \<Longrightarrow> 0 \<le> time_Sub t u"
  by (simp add: time_Sub_def)

lemma time_Sub_mono: "t \<le> t' \<Longrightarrow> time_Sub t u \<le> time_Sub t' u"
  by (simp add: time_Sub_def)

lemma time_Sub_bounds: "- (2 ^ 63) \<le> time_Sub t u \<and> time_Sub t u < 2 ^ 63"
  by (auto simp: time_Sub_def)

lemma truncate_hour_le: "truncate_hour t \<le> t"
  by (simp add: truncate_hour_def)

lemma truncate_hour_gt: "t < truncate_hour t + hour_ns"
  by (simp add: truncate_hour_def)

lemma truncate_hour_idem [simp]: "truncate_hour (truncate_hour t) = truncate_hour t"
  by (simp add: truncate_hour_def)

text \<open>The fraction of an hour, rounded, stays between 0 and 1.\<close>

definition hour_frac :: "int \<Rightarrow> rat" where
  "hour_frac r = rnd (of_int r / of_int hour_ns)"

lemma hour_frac_bounds:
  assumes "0 \<le> r" "r < hour_ns"
  shows "0 \<le> hour_frac r" "hour_frac r \<le> 1"
proof -
  have "(of_int r :: rat) / of_int hour_ns \<le> 1" using assms by simp
  then show "hour_frac r \<le> 1" unfolding hour_frac_def using rnd_le_small [of _ 1] by simp
  show "0 \<le> hour_frac r" unfolding hour_frac_def using assms by (intro rnd_nonneg) simp
qed

lemma hour_frac_mono: "r \<le> r' \<Longrightarrow> hour_frac r \<le> hour_frac r'"
  unfolding hour_frac_def by (intro rnd_mono divide_right_mono) auto

lemma Hours_eq:
  assumes "0 \<le> d" "d < 2 ^ 63"
  shows "Hours d = Fin (rnd (of_int (d div hour_ns) + hour_frac (d mod hour_ns)))"
proof -
  let ?q = "d div hour_ns" and ?r = "d mod hour_ns"
  have q: "0 \<le> ?q" "?q < 2 ^ 22" using assms by auto
  have r: "0 \<le> ?r" "?r < hour_ns" by auto
  note fb = hour_frac_bounds [OF r]
  have fq: "f64_of_int ?q = Fin (of_int ?q)" and fr: "f64_of_int ?r = Fin (of_int ?r)"
    using q r by (auto intro!: f64_of_int_small simp del: pos_mod_sign pos_mod_bound)
  have "\<bar>rnd (of_int ?r / of_int hour_ns)\<bar> \<le> (of_int (2 ^ 53) :: rat)"
    using fb unfolding hour_frac_def by simp
  then have fd: "flround (of_int ?r / of_int hour_ns) = Fin (hour_frac ?r)"
    unfolding hour_frac_def by (rule flround_small)
  have qr: "(of_int ?q :: rat) \<le> of_int (2 ^ 22 - 1)" using q by linarith
  have s0: "0 \<le> rnd (of_int ?q + hour_frac ?r)" using q fb by (intro rnd_nonneg) auto
  have s1: "rnd (of_int ?q + hour_frac ?r) \<le> of_int (2 ^ 22)"
    using qr fb by (intro rnd_le_small) auto
  have "\<bar>rnd (of_int ?q + hour_frac ?r)\<bar> \<le> of_int (2 ^ 53)" using s0 s1 by simp
  then have "flround (of_int ?q + hour_frac ?r) = Fin (rnd (of_int ?q + hour_frac ?r))"
    by (rule flround_small)
  then show ?thesis
    unfolding Hours_def go_quot_nonneg [OF assms(1), of hour_ns, simplified]
      go_rem_nonneg [OF assms(1), of hour_ns, simplified] fq fr
    using fd by (simp add: fq fr)
qed

theorem Hours_mono:
  assumes "0 \<le> d" "d \<le> e" "e < 2 ^ 63"
  shows "fle (Hours d) (Hours e)"
proof -
  let ?h = "\<lambda>d. of_int (d div hour_ns) + hour_frac (d mod hour_ns)"
  have "?h d \<le> ?h e"
  proof (cases "d div hour_ns = e div hour_ns")
    case True
    then have "d mod hour_ns \<le> e mod hour_ns" using assms(2)
      by (metis add_le_cancel_left mult_div_mod_eq)
    then show ?thesis using True hour_frac_mono by simp
  next
    case False
    then have "d div hour_ns + 1 \<le> e div hour_ns"
      using zdiv_mono1 [OF assms(2), of hour_ns] by simp
    then have "(of_int (d div hour_ns) :: rat) + 1 \<le> of_int (e div hour_ns)" by linarith
    then show ?thesis
      using hour_frac_bounds(2) [of "d mod hour_ns"] hour_frac_bounds(1) [of "e mod hour_ns"] by simp
  qed
  then show ?thesis using assms by (simp add: Hours_eq rnd_mono)
qed

lemma Hours_nonneg: "0 \<le> d \<Longrightarrow> d < 2 ^ 63 \<Longrightarrow> fle (Fin 0) (Hours d)"
  by (simp add: Hours_eq rnd_nonneg hour_frac_bounds)

lemma Hours_0 [simp]: "Hours 0 = Fin 0"
  by (simp add: Hours_eq hour_frac_def)

section \<open>Strings\<close>

definition ascii_lower :: "char \<Rightarrow> char" where
  "ascii_lower c = (let n = (of_char c :: nat) in if 65 \<le> n \<and> n \<le> 90 then char_of (n + 32) else c)"

definition ascii_upper :: "char \<Rightarrow> char" where
  "ascii_upper c = (let n = (of_char c :: nat) in if 97 \<le> n \<and> n \<le> 122 then char_of (n - 32) else c)"

definition is_ascii :: "string \<Rightarrow> bool" where
  "is_ascii s \<longleftrightarrow> list_all (\<lambda>c. (of_char c :: nat) < 128) s"

text \<open>
  \<open>strings.ToLower\<close> and \<open>strings.ToUpper\<close> map an ASCII string byte by byte; any other string goes
  through the Unicode tables, which are the argument \<open>uni\<close>.
\<close>

definition ToLower :: "(string \<Rightarrow> string) \<Rightarrow> string \<Rightarrow> string" where
  "ToLower uni s = (if is_ascii s then map ascii_lower s else uni s)"

definition ToUpper :: "(string \<Rightarrow> string) \<Rightarrow> string \<Rightarrow> string" where
  "ToUpper uni s = (if is_ascii s then map ascii_upper s else uni s)"

definition HasPrefix :: "string \<Rightarrow> string \<Rightarrow> bool" where
  "HasPrefix s p \<longleftrightarrow> take (length p) s = p"

lemma HasPrefix_iff: "HasPrefix s p \<longleftrightarrow> (\<exists>r. s = p @ r)"
  unfolding HasPrefix_def by (metis append_eq_conv_conj append_take_drop_id)

lemma of_char_bound: "(of_char c :: nat) < 256"
  by (metis UNIV_char_of_nat nat_of_char_less_256)

end
