(* ===== verification/Shared.thy ===== *)
theory Shared
  imports GoTime
begin

text \<open>
  \<open>internal/domain/shared\<close>: the identifier types with their validating constructors, and the
  domain events every aggregate raises.
\<close>

type_synonym AssociateId = string
type_synonym PathId = string
type_synonym Certification = string
type_synonym Capability = string

definition NewAssociateId :: "string \<Rightarrow> err + AssociateId" where
  "NewAssociateId v = (if v = '''' then Inl (Sentinel ErrEmptyAssociateId) else Inr v)"

definition NewPathId :: "string \<Rightarrow> err + PathId" where
  "NewPathId v = (if v = '''' then Inl (Sentinel ErrEmptyPathId) else Inr v)"

definition NewCertification :: "string \<Rightarrow> err + Certification" where
  "NewCertification v = (if v = '''' then Inl (Sentinel ErrEmptyCertification) else Inr v)"

text \<open>A domain event is the time it occurred at (the embedded \<open>baseEvent\<close>) and its payload.\<close>

datatype DomainEvent =
    ShiftPlanProposed time string PathId int f64
  | ShiftPlanCommitted time string string
  | AssociateShiftStarted time AssociateId "Certification list"
  | AssociateCertified time AssociateId Certification
  | AssociateBreakStarted time AssociateId
  | AssociateBreakEnded time AssociateId
  | LaborAssigned time AssociateId PathId
  | LaborReassigned time AssociateId PathId PathId
  | PathUnderstaffed time PathId int int
  | AssociateShiftEnded time AssociateId

fun OccurredAt :: "DomainEvent \<Rightarrow> time" where
  "OccurredAt (ShiftPlanProposed t _ _ _ _) = t"
| "OccurredAt (ShiftPlanCommitted t _ _) = t"
| "OccurredAt (AssociateShiftStarted t _ _) = t"
| "OccurredAt (AssociateCertified t _ _) = t"
| "OccurredAt (AssociateBreakStarted t _) = t"
| "OccurredAt (AssociateBreakEnded t _) = t"
| "OccurredAt (LaborAssigned t _ _) = t"
| "OccurredAt (LaborReassigned t _ _ _) = t"
| "OccurredAt (PathUnderstaffed t _ _ _) = t"
| "OccurredAt (AssociateShiftEnded t _) = t"

fun EventName :: "DomainEvent \<Rightarrow> string" where
  "EventName (ShiftPlanProposed _ _ _ _ _) = ''ShiftPlanProposed''"
| "EventName (ShiftPlanCommitted _ _ _) = ''ShiftPlanCommitted''"
| "EventName (AssociateShiftStarted _ _ _) = ''AssociateShiftStarted''"
| "EventName (AssociateCertified _ _ _) = ''AssociateCertified''"
| "EventName (AssociateBreakStarted _ _) = ''AssociateBreakStarted''"
| "EventName (AssociateBreakEnded _ _) = ''AssociateBreakEnded''"
| "EventName (LaborAssigned _ _ _) = ''LaborAssigned''"
| "EventName (LaborReassigned _ _ _ _) = ''LaborReassigned''"
| "EventName (PathUnderstaffed _ _ _ _) = ''PathUnderstaffed''"
| "EventName (AssociateShiftEnded _ _) = ''AssociateShiftEnded''"

lemma NewAssociateId_Inr [simp]: "NewAssociateId v = Inr a \<longleftrightarrow> a = v \<and> v \<noteq> ''''"
  by (auto simp: NewAssociateId_def)

lemma NewPathId_Inr [simp]: "NewPathId v = Inr p \<longleftrightarrow> p = v \<and> v \<noteq> ''''"
  by (auto simp: NewPathId_def)

lemma NewCertification_Inr [simp]: "NewCertification v = Inr c \<longleftrightarrow> c = v \<and> v \<noteq> ''''"
  by (auto simp: NewCertification_def)

end
