(* ===== verification/Associate.thy ===== *)
theory Associate
  imports Shared
begin

text \<open>
  \<open>internal/domain/associate\<close>: the \<open>AssociateShift\<close> aggregate, its operations, and its
  invariants. A method that returns an error has changed nothing, so it is a function to
  \<open>err + AssociateShift\<close>. The certifications are a Go map to \<open>struct{}\<close>: a set, whose
  iteration order the code never relies on.
\<close>

record AssociateShift =
  as_associateId :: AssociateId
  as_certifications :: "Certification set"
  as_onBreak :: bool
  as_hoursLogged :: f64
  as_ended :: bool
  as_version :: int
  as_events :: "DomainEvent list"

definition as_record :: "AssociateShift \<Rightarrow> DomainEvent \<Rightarrow> AssociateShift" where
  "as_record a e = a\<lparr>as_events := as_events a @ [e]\<rparr>"

definition NewAssociateShift :: "AssociateId \<Rightarrow> Certification list \<Rightarrow> time \<Rightarrow> AssociateShift" where
  "NewAssociateShift i certs now =
     as_record \<lparr>as_associateId = i, as_certifications = set certs, as_onBreak = False,
       as_hoursLogged = Fin 0, as_ended = False, as_version = 1, as_events = []\<rparr>
       (AssociateShiftStarted now i certs)"

definition RehydrateAssociate ::
  "AssociateId \<Rightarrow> Certification set \<Rightarrow> bool \<Rightarrow> f64 \<Rightarrow> bool \<Rightarrow> int \<Rightarrow> AssociateShift" where
  "RehydrateAssociate i certs onBreak hours ended v =
     \<lparr>as_associateId = i, as_certifications = certs, as_onBreak = onBreak,
      as_hoursLogged = hours, as_ended = ended, as_version = v, as_events = []\<rparr>"

definition SetVersion :: "AssociateShift \<Rightarrow> int \<Rightarrow> AssociateShift" where
  "SetVersion a v = a\<lparr>as_version := v\<rparr>"

definition HasCertification :: "AssociateShift \<Rightarrow> Certification \<Rightarrow> bool" where
  "HasCertification a c \<longleftrightarrow> c \<in> as_certifications a"

definition Certify :: "AssociateShift \<Rightarrow> Certification \<Rightarrow> time \<Rightarrow> err + AssociateShift" where
  "Certify a c now =
     (if as_ended a then Inl (Sentinel ErrShiftEnded)
      else Inr (as_record (a\<lparr>as_certifications := insert c (as_certifications a)\<rparr>)
                  (AssociateCertified now (as_associateId a) c)))"

definition StartBreak :: "AssociateShift \<Rightarrow> time \<Rightarrow> err + AssociateShift" where
  "StartBreak a now =
     (if as_ended a then Inl (Sentinel ErrShiftEnded)
      else if as_onBreak a then Inl (Sentinel ErrAlreadyOnBreak)
      else Inr (as_record (a\<lparr>as_onBreak := True\<rparr>) (AssociateBreakStarted now (as_associateId a))))"

definition EndBreak :: "AssociateShift \<Rightarrow> time \<Rightarrow> err + AssociateShift" where
  "EndBreak a now =
     (if as_ended a then Inl (Sentinel ErrShiftEnded)
      else if \<not> as_onBreak a then Inl (Sentinel ErrNotOnBreak)
      else Inr (as_record (a\<lparr>as_onBreak := False\<rparr>) (AssociateBreakEnded now (as_associateId a))))"

definition CanBeAssigned :: "AssociateShift \<Rightarrow> err + unit" where
  "CanBeAssigned a =
     (if as_ended a then Inl (Sentinel ErrShiftEnded)
      else if as_onBreak a then Inl (Sentinel ErrOnBreak)
      else Inr ())"

definition LogHours :: "AssociateShift \<Rightarrow> f64 \<Rightarrow> f64 \<Rightarrow> err + AssociateShift" where
  "LogHours a hours maxHoursPerShift =
     (if as_ended a then Inl (Sentinel ErrShiftEnded)
      else if flt maxHoursPerShift (fadd (as_hoursLogged a) hours) then Inl (Sentinel ErrMaxHoursExceeded)
      else Inr (a\<lparr>as_hoursLogged := fadd (as_hoursLogged a) hours\<rparr>))"

definition EndShift :: "AssociateShift \<Rightarrow> time \<Rightarrow> AssociateShift" where
  "EndShift a now =
     (if as_ended a then a
      else as_record (a\<lparr>as_ended := True\<rparr>) (AssociateShiftEnded now (as_associateId a)))"

definition as_PullEvents :: "AssociateShift \<Rightarrow> DomainEvent list \<times> AssociateShift" where
  "as_PullEvents a = (as_events a, a\<lparr>as_events := []\<rparr>)"

lemmas associate_defs [domain_simps] =
  as_record_def NewAssociateShift_def RehydrateAssociate_def SetVersion_def HasCertification_def
  Certify_def StartBreak_def EndBreak_def CanBeAssigned_def LogHours_def EndShift_def
  as_PullEvents_def

section \<open>The shift as a state machine\<close>

text \<open>
  The operations a client can apply to a shift, the relation of one operation that succeeds,
  and the shifts a sequence of them can reach from a fresh one.
\<close>

datatype shift_op = OpCertify Certification | OpStartBreak | OpEndBreak | OpLogHours f64 | OpEndShift

fun apply_shift_op :: "f64 \<Rightarrow> AssociateShift \<Rightarrow> shift_op \<Rightarrow> time \<Rightarrow> err + AssociateShift" where
  "apply_shift_op mx a (OpCertify c) now = Certify a c now"
| "apply_shift_op mx a OpStartBreak now = StartBreak a now"
| "apply_shift_op mx a OpEndBreak now = EndBreak a now"
| "apply_shift_op mx a (OpLogHours h) now = LogHours a h mx"
| "apply_shift_op mx a OpEndShift now = Inr (EndShift a now)"

inductive shift_reach :: "f64 \<Rightarrow> AssociateShift \<Rightarrow> AssociateShift \<Rightarrow> bool" for mx a0 where
  shift_start: "shift_reach mx a0 a0"
| shift_step: "shift_reach mx a0 a \<Longrightarrow> apply_shift_op mx a p now = Inr a' \<Longrightarrow> shift_reach mx a0 a'"

lemma apply_shift_op_frame:
  "apply_shift_op mx a p now = Inr a' \<Longrightarrow>
     as_associateId a' = as_associateId a \<and> as_version a' = as_version a
     \<and> as_certifications a \<subseteq> as_certifications a'
     \<and> (\<exists>es. as_events a' = as_events a @ es \<and> length es \<le> 1)"
  by (cases p) (auto simp: domain_simps split: if_splits)

lemma apply_shift_op_ended:
  "as_ended a \<Longrightarrow> apply_shift_op mx a p now = Inr a' \<Longrightarrow> a' = a \<and> p = OpEndShift"
  by (cases p) (auto simp: domain_simps split: if_splits)

text \<open>Hours stay a number at most the limit.\<close>

definition hours_ok :: "f64 \<Rightarrow> AssociateShift \<Rightarrow> bool" where
  "hours_ok mx a \<longleftrightarrow> \<not> flt mx (as_hoursLogged a)"

lemma hours_ok_step: "hours_ok mx a \<Longrightarrow> apply_shift_op mx a p now = Inr a' \<Longrightarrow> hours_ok mx a'"
  by (cases p) (auto simp: domain_simps hours_ok_def split: if_splits)

lemma hours_ok_reach: "shift_reach mx a0 a \<Longrightarrow> hours_ok mx a0 \<Longrightarrow> hours_ok mx a"
  by (induction rule: shift_reach.induct) (auto intro: hours_ok_step)

text \<open>The break flag is what the break events say.\<close>

fun break_after :: "bool \<Rightarrow> DomainEvent list \<Rightarrow> bool option" where
  "break_after b [] = Some b"
| "break_after b (AssociateBreakStarted _ _ # es) = (if b then None else break_after True es)"
| "break_after b (AssociateBreakEnded _ _ # es) = (if b then break_after False es else None)"
| "break_after b (_ # es) = break_after b es"

lemma break_after_append:
  "break_after b (es @ es') = (case break_after b es of None \<Rightarrow> None | Some b' \<Rightarrow> break_after b' es')"
proof (induction es arbitrary: b)
  case (Cons e es)
  then show ?case by (cases e) auto
qed simp

lemma break_after_step:
  "break_after b0 (as_events a) = Some (as_onBreak a) \<Longrightarrow> apply_shift_op mx a p now = Inr a' \<Longrightarrow>
     break_after b0 (as_events a') = Some (as_onBreak a')"
  by (cases p) (auto simp: domain_simps break_after_append split: if_splits)

lemma break_after_reach:
  "shift_reach mx a0 a \<Longrightarrow> break_after b0 (as_events a0) = Some (as_onBreak a0) \<Longrightarrow>
     break_after b0 (as_events a) = Some (as_onBreak a)"
  by (induction rule: shift_reach.induct) (auto intro: break_after_step)

lemma ended_reach: "shift_reach mx a0 a \<Longrightarrow> as_ended a0 \<Longrightarrow> a = a0"
  by (induction rule: shift_reach.induct) (auto dest: apply_shift_op_ended)

text \<open>The end of a shift is announced once, when it happens.\<close>

definition is_ended_event :: "DomainEvent \<Rightarrow> bool" where
  "is_ended_event e \<longleftrightarrow> EventName e = ''AssociateShiftEnded''"

lemma ended_events_step:
  "length (filter is_ended_event (as_events a)) = of_bool (as_ended a) \<Longrightarrow> apply_shift_op mx a p now = Inr a' \<Longrightarrow>
     length (filter is_ended_event (as_events a')) = of_bool (as_ended a')"
  by (cases p) (auto simp: domain_simps is_ended_event_def split: if_splits)

lemma ended_events_reach:
  "shift_reach mx a0 a \<Longrightarrow> length (filter is_ended_event (as_events a0)) = of_bool (as_ended a0) \<Longrightarrow>
     length (filter is_ended_event (as_events a)) = of_bool (as_ended a)"
  by (induction rule: shift_reach.induct) (simp, blast intro: ended_events_step)

lemma certs_reach:
  "shift_reach mx a0 a \<Longrightarrow> as_associateId a = as_associateId a0 \<and> as_certifications a0 \<subseteq> as_certifications a"
  by (induction rule: shift_reach.induct) (use apply_shift_op_frame in fastforce)+

text \<open>
  C7: along every run of operations from a fresh shift, the logged hours stay within the limit,
  the break flag is what the recorded break events say (a break starts only off break and ends
  only on break), certifications are never lost, and \<open>AssociateShiftEnded\<close> has been recorded
  exactly once if the shift has ended and never otherwise.
\<close>

theorem shift_run_sound:
  assumes "\<not> flt mx (Fin 0)" "shift_reach mx (NewAssociateShift i certs t) a"
  shows "\<not> flt mx (as_hoursLogged a)
    \<and> break_after False (as_events a) = Some (as_onBreak a)
    \<and> as_associateId a = i \<and> set certs \<subseteq> as_certifications a
    \<and> length (filter is_ended_event (as_events a)) = of_bool (as_ended a)"
proof (intro conjI)
  note r = assms(2)
  show "\<not> flt mx (as_hoursLogged a)"
    using hours_ok_reach [OF r] assms(1) by (simp add: hours_ok_def domain_simps)
  show "break_after False (as_events a) = Some (as_onBreak a)"
    by (rule break_after_reach [OF r]) (simp add: domain_simps)
  show "as_associateId a = i" "set certs \<subseteq> as_certifications a"
    using certs_reach [OF r] by (simp_all add: domain_simps)
  show "length (filter is_ended_event (as_events a)) = of_bool (as_ended a)"
    by (rule ended_events_reach [OF r]) (simp add: domain_simps is_ended_event_def)
qed

theorem shift_run_sound_witness:
  "break_after False (as_events (as_record ((NewAssociateShift ''a'' [''pack''] 0)\<lparr>as_onBreak := True\<rparr>)
     (AssociateBreakStarted 5 ''a''))) = Some True"
proof -
  have "shift_reach (Fin 8) (NewAssociateShift ''a'' [''pack''] 0)
      (as_record ((NewAssociateShift ''a'' [''pack''] 0)\<lparr>as_onBreak := True\<rparr>) (AssociateBreakStarted 5 ''a''))"
    by (rule shift_step [OF shift_start, of _ _ OpStartBreak 5]) (simp add: domain_simps)
  then show ?thesis
    using shift_run_sound [of "Fin 8" "''a''" "[''pack'']" 0] by (simp add: as_record_def NewAssociateShift_def)
qed

text \<open>
  An ended shift is terminal for the aggregate: every operation but \<open>EndShift\<close> is rejected
  with \<open>ErrShiftEnded\<close>, assignability included, and \<open>EndShift\<close> changes nothing and raises nothing.
\<close>

lemma ended_is_terminal:
  assumes "as_ended a"
  shows "apply_shift_op mx a p now = (if p = OpEndShift then Inr a else Inl (Sentinel ErrShiftEnded))
    \<and> CanBeAssigned a = Inl (Sentinel ErrShiftEnded)"
  using assms by (cases p) (simp_all add: domain_simps)

end
