(* ===== verification/Assignment.thy ===== *)
theory Assignment
  imports Shared
begin

text \<open>
  \<open>internal/domain/assignment\<close>: the \<open>LaborAssignment\<close> aggregate. A pointer field is an
  \<open>option\<close>: \<open>active\<close> holds at most one interval, and \<open>End\<close> is None while it is active.
\<close>

record Interval =
  iv_PathId :: PathId
  iv_Start :: time
  iv_End :: "time option"

record LaborAssignment =
  la_associateId :: AssociateId
  la_active :: "Interval option"
  la_history :: "Interval list"
  la_version :: int
  la_events :: "DomainEvent list"

definition interval_Hours :: "Interval \<Rightarrow> time \<Rightarrow> f64" where
  "interval_Hours iv now =
     (let e = (case iv_End iv of Some e \<Rightarrow> e | None \<Rightarrow> now) in Hours (time_Sub e (iv_Start iv)))"

definition NewLaborAssignment :: "AssociateId \<Rightarrow> LaborAssignment" where
  "NewLaborAssignment i =
     \<lparr>la_associateId = i, la_active = None, la_history = [], la_version = 1, la_events = []\<rparr>"

definition RehydrateAssignment ::
  "AssociateId \<Rightarrow> Interval option \<Rightarrow> Interval list \<Rightarrow> int \<Rightarrow> LaborAssignment" where
  "RehydrateAssignment i active history v =
     \<lparr>la_associateId = i, la_active = active, la_history = history, la_version = v, la_events = []\<rparr>"

definition la_IsActive :: "LaborAssignment \<Rightarrow> bool" where
  "la_IsActive l \<longleftrightarrow> la_active l \<noteq> None"

text \<open>The zero value with \<open>false\<close> is what the Go methods return when nothing is active.\<close>

definition ActivePathId :: "LaborAssignment \<Rightarrow> PathId \<times> bool" where
  "ActivePathId l = (case la_active l of None \<Rightarrow> ('''', False) | Some iv \<Rightarrow> (iv_PathId iv, True))"

definition ActiveInterval :: "LaborAssignment \<Rightarrow> Interval \<times> bool" where
  "ActiveInterval l = (case la_active l of
     None \<Rightarrow> (\<lparr>iv_PathId = '''', iv_Start = 0, iv_End = None\<rparr>, False)
   | Some iv \<Rightarrow> (iv, True))"

definition la_record :: "LaborAssignment \<Rightarrow> DomainEvent \<Rightarrow> LaborAssignment" where
  "la_record l e = l\<lparr>la_events := la_events l @ [e]\<rparr>"

definition closeActive :: "LaborAssignment \<Rightarrow> time \<Rightarrow> LaborAssignment" where
  "closeActive l now = (case la_active l of
     None \<Rightarrow> l
   | Some iv \<Rightarrow> l\<lparr>la_history := la_history l @ [iv\<lparr>iv_End := Some now\<rparr>], la_active := None\<rparr>)"

definition Assign :: "LaborAssignment \<Rightarrow> PathId \<Rightarrow> bool \<Rightarrow> time \<Rightarrow> err + LaborAssignment" where
  "Assign l pathId hasCertification now =
     (if \<not> hasCertification then Inl (Sentinel ErrCertificationRequired)
      else case la_active l of
        Some iv \<Rightarrow>
          Inr (la_record ((closeActive l now)\<lparr>la_active :=
                 Some \<lparr>iv_PathId = pathId, iv_Start = now, iv_End = None\<rparr>\<rparr>)
               (LaborReassigned now (la_associateId l) (iv_PathId iv) pathId))
      | None \<Rightarrow>
          Inr (la_record (l\<lparr>la_active := Some \<lparr>iv_PathId = pathId, iv_Start = now, iv_End = None\<rparr>\<rparr>)
               (LaborAssigned now (la_associateId l) pathId)))"

text \<open>\<open>EndActive\<close> returns the interval as it was before it was closed, and the new aggregate.\<close>

definition EndActive :: "LaborAssignment \<Rightarrow> time \<Rightarrow> Interval option \<times> LaborAssignment" where
  "EndActive l now = (case la_active l of None \<Rightarrow> (None, l) | Some iv \<Rightarrow> (Some iv, closeActive l now))"

definition la_PullEvents :: "LaborAssignment \<Rightarrow> DomainEvent list \<times> LaborAssignment" where
  "la_PullEvents l = (la_events l, l\<lparr>la_events := []\<rparr>)"

lemmas assignment_defs [domain_simps] =
  NewLaborAssignment_def RehydrateAssignment_def la_IsActive_def ActivePathId_def
  ActiveInterval_def la_record_def closeActive_def Assign_def EndActive_def la_PullEvents_def

section \<open>Well-formed records of assignments\<close>

text \<open>
  The active interval is open, the closed ones run forward in time, one after the other, and
  the active one starts no earlier than the last closed one ended: an associate is never on
  two paths at once.
\<close>

fun closed_before :: "Interval list \<Rightarrow> time \<Rightarrow> bool" where
  "closed_before [] t \<longleftrightarrow> True"
| "closed_before (iv # ivs) t \<longleftrightarrow>
     (case iv_End iv of None \<Rightarrow> False
      | Some e \<Rightarrow> iv_Start iv \<le> e \<and> e \<le> t \<and> list_all (\<lambda>j. e \<le> iv_Start j) ivs)
     \<and> closed_before ivs t"

definition la_inv :: "time \<Rightarrow> LaborAssignment \<Rightarrow> bool" where
  "la_inv now l \<longleftrightarrow>
     (case la_active l of
        None \<Rightarrow> closed_before (la_history l) now
      | Some iv \<Rightarrow> iv_End iv = None \<and> iv_Start iv \<le> now \<and> closed_before (la_history l) (iv_Start iv))"

lemma closed_before_mono: "closed_before ivs t \<Longrightarrow> t \<le> t' \<Longrightarrow> closed_before ivs t'"
  by (induction ivs) (auto split: option.splits)

lemma closed_before_snoc:
  "closed_before ivs s \<Longrightarrow> s \<le> t \<Longrightarrow> iv_Start iv = s \<Longrightarrow> iv_End iv = Some t \<Longrightarrow>
     closed_before (ivs @ [iv]) t"
  by (induction ivs) (auto split: option.splits)

lemma la_inv_mono: "la_inv t l \<Longrightarrow> t \<le> t' \<Longrightarrow> la_inv t' l"
  by (auto simp: la_inv_def split: option.splits intro: closed_before_mono)

lemma la_inv_closeActive: "la_inv t l \<Longrightarrow> t \<le> now \<Longrightarrow> la_inv now (closeActive l now)"
  by (auto simp: la_inv_def closeActive_def split: option.splits
      intro: closed_before_mono closed_before_snoc)

lemma la_inv_New: "la_inv t (NewLaborAssignment i)"
  by (simp add: la_inv_def NewLaborAssignment_def)

lemma la_inv_Assign:
  assumes "la_inv t l" "t \<le> now" "Assign l p h now = Inr l'"
  shows "la_inv now l'"
  using assms la_inv_closeActive [OF assms(1,2)] la_inv_mono [OF assms(1,2)]
  by (auto simp: Assign_def la_inv_def la_record_def closeActive_def split: option.splits if_splits)

lemma la_inv_EndActive: "la_inv t l \<Longrightarrow> t \<le> now \<Longrightarrow> EndActive l now = (r, l') \<Longrightarrow> la_inv now l'"
  by (auto simp: EndActive_def split: option.splits intro: la_inv_closeActive la_inv_mono)

lemma closed_before_pairwise:
  assumes "closed_before ivs t" "i < j" "j < length ivs"
  shows "\<exists>e. iv_End (ivs ! i) = Some e \<and> e \<le> iv_Start (ivs ! j)"
  using assms
proof (induction ivs arbitrary: i j)
  case (Cons iv ivs)
  show ?case
  proof (cases i)
    case 0
    then have "ivs ! (j - 1) \<in> set ivs" using Cons.prems by simp
    then show ?thesis using Cons.prems 0 by (auto simp: nth_Cons' list_all_iff split: option.splits)
  next
    case (Suc i')
    then show ?thesis using Cons.IH [of i' "j - 1"] Cons.prems by (auto simp: nth_Cons')
  qed
qed simp

section \<open>Storage\<close>

text \<open>
  A record saved and loaded again: nothing but its times may change, each to what the store keeps of it
  (\<open>tr\<close>; the identity in memory, whole microseconds in Postgres), and the version is the stored one.
\<close>

definition reload_interval :: "(time \<Rightarrow> time) \<Rightarrow> Interval \<Rightarrow> Interval" where
  "reload_interval tr iv = iv\<lparr>iv_Start := tr (iv_Start iv), iv_End := map_option tr (iv_End iv)\<rparr>"

definition reload :: "(time \<Rightarrow> time) \<Rightarrow> int \<Rightarrow> LaborAssignment \<Rightarrow> LaborAssignment" where
  "reload tr v l = RehydrateAssignment (la_associateId l) (map_option (reload_interval tr) (la_active l))
     (map (reload_interval tr) (la_history l)) v"

text \<open>A store's clock: it rounds down and keeps the order.\<close>

definition rounds_down :: "(time \<Rightarrow> time) \<Rightarrow> bool" where
  "rounds_down tr \<longleftrightarrow> (\<forall>t u. t \<le> u \<longrightarrow> tr t \<le> tr u) \<and> (\<forall>t. tr t \<le> t)"

lemma rounds_downD: "rounds_down tr \<Longrightarrow> t \<le> u \<Longrightarrow> tr t \<le> tr u" "rounds_down tr \<Longrightarrow> tr t \<le> t"
  by (auto simp: rounds_down_def)

lemma closed_before_reload:
  "rounds_down tr \<Longrightarrow> closed_before ivs t \<Longrightarrow> closed_before (map (reload_interval tr) ivs) (tr t)"
  by (induction ivs) (auto simp: reload_interval_def list_all_iff rounds_downD(1) split: option.splits)

lemma la_inv_reload: "rounds_down tr \<Longrightarrow> la_inv t l \<Longrightarrow> la_inv t (reload tr v l)"
  by (auto simp: la_inv_def reload_def RehydrateAssignment_def reload_interval_def split: option.splits
      intro: closed_before_mono [OF closed_before_reload] rounds_downD order.trans [OF rounds_downD(2)]
      dest: closed_before_reload)

text \<open>
  Runs of the aggregate's operations, saved and loaded again anywhere in between, at clock readings that
  never go back.
\<close>

inductive asg_reach :: "(time \<Rightarrow> time) \<Rightarrow> AssociateId \<Rightarrow> time \<Rightarrow> LaborAssignment \<Rightarrow> bool" for tr i where
  asg_new: "asg_reach tr i t (NewLaborAssignment i)"
| asg_assign: "asg_reach tr i t l \<Longrightarrow> t \<le> now \<Longrightarrow> Assign l p h now = Inr l' \<Longrightarrow> asg_reach tr i now l'"
| asg_end: "asg_reach tr i t l \<Longrightarrow> t \<le> now \<Longrightarrow> EndActive l now = (r, l') \<Longrightarrow> asg_reach tr i now l'"
| asg_reload: "asg_reach tr i t l \<Longrightarrow> asg_reach tr i t (reload tr v l)"

lemma asg_reach_inv: "asg_reach tr i t l \<Longrightarrow> rounds_down tr \<Longrightarrow> la_inv t l"
  by (induction rule: asg_reach.induct) (auto intro: la_inv_New la_inv_Assign la_inv_EndActive la_inv_reload)

lemma asg_reach_id: "asg_reach tr i t l \<Longrightarrow> la_associateId l = i"
  by (induction rule: asg_reach.induct) (auto simp: domain_simps reload_def split: option.splits if_splits)

lemma closed_before_all:
  "closed_before ivs t \<Longrightarrow> iv \<in> set ivs \<Longrightarrow> \<exists>e. iv_End iv = Some e \<and> iv_Start iv \<le> e \<and> e \<le> t"
  by (induction ivs) (auto split: option.splits)

text \<open>
  C6: as long as the clock never goes back, an associate is never on two paths at once. Along every run of
  \<open>Assign\<close> and \<open>EndActive\<close>, with the record stored and loaded again anywhere in between, each closed interval
  ended before the next one in the history started, and all of them before the active one did,
  which is open.
\<close>

theorem never_two_paths:
  assumes "rounds_down tr" "asg_reach tr i t l"
  shows "(\<forall>j k. j < k \<longrightarrow> k < length (la_history l) \<longrightarrow>
      (\<exists>e. iv_End (la_history l ! j) = Some e \<and> e \<le> iv_Start (la_history l ! k)))
    \<and> (\<forall>iv. la_active l = Some iv \<longrightarrow> iv_End iv = None
         \<and> (\<forall>h \<in> set (la_history l). \<exists>e. iv_End h = Some e \<and> iv_Start h \<le> e \<and> e \<le> iv_Start iv))"
proof (cases "la_active l")
  case None
  then have "closed_before (la_history l) t" using asg_reach_inv [OF assms(2,1)] by (simp add: la_inv_def)
  then show ?thesis using None closed_before_pairwise by auto
next
  case (Some iv)
  then have "closed_before (la_history l) (iv_Start iv)" "iv_End iv = None"
    using asg_reach_inv [OF assms(2,1)] by (auto simp: la_inv_def)
  then show ?thesis using Some closed_before_pairwise closed_before_all by auto
qed

text \<open>Two paths in turn, the record stored to the microsecond and loaded again in between.\<close>

definition demo_us :: "time \<Rightarrow> time" where
  "demo_us t = t - t mod 1000"

lemma demo_us_rounds: "rounds_down demo_us"
  unfolding rounds_down_def demo_us_def
proof (intro conjI allI impI)
  fix t u :: int assume "t \<le> u"
  then have "t div 1000 \<le> u div 1000" by (rule zdiv_mono1) simp
  then show "t - t mod 1000 \<le> u - u mod 1000" by (simp add: minus_mod_eq_div_mult)
qed simp

definition demo_moved :: LaborAssignment where
  "demo_moved = snd (EndActive (projr (Assign (reload demo_us 1 (projr (Assign (NewLaborAssignment ''a'') ''p'' True 1500)))
     ''q'' True 2700)) 3100)"

theorem never_two_paths_witness:
  "\<exists>e. iv_End (la_history demo_moved ! 0) = Some e \<and> e \<le> iv_Start (la_history demo_moved ! 1)"
proof -
  let ?l1 = "projr (Assign (NewLaborAssignment ''a'') ''p'' True 1500)"
  let ?l2 = "projr (Assign (reload demo_us 1 ?l1) ''q'' True 2700)"
  have "asg_reach demo_us ''a'' 1500 ?l1"
    by (rule asg_assign [where t = 0 and p = "''p''" and h = True, OF asg_new]) (simp_all add: domain_simps)
  then have "asg_reach demo_us ''a'' 1500 (reload demo_us 1 ?l1)" by (rule asg_reload)
  then have "asg_reach demo_us ''a'' 2700 ?l2"
    by (rule asg_assign [where p = "''q''" and h = True]) (simp_all add: domain_simps reload_def)
  then have "asg_reach demo_us ''a'' 3100 demo_moved" unfolding demo_moved_def
    by (rule asg_end) (simp_all add: domain_simps reload_def)
  moreover have "length (la_history demo_moved) = 2" by (simp add: demo_moved_def domain_simps reload_def)
  ultimately show ?thesis using never_two_paths [OF demo_us_rounds, of "''a''" 3100 demo_moved] by simp
qed

text \<open>
  The condition is needed. Nothing guards against a clock that goes back: read an earlier time, and the closed
  interval ends after the new one has started.
\<close>

lemma clock_skew_overlaps:
  assumes "la_active l = Some iv" "now < t" "Assign l p True t = Inr l1"
  shows "\<exists>l2 h a. Assign l1 q True now = Inr l2 \<and> la_active l2 = Some a \<and> List.last (la_history l2) = h
    \<and> iv_Start h = t \<and> iv_End h = Some now \<and> now < iv_Start h
    \<and> (\<exists>h'. la_history l2 = la_history l @ [h', h] \<and> iv_End h' = Some t \<and> iv_Start a < t)"
  using assms by (auto simp: domain_simps)

end
