(* ===== verification/PathCatalog.thy ===== *)
theory PathCatalog
  imports Shared "HOL-Library.Multiset"
begin

text \<open>
  \<open>internal/domain/pathcatalog\<close>: the process-path catalogue and its longest-prefix,
  case-insensitive lookup. \<open>uni\<close> stands for the Unicode case tables, used for ids with
  non-ASCII bytes only.
\<close>

record PathDefinition =
  pd_Id :: string
  pd_MatchPrefix :: string
  pd_RequiredCapabilities :: "string list"
  pd_DestinationLocationRole :: string

type_synonym Catalogue = "PathDefinition list"

definition NewCatalogue :: "PathDefinition list \<Rightarrow> Catalogue" where
  "NewCatalogue defs = defs"

definition matchesPrefix :: "string \<Rightarrow> string \<Rightarrow> bool" where
  "matchesPrefix i prefix \<longleftrightarrow> (if i = prefix then True else HasPrefix i (prefix @ ''-''))"

fun lookup_loop ::
  "(string \<Rightarrow> string) \<Rightarrow> string \<Rightarrow> PathDefinition \<Rightarrow> int \<Rightarrow> PathDefinition list \<Rightarrow> PathDefinition \<times> int" where
  "lookup_loop uni lower best bestLen [] = (best, bestLen)"
| "lookup_loop uni lower best bestLen (d # ds) =
     (let prefix = ToLower uni (pd_MatchPrefix d) in
      if prefix = '''' then lookup_loop uni lower best bestLen ds
      else if \<not> matchesPrefix lower prefix then lookup_loop uni lower best bestLen ds
      else if int (length prefix) > bestLen then lookup_loop uni lower d (int (length prefix)) ds
      else lookup_loop uni lower best bestLen ds)"

definition Lookup :: "(string \<Rightarrow> string) \<Rightarrow> Catalogue \<Rightarrow> string \<Rightarrow> err + PathDefinition" where
  "Lookup uni c i =
     (let lower = ToLower uni i;
          zero = \<lparr>pd_Id = '''', pd_MatchPrefix = '''', pd_RequiredCapabilities = [],
                  pd_DestinationLocationRole = ''''\<rparr>
      in case lookup_loop uni lower zero (- 1) c of
           (best, bestLen) \<Rightarrow> if bestLen = - 1 then Inl (Sentinel ErrUnknownPath) else Inr best)"

definition catalogue_Ids :: "Catalogue \<Rightarrow> string list" where
  "catalogue_Ids c = map pd_Id c"

section \<open>What the lookup computes\<close>

definition lprefix :: "(string \<Rightarrow> string) \<Rightarrow> PathDefinition \<Rightarrow> string" where
  "lprefix uni d = ToLower uni (pd_MatchPrefix d)"

definition recognizes :: "(string \<Rightarrow> string) \<Rightarrow> string \<Rightarrow> PathDefinition \<Rightarrow> bool" where
  "recognizes uni i d \<longleftrightarrow>
     lprefix uni d \<noteq> '''' \<and>
     (ToLower uni i = lprefix uni d \<or> (\<exists>r. ToLower uni i = lprefix uni d @ ''-'' @ r))"

lemma recognizes_loop:
  "recognizes uni i d \<longleftrightarrow> ToLower uni (pd_MatchPrefix d) \<noteq> ''''
     \<and> matchesPrefix (ToLower uni i) (ToLower uni (pd_MatchPrefix d))"
  by (auto simp: recognizes_def matchesPrefix_def lprefix_def HasPrefix_iff)

abbreviation plen :: "(string \<Rightarrow> string) \<Rightarrow> PathDefinition \<Rightarrow> int" where
  "plen uni d \<equiv> int (length (lprefix uni d))"

lemma lookup_loop_spec:
  assumes "lookup_loop uni (ToLower uni i) best n ds = (b, m)"
  shows "n \<le> m \<and> (\<forall>d \<in> set ds. recognizes uni i d \<longrightarrow> plen uni d \<le> m)
    \<and> (m = n \<and> b = best \<or> n < m \<and> (\<exists>xs ys. ds = xs @ b # ys \<and> recognizes uni i b \<and> m = plen uni b
         \<and> (\<forall>d \<in> set xs. recognizes uni i d \<longrightarrow> plen uni d < m)))"
  using assms
proof (induction ds arbitrary: best n)
  case Nil
  then show ?case by simp
next
  case (Cons d ds)
  show ?case
  proof (cases "recognizes uni i d \<and> n < plen uni d")
    case True
    then have "lookup_loop uni (ToLower uni i) d (plen uni d) ds = (b, m)"
      using Cons.prems by (auto simp: recognizes_loop lprefix_def Let_def)
    note IH = Cons.IH [OF this]
    show ?thesis
    proof (cases "m = plen uni d \<and> b = d")
      case True
      then show ?thesis using IH \<open>recognizes uni i d \<and> n < plen uni d\<close>
        by (intro conjI disjI2) (force intro: exI [of _ "[]"])+
    next
      case False
      then obtain xs ys where *: "ds = xs @ b # ys" "recognizes uni i b" "m = plen uni b"
        "\<forall>d \<in> set xs. recognizes uni i d \<longrightarrow> plen uni d < m" "plen uni d < m"
        using IH by auto
      then have "d # ds = (d # xs) @ b # ys" by simp
      then show ?thesis
        by (intro conjI disjI2 exI [of _ "d # xs"] exI [of _ ys]) (use * IH True in auto)
    qed
  next
    case False
    then have "lookup_loop uni (ToLower uni i) best n ds = (b, m)"
      using Cons.prems by (auto simp: recognizes_loop lprefix_def Let_def split: if_splits)
    note IH = Cons.IH [OF this]
    have dn: "recognizes uni i d \<longrightarrow> plen uni d \<le> n" using False by auto
    show ?thesis
    proof (cases "m = n \<and> b = best")
      case True
      then show ?thesis using IH dn by auto
    next
      case F: False
      then obtain xs ys where *: "ds = xs @ b # ys" "recognizes uni i b" "m = plen uni b"
        "\<forall>d \<in> set xs. recognizes uni i d \<longrightarrow> plen uni d < m" "n < m"
        using IH by auto
      then have "d # ds = (d # xs) @ b # ys" by simp
      then show ?thesis
        by (intro conjI disjI2 exI [of _ "d # xs"] exI [of _ ys]) (use * IH dn in auto)
    qed
  qed
qed

lemma Lookup_Inr:
  assumes "Lookup uni c i = Inr d"
  shows "\<exists>xs ys. c = xs @ d # ys \<and> recognizes uni i d
    \<and> (\<forall>d' \<in> set c. recognizes uni i d' \<longrightarrow> plen uni d' \<le> plen uni d)
    \<and> (\<forall>d' \<in> set xs. recognizes uni i d' \<longrightarrow> plen uni d' < plen uni d)"
proof -
  obtain b m where l: "lookup_loop uni (ToLower uni i) \<lparr>pd_Id = '''', pd_MatchPrefix = '''',
      pd_RequiredCapabilities = [], pd_DestinationLocationRole = ''''\<rparr> (- 1) c = (b, m)"
    by fastforce
  then have "m \<noteq> - 1" "b = d" using assms by (auto simp: Lookup_def Let_def split: if_splits)
  then show ?thesis using lookup_loop_spec [OF l] by blast
qed

lemma Lookup_Inl:
  "Lookup uni c i = Inl e \<longleftrightarrow> e = Sentinel ErrUnknownPath \<and> (\<forall>d \<in> set c. \<not> recognizes uni i d)"
proof -
  obtain b m where l: "lookup_loop uni (ToLower uni i) \<lparr>pd_Id = '''', pd_MatchPrefix = '''',
      pd_RequiredCapabilities = [], pd_DestinationLocationRole = ''''\<rparr> (- 1) c = (b, m)"
    by fastforce
  show ?thesis
    using lookup_loop_spec [OF l] l unfolding Lookup_def Let_def
    by (auto simp del: lookup_loop.simps)
qed

text \<open>Two prefixes of one length that recognize the same id are the same prefix.\<close>

lemma recognizes_take:
  "recognizes uni i d \<Longrightarrow> take (length (lprefix uni d)) (ToLower uni i) = lprefix uni d"
  by (auto simp: recognizes_def)

lemma recognizes_same_length:
  "recognizes uni i d \<Longrightarrow> recognizes uni i d' \<Longrightarrow> plen uni d = plen uni d' \<Longrightarrow>
     lprefix uni d = lprefix uni d'"
proof -
  assume a: "recognizes uni i d" "recognizes uni i d'" and l: "plen uni d = plen uni d'"
  have "lprefix uni d = take (length (lprefix uni d)) (ToLower uni i)"
    by (rule recognizes_take [OF a(1), symmetric])
  also have "length (lprefix uni d) = length (lprefix uni d')" using l by (simp only: of_nat_eq_iff)
  also have "take \<dots> (ToLower uni i) = lprefix uni d'" by (rule recognizes_take [OF a(2)])
  finally show ?thesis .
qed

lemma Lookup_unique:
  assumes "distinct (map (lprefix uni) c)" "d \<in> set c" "recognizes uni i d"
    and "\<forall>d' \<in> set c. recognizes uni i d' \<longrightarrow> plen uni d' \<le> plen uni d"
  shows "Lookup uni c i = Inr d"
proof (cases "Lookup uni c i")
  case (Inl e)
  then show ?thesis using assms by (simp add: Lookup_Inl)
next
  case (Inr b)
  from Lookup_Inr [OF this] have b: "b \<in> set c" "recognizes uni i b" "plen uni d \<le> plen uni b"
    using assms(2,3) by auto
  then have "plen uni b = plen uni d" using assms(4) by fastforce
  then have "lprefix uni b = lprefix uni d" using b assms(3) by (intro recognizes_same_length)
  then have "b = d" using assms(1,2) b by (metis distinct_map inj_onD)
  then show ?thesis using Inr by simp
qed

lemma Lookup_same:
  assumes "mset c = mset c'" "distinct (map (lprefix uni) c)"
  shows "Lookup uni c i = Lookup uni c' i"
proof (cases "Lookup uni c' i")
  case (Inl e)
  then show ?thesis using mset_eq_setD [OF assms(1)] by (metis Lookup_Inl)
next
  case (Inr d)
  from Lookup_Inr [OF Inr] have "d \<in> set c'" "recognizes uni i d"
    "\<forall>d' \<in> set c'. recognizes uni i d' \<longrightarrow> plen uni d' \<le> plen uni d" by auto
  then show ?thesis using Lookup_unique [OF assms(2)] Inr mset_eq_setD [OF assms(1)] by metis
qed

text \<open>
  When no two definitions share a lower-cased prefix, the lookup does not depend on their
  order: ranging over the Kafka cache's map, in whatever order Go picks, gives the answer of
  the file's order.
\<close>

theorem Lookup_perm:
  assumes "mset c = mset c'" "distinct (map (lprefix uni) c)"
  shows "Lookup uni c i = Lookup uni c' i"
  using assms by (rule Lookup_same)

lemma ascii_lower_idem [simp]: "ascii_lower (ascii_lower c) = ascii_lower c"
  by (auto simp: ascii_lower_def Let_def)

lemma ascii_lower_upper [simp]: "ascii_lower (ascii_upper c) = ascii_lower c"
  by (auto simp: ascii_lower_def ascii_upper_def Let_def)

lemma is_ascii_upper: "is_ascii s \<Longrightarrow> is_ascii (map ascii_upper s)"
  by (induction s) (auto simp: is_ascii_def ascii_upper_def Let_def)

lemma ToLower_upper: "is_ascii s \<Longrightarrow> ToLower uni (map ascii_upper s) = ToLower uni s"
  using is_ascii_upper [of s] by (simp add: ToLower_def comp_def)

lemma Lookup_upper: "is_ascii i \<Longrightarrow> Lookup uni c (map ascii_upper i) = Lookup uni c i"
  by (simp add: Lookup_def ToLower_upper)

lemma first_longest_unique:
  fixes f :: "'a \<Rightarrow> int"
  assumes "xs @ d # ys = xs' @ d' # ys'" "R d" "R d'" "f d = f d'"
    and "\<forall>x \<in> set xs. R x \<longrightarrow> f x < f d" "\<forall>x \<in> set xs'. R x \<longrightarrow> f x < f d'"
  shows "d = d'"
  using assms by (auto simp: append_eq_append_conv2 append_eq_Cons_conv Cons_eq_append_conv)

text \<open>
  C21: the lookup answers a definition exactly when it is the first one of the longest matching
  prefix: the id equals the prefix or continues it after a dash, letter case aside, and an
  empty prefix matches nothing. It fails, with \<open>ErrUnknownPath\<close>, exactly when none matches.
\<close>

theorem Lookup_verdict:
  "(Lookup uni c i = Inr d \<longleftrightarrow> (\<exists>xs ys. c = xs @ d # ys \<and> recognizes uni i d
      \<and> (\<forall>d' \<in> set c. recognizes uni i d' \<longrightarrow> plen uni d' \<le> plen uni d)
      \<and> (\<forall>d' \<in> set xs. recognizes uni i d' \<longrightarrow> plen uni d' < plen uni d)))
   \<and> (Lookup uni c i = Inl e \<longleftrightarrow> e = Sentinel ErrUnknownPath \<and> (\<forall>d \<in> set c. \<not> recognizes uni i d))"
proof (rule conjI [OF iffI Lookup_Inl])
  assume "Lookup uni c i = Inr d"
  then show "\<exists>xs ys. c = xs @ d # ys \<and> recognizes uni i d
      \<and> (\<forall>d' \<in> set c. recognizes uni i d' \<longrightarrow> plen uni d' \<le> plen uni d)
      \<and> (\<forall>d' \<in> set xs. recognizes uni i d' \<longrightarrow> plen uni d' < plen uni d)" by (rule Lookup_Inr)
next
  assume "\<exists>xs ys. c = xs @ d # ys \<and> recognizes uni i d
      \<and> (\<forall>d' \<in> set c. recognizes uni i d' \<longrightarrow> plen uni d' \<le> plen uni d)
      \<and> (\<forall>d' \<in> set xs. recognizes uni i d' \<longrightarrow> plen uni d' < plen uni d)"
  then obtain xs ys where d: "c = xs @ d # ys" "recognizes uni i d"
    "\<forall>d' \<in> set c. recognizes uni i d' \<longrightarrow> plen uni d' \<le> plen uni d"
    "\<forall>d' \<in> set xs. recognizes uni i d' \<longrightarrow> plen uni d' < plen uni d" by blast
  show "Lookup uni c i = Inr d"
  proof (cases "Lookup uni c i")
    case (Inl e')
    then show ?thesis using d(1,2) by (auto simp: Lookup_Inl)
  next
    case (Inr d')
    obtain xs' ys' where d': "c = xs' @ d' # ys'" "recognizes uni i d'"
      "\<forall>d \<in> set c. recognizes uni i d \<longrightarrow> plen uni d \<le> plen uni d'"
      "\<forall>d \<in> set xs'. recognizes uni i d \<longrightarrow> plen uni d < plen uni d'" using Lookup_Inr [OF Inr] by blast
    have "d \<in> set c" by (simp add: d(1))
    moreover have "d' \<in> set c" by (simp add: d'(1))
    ultimately have "plen uni d \<le> plen uni d'" "plen uni d' \<le> plen uni d" using d(2,3) d'(2,3) by blast+
    then have e: "plen uni d = plen uni d'" by (rule order_antisym)
    have "d = d'"
      by (rule first_longest_unique [OF trans [OF d(1) [symmetric] d'(1)] d(2) d'(2) e d(4) d'(4)])
    then show ?thesis using Inr by simp
  qed
qed

definition demo_catalogue :: Catalogue where
  "demo_catalogue =
     [\<lparr>pd_Id = ''pick'', pd_MatchPrefix = ''PICK'', pd_RequiredCapabilities = [], pd_DestinationLocationRole = ''''\<rparr>,
      \<lparr>pd_Id = ''pick-hazmat'', pd_MatchPrefix = ''pick-hazmat'', pd_RequiredCapabilities = [''hazmat''],
       pd_DestinationLocationRole = ''''\<rparr>]"

theorem Lookup_verdict_witness:
  "Lookup id demo_catalogue ''Pick-Hazmat-7'' = Inr (demo_catalogue ! 1)
   \<and> Lookup id demo_catalogue ''picker'' = Inl (Sentinel ErrUnknownPath)"
proof
  let ?s = "''Pick-Hazmat-7''"
  have r: "recognizes id ?s (demo_catalogue ! 1)"
    unfolding recognizes_loop by code_simp
  have l: "length (lprefix id (demo_catalogue ! 0)) = 4" "length (lprefix id (demo_catalogue ! 1)) = 11"
    by code_simp+
  have c: "demo_catalogue = [demo_catalogue ! 0] @ demo_catalogue ! 1 # []" by (simp add: demo_catalogue_def)
  then have s: "set demo_catalogue = {demo_catalogue ! 0, demo_catalogue ! 1}"
    by (metis append_Cons append_Nil empty_set list.simps(15))
  show "Lookup id demo_catalogue ?s = Inr (demo_catalogue ! 1)"
    by (rule Lookup_verdict [THEN conjunct1, THEN iffD2], rule exI [of _ "[demo_catalogue ! 0]"], rule exI [of _ "[]"])
      (use c r in \<open>simp add: s l [unfolded One_nat_def]\<close>)
next
  show "Lookup id demo_catalogue ''picker'' = Inl (Sentinel ErrUnknownPath)"
    by (rule Lookup_verdict [THEN conjunct2, THEN iffD2], unfold recognizes_loop) code_simp
qed

end
