(* ===== verification/ShiftPlan.thy ===== *)
theory ShiftPlan
  imports Shared
begin

text \<open>
  \<open>internal/domain/shiftplan\<close>: the proposal of heads for a charge, and the \<open>ShiftPlan\<close>
  aggregate with the checks that guard a commit. \<open>plat\<close> is the platform's answer for a
  float-to-int conversion that is out of range.
\<close>

record PathPlan =
  pp_PathId :: PathId
  pp_PlannedHeads :: int
  pp_PlannedRate :: f64
  pp_PlannedHours :: f64

record ShiftPlan =
  sp_buildingId :: string
  sp_shiftId :: string
  sp_lines :: "PathPlan list"
  sp_events :: "DomainEvent list"

definition ProposedHeads :: "(f64 \<Rightarrow> int) \<Rightarrow> f64 \<Rightarrow> f64 \<Rightarrow> int" where
  "ProposedHeads plat charge plannedRate =
     (if fle plannedRate (Fin 0) then 0 else f64_to_int plat (fceil (fdiv charge plannedRate)))"

text \<open>One iteration of the loop over the lines: the first check that fails, if any.\<close>

definition check_line ::
  "(PathId \<rightharpoonup> int) \<Rightarrow> (PathId \<rightharpoonup> int) \<Rightarrow> f64 \<Rightarrow> PathPlan \<Rightarrow> err option" where
  "check_line installedStations installedCapacity mx line =
     (case installedStations (pp_PathId line) of
        None \<Rightarrow> Some (Sentinel ErrMissingInstalledStations)
      | Some installed \<Rightarrow>
          if pp_PlannedHeads line > installed then Some (Sentinel ErrPlannedHeadsExceedInstalled)
          else if pp_PlannedHeads line >
                 (case installedCapacity (pp_PathId line) of None \<Rightarrow> 0 | Some n \<Rightarrow> n)
          then Some (Sentinel ErrExceedsInstalledCapacity)
          else if flt (fmul (f64_of_int (pp_PlannedHeads line)) mx) (pp_PlannedHours line)
          then Some (Sentinel ErrPlannedHoursExceedCapacity)
          else None)"

fun check_lines ::
  "(PathId \<rightharpoonup> int) \<Rightarrow> (PathId \<rightharpoonup> int) \<Rightarrow> f64 \<Rightarrow> PathPlan list \<Rightarrow> err option" where
  "check_lines inst cap mx [] = None"
| "check_lines inst cap mx (l # ls) =
     (case check_line inst cap mx l of Some e \<Rightarrow> Some e | None \<Rightarrow> check_lines inst cap mx ls)"

definition sp_record :: "ShiftPlan \<Rightarrow> DomainEvent \<Rightarrow> ShiftPlan" where
  "sp_record s e = s\<lparr>sp_events := sp_events s @ [e]\<rparr>"

definition CommitShiftPlan ::
  "string \<Rightarrow> string \<Rightarrow> PathPlan list \<Rightarrow> (PathId \<rightharpoonup> int) \<Rightarrow> (PathId \<rightharpoonup> int) \<Rightarrow> f64 \<Rightarrow> time \<Rightarrow> err + ShiftPlan" where
  "CommitShiftPlan b sh lines installedStations installedCapacity mx now =
     (if lines = [] then Inl (Sentinel ErrNoPathPlans)
      else case check_lines installedStations installedCapacity mx lines of
        Some e \<Rightarrow> Inl e
      | None \<Rightarrow> Inr (sp_record \<lparr>sp_buildingId = b, sp_shiftId = sh, sp_lines = lines, sp_events = []\<rparr>
                   (ShiftPlanCommitted now b sh)))"

definition RehydratePlan :: "string \<Rightarrow> string \<Rightarrow> PathPlan list \<Rightarrow> ShiftPlan" where
  "RehydratePlan b sh lines = \<lparr>sp_buildingId = b, sp_shiftId = sh, sp_lines = lines, sp_events = []\<rparr>"

fun heads_for :: "PathPlan list \<Rightarrow> PathId \<Rightarrow> int" where
  "heads_for [] p = 0"
| "heads_for (l # ls) p = (if pp_PathId l = p then pp_PlannedHeads l else heads_for ls p)"

definition PlannedHeadsFor :: "ShiftPlan \<Rightarrow> PathId \<Rightarrow> int" where
  "PlannedHeadsFor s p = heads_for (sp_lines s) p"

definition sp_PullEvents :: "ShiftPlan \<Rightarrow> DomainEvent list \<times> ShiftPlan" where
  "sp_PullEvents s = (sp_events s, s\<lparr>sp_events := []\<rparr>)"

lemmas plan_defs [domain_simps] =
  sp_record_def CommitShiftPlan_def RehydratePlan_def PlannedHeadsFor_def sp_PullEvents_def

section \<open>The commit's checks\<close>

text \<open>What one line of a committed plan satisfies.\<close>

definition line_ok :: "(PathId \<rightharpoonup> int) \<Rightarrow> (PathId \<rightharpoonup> int) \<Rightarrow> f64 \<Rightarrow> PathPlan \<Rightarrow> bool" where
  "line_ok inst cap mx l \<longleftrightarrow>
     (\<exists>n. inst (pp_PathId l) = Some n \<and> pp_PlannedHeads l \<le> n)
     \<and> (case cap (pp_PathId l) of Some n \<Rightarrow> pp_PlannedHeads l \<le> n | None \<Rightarrow> pp_PlannedHeads l \<le> 0)
     \<and> \<not> flt (fmul (f64_of_int (pp_PlannedHeads l)) mx) (pp_PlannedHours l)"

lemma check_line_None: "check_line inst cap mx l = None \<longleftrightarrow> line_ok inst cap mx l"
  by (auto simp: check_line_def line_ok_def split: option.splits)

lemma check_lines_None: "check_lines inst cap mx ls = None \<longleftrightarrow> (\<forall>l \<in> set ls. line_ok inst cap mx l)"
  by (induction ls) (auto simp flip: check_line_None split: option.splits)

lemma check_lines_append:
  "check_lines inst cap mx (xs @ ys) =
     (case check_lines inst cap mx xs of Some e \<Rightarrow> Some e | None \<Rightarrow> check_lines inst cap mx ys)"
  by (induction xs) (auto split: option.splits)

lemma check_lines_first:
  assumes "\<forall>x \<in> set xs. line_ok inst cap mx x" "check_line inst cap mx l = Some e"
  shows "check_lines inst cap mx (xs @ l # ys) = Some e"
  using assms check_lines_None [of inst cap mx xs] by (simp add: check_lines_append)

lemma CommitShiftPlan_Inr:
  "CommitShiftPlan b sh ls inst cap mx now = Inr sp \<longleftrightarrow>
     ls \<noteq> [] \<and> (\<forall>l \<in> set ls. line_ok inst cap mx l)
     \<and> sp = \<lparr>sp_buildingId = b, sp_shiftId = sh, sp_lines = ls, sp_events = [ShiftPlanCommitted now b sh]\<rparr>"
  by (auto simp: domain_simps check_lines_None [symmetric] split: option.splits)

lemma heads_for_absent: "p \<notin> pp_PathId ` set ls \<Longrightarrow> heads_for ls p = 0"
  by (induction ls) auto

lemma heads_for_mem:
  "distinct (map pp_PathId ls) \<Longrightarrow> l \<in> set ls \<Longrightarrow> heads_for ls (pp_PathId l) = pp_PlannedHeads l"
  by (induction ls) force+

section \<open>The proposal\<close>

lemma f64_to_int_in_range:
  "0 \<le> q \<Longrightarrow> \<lceil>q\<rceil> < 2 ^ 63 \<Longrightarrow> f64_to_int plat (fceil (Fin q)) = \<lceil>q\<rceil>"
proof -
  assume q: "0 \<le> q" and b: "\<lceil>q\<rceil> < 2 ^ 63"
  have c: "0 \<le> \<lceil>q\<rceil>" using q by (simp add: less_le_trans [of "- 1" 0])
  then have "(0::rat) \<le> of_int \<lceil>q\<rceil>" by (simp only: of_int_0_le_iff)
  then show ?thesis using b c by (simp add: Let_def)
qed

lemma ProposedHeads_eq:
  assumes "0 < r" "0 \<le> c" "rnd (c / r) \<le> of_int (2 ^ 53)"
  shows "ProposedHeads plat (Fin c) (Fin r) = \<lceil>rnd (c / r)\<rceil>"
proof -
  have n: "0 \<le> rnd (c / r)" using assms by (intro rnd_nonneg) simp
  then have "\<bar>rnd (c / r)\<bar> \<le> of_int (2 ^ 53)" using assms(3) by simp
  then have f: "flround (c / r) = Fin (rnd (c / r))" by (rule flround_small)
  have "\<lceil>rnd (c / r)\<rceil> \<le> 2 ^ 53" using assms(3) by (metis ceiling_le_iff)
  then have "\<lceil>rnd (c / r)\<rceil> < 2 ^ 63" by simp
  then show ?thesis using f64_to_int_in_range [OF n, of plat] assms(1) f by (simp add: ProposedHeads_def)
qed

text \<open>
  A greater \<open>plannedRate\<close> never proposes more heads for the same charge. Fed with a mean of
  seconds per task, as \<open>ProposePathPlan\<close> does with a measured rate, slower work gets fewer heads.
\<close>

theorem ProposedHeads_rate_antimono:
  assumes "0 < r" "r \<le> r'" "0 \<le> c" "c / r \<le> of_int (2 ^ 53)"
  shows "ProposedHeads plat (Fin c) (Fin r') \<le> ProposedHeads plat (Fin c) (Fin r)"
proof -
  have le: "c / r' \<le> c / r" using assms by (intro divide_left_mono) auto
  have b: "rnd (c / r) \<le> of_int (2 ^ 53)" using assms(4) by (intro rnd_le_small) auto
  have m: "rnd (c / r') \<le> rnd (c / r)" using le by (rule rnd_mono)
  then have "rnd (c / r') \<le> of_int (2 ^ 53)" using b by linarith
  then show ?thesis
    using ProposedHeads_eq [of r' c plat] ProposedHeads_eq [of r c plat] assms b m
    by (simp add: ceiling_mono)
qed

lemma ProposedHeads_charge_mono:
  assumes "0 < r" "0 \<le> c" "c \<le> c'" "c' / r \<le> of_int (2 ^ 53)"
  shows "ProposedHeads plat (Fin c) (Fin r) \<le> ProposedHeads plat (Fin c') (Fin r)"
proof -
  have le: "c / r \<le> c' / r" using assms by (intro divide_right_mono) auto
  have b: "rnd (c' / r) \<le> of_int (2 ^ 53)" using assms(4) by (intro rnd_le_small) auto
  have m: "rnd (c / r) \<le> rnd (c' / r)" using le by (rule rnd_mono)
  then have "rnd (c / r) \<le> of_int (2 ^ 53)" using b by linarith
  then show ?thesis
    using ProposedHeads_eq [of r c plat] ProposedHeads_eq [of r c' plat] assms b m
    by (simp add: ceiling_mono)
qed

text \<open>
  On whole charges and rates up to \<open>2 ^ 26\<close> the floating-point quotient is close enough that
  the proposal is the exact ceiling of the division.
\<close>

lemma rat_of_int_le_pow: "n \<le> 2 ^ k \<Longrightarrow> (of_int n :: rat) \<le> 2 ^ k"
  by (metis of_int_le_iff of_int_numeral of_int_power)

lemma rnd_quotient_gt:
  assumes "0 < c" "c \<le> 2 ^ 26" "0 < r" "r \<le> 2 ^ 26"
  shows "of_int (\<lceil>of_int c / (of_int r :: rat)\<rceil> - 1) < rnd (of_int c / of_int r)"
proof -
  let ?x = "of_int c / (of_int r :: rat)"
  let ?k = "\<lceil>?x\<rceil>"
  let ?j = "(?k - 1) * 2 ^ 26 + 1"
  have x0: "0 < ?x" using assms by simp
  have c27: "(of_int c :: rat) < 2 powi 27" using assms(2) by (intro powi2_gt_of_int) auto
  have r1: "(1::rat) \<le> of_int r" using assms(3) by simp
  have "of_int c * 1 \<le> of_int c * (of_int r :: rat)" using r1 assms(1) by (intro mult_left_mono) auto
  then have "?x \<le> of_int c" using r1 by (simp add: divide_le_eq)
  also note c27
  finally have "(2::rat) powi fexp ?x < 2 powi 27" using fexp_bounds(1) [OF x0] by linarith
  then have "fexp ?x < 27" by (rule powi2_less_cancel)
  then have u: "uexp ?x \<le> - 26" unfolding uexp_def abs_of_pos [OF x0] by linarith
  have "of_int (?k - 1) < ?x" using ceiling_correct [of ?x] by simp
  then have "of_int ((?k - 1) * r) < (of_int c :: rat)" using assms(3) by (simp add: less_divide_eq)
  then have "(?k - 1) * r + 1 \<le> c" by linarith
  then have "of_int ((?k - 1) * r + 1) \<le> (of_int c :: rat)" by linarith
  then have "of_int ((?k - 1) * r + 1) / of_int r \<le> ?x"
    using assms(3) by (intro divide_right_mono) auto
  moreover have "of_int ((?k - 1) * r + 1) / of_int r = of_int (?k - 1) + (1 / of_int r :: rat)"
    using assms(3) by (simp add: add_divide_distrib)
  ultimately have "of_int (?k - 1) + 1 / of_int r \<le> ?x" by simp
  moreover have "1 / 2 ^ 26 \<le> (1 / of_int r :: rat)"
    using assms(3,4) rat_of_int_le_pow [of r 26] by (intro divide_left_mono) auto
  moreover have e: "of_int ?j * 2 powi (- 26) = of_int (?k - 1) + (1 / 2 ^ 26 :: rat)"
    by (simp add: power_int_def field_simps)
  ultimately have "of_int ?j * 2 powi (- 26) \<le> ?x" by linarith
  then have "of_int ?j * 2 powi (- 26) \<le> rnd ?x" using x0 u by (intro rnd_ge_grid) auto
  moreover have "(0::rat) < 1 / 2 ^ 26" by simp
  ultimately show ?thesis unfolding e by linarith
qed

lemma ceil_div_neg:
  assumes "0 < (r::int)"
  shows "- (- c div r) = (c + r - 1) div r"
proof -
  define q where "q = - (- c div r)"
  have "- c = - q * r + (- c mod r)" unfolding q_def by (simp add: div_mult_mod_eq)
  then have "c + r - 1 = r * q + (r - 1 - (- c mod r))" by (simp add: algebra_simps)
  moreover have "0 \<le> r - 1 - (- c mod r)" "r - 1 - (- c mod r) < r"
    using pos_mod_bound [OF assms, of "- c"] pos_mod_sign [OF assms, of "- c"] by linarith+
  ultimately have "(c + r - 1) div r = q" by (rule int_div_pos_eq)
  then show ?thesis by (simp add: q_def)
qed

text \<open>
  C22: for whole charges and rates up to \<open>2 ^ 26\<close>, \<open>ProposedHeads\<close> is the exact ceiling of charge
  over rate, on every platform: the rounding of the floating-point division never costs or
  adds a head.
\<close>

theorem ProposedHeads_exact:
  assumes "0 \<le> c" "c \<le> 2 ^ 26" "0 < r" "r \<le> 2 ^ 26"
  shows "ProposedHeads plat (Fin (of_int c)) (Fin (of_int r)) = (c + r - 1) div r"
proof -
  let ?x = "of_int c / (of_int r :: rat)"
  have "of_int c * 1 \<le> (2 ^ 26 * of_int r :: rat)"
    using assms rat_of_int_le_pow [of c 26] by (intro mult_mono) auto
  then have "?x \<le> of_int (2 ^ 26)" using assms by (simp add: divide_le_eq)
  then have k: "\<lceil>?x\<rceil> \<le> 2 ^ 26" by (simp add: ceiling_le_iff)
  have k0: "0 \<le> ?x" "0 \<le> \<lceil>?x\<rceil>" using assms by (auto simp: less_le_trans [of "- 1" 0])
  have up: "rnd ?x \<le> of_int \<lceil>?x\<rceil>" using k k0 by (intro rnd_le_small) auto
  have "\<lceil>rnd ?x\<rceil> = \<lceil>?x\<rceil>"
  proof (cases "c = 0")
    case False
    then show ?thesis using up rnd_quotient_gt [of c r] assms by (intro ceiling_unique) auto
  qed simp
  moreover have "rnd ?x \<le> of_int (2 ^ 53)"
    using order_trans [OF up rat_of_int_le_pow [OF k]] by simp
  ultimately have "ProposedHeads plat (Fin (of_int c)) (Fin (of_int r)) = \<lceil>?x\<rceil>"
    using ProposedHeads_eq [of "of_int r" "of_int c" plat] assms by simp
  also have "\<dots> = (c + r - 1) div r"
  proof -
    have "\<lceil>?x\<rceil> = - (- c div r)" by (simp add: ceiling_divide_eq_div)
    also have "- c div r = (- c + 0 * r) div r" by simp
    also have "- \<dots> = (c + r - 1) div r"
      using ceil_div_neg [OF assms(3), of c] by simp
    finally show ?thesis .
  qed
  finally show ?thesis .
qed

theorem ProposedHeads_exact_witness:
  "ProposedHeads (\<lambda>_. 0) (Fin (of_int 100)) (Fin (of_int 30)) = (100 + 30 - 1) div 30"
  using ProposedHeads_exact [of 100 30 "\<lambda>_. 0"] by simp

section \<open>The verdict on a plan\<close>

lemma check_lines_find:
  "check_lines inst cap mx ls =
     (case find (\<lambda>l. \<not> line_ok inst cap mx l) ls of None \<Rightarrow> None | Some l \<Rightarrow> check_line inst cap mx l)"
  by (induction ls) (auto simp flip: check_line_None split: option.splits)

text \<open>
  C20: \<open>CommitShiftPlan\<close> accepts a plan exactly when it has a line and every line names an
  installed station count, asks for no more heads than it and than the installed capacity, and
  plans no more hours than its heads can work; otherwise it fails with the error of the first
  offending line, the checks in that order.
\<close>

theorem commit_verdict:
  "CommitShiftPlan b sh ls inst cap mx now =
     (if ls = [] then Inl (Sentinel ErrNoPathPlans)
      else case find (\<lambda>l. \<not> line_ok inst cap mx l) ls of
          None \<Rightarrow> Inr \<lparr>sp_buildingId = b, sp_shiftId = sh, sp_lines = ls, sp_events = [ShiftPlanCommitted now b sh]\<rparr>
        | Some l \<Rightarrow> Inl (Sentinel
            (if inst (pp_PathId l) = None then ErrMissingInstalledStations
             else if the (inst (pp_PathId l)) < pp_PlannedHeads l then ErrPlannedHeadsExceedInstalled
             else if (case cap (pp_PathId l) of None \<Rightarrow> 0 | Some n \<Rightarrow> n) < pp_PlannedHeads l
             then ErrExceedsInstalledCapacity else ErrPlannedHoursExceedCapacity)))"
proof (cases "find (\<lambda>l. \<not> line_ok inst cap mx l) ls")
  case None
  then show ?thesis by (simp add: CommitShiftPlan_def check_lines_find sp_record_def)
next
  case (Some l)
  then have "check_line inst cap mx l \<noteq> None" using find_Some_mem check_line_None by metis
  then show ?thesis using Some
    by (auto simp: CommitShiftPlan_def check_lines_find check_line_def split: option.splits if_splits)
qed

end
