(* ===== verification/Ports.thy ===== *)
theory Ports
  imports Associate Assignment PathCatalog ShiftPlan "HOL-Library.AList" "HOL-Library.Multiset"
begin

text \<open>
  \<open>internal/application/ports\<close>: the outbound interfaces the use cases are written against, as
  one record of operations over a state \<open>'s\<close>, and the contract of each interface as a
  locale. The contracts speak of an abstract view of the stored aggregates; the in-memory and
  the Postgres adapters both interpret them.
\<close>

record 's ports =
  FindByID :: "AssociateId \<Rightarrow> ('s, AssociateShift) op"
  SaveAssociate :: "AssociateShift \<Rightarrow> ('s, unit) op"
  FindByAssociateID :: "AssociateId \<Rightarrow> ('s, LaborAssignment) op"
  SaveAssignment :: "LaborAssignment \<Rightarrow> ('s, unit) op"
  CountActiveByPath :: "PathId \<Rightarrow> ('s, int) op"
  SaveShiftPlan :: "ShiftPlan \<Rightarrow> ('s, unit) op"
  FindByBuildingAndShift :: "string \<Rightarrow> string \<Rightarrow> ('s, ShiftPlan) op"
  Publish :: "DomainEvent list \<Rightarrow> ('s, unit) op"
  Now :: "'s \<Rightarrow> time \<times> 's"
  UnitOfWork :: "(('s, unit) op \<Rightarrow> ('s, unit) op) option"

definition onow :: "'s ports \<Rightarrow> ('s, time) op" where
  "onow P = (\<lambda>s. case Now P s of (t, s') \<Rightarrow> (Inr t, s'))"

section \<open>Go maps as association lists\<close>

text \<open>A Go map whose range the code iterates over: distinct keys, looked up with \<open>map_of\<close>.\<close>

type_synonym ('k, 'v) gmap = "('k \<times> 'v) list"

definition gwf :: "('k, 'v) gmap \<Rightarrow> bool" where
  "gwf m \<longleftrightarrow> distinct (map fst m)"

definition gput :: "'k \<Rightarrow> 'v \<Rightarrow> ('k, 'v) gmap \<Rightarrow> ('k, 'v) gmap" where
  "gput k v m = AList.update k v m"

definition gdelete :: "'k \<Rightarrow> ('k, 'v) gmap \<Rightarrow> ('k, 'v) gmap" where
  "gdelete k m = AList.delete k m"

lemma map_of_gput [simp]: "map_of (gput k v m) = (map_of m)(k \<mapsto> v)"
  by (simp add: gput_def update_conv')

lemma map_of_gdelete [simp]: "map_of (gdelete k m) = (map_of m)(k := None)"
  by (simp add: gdelete_def delete_conv')

lemma gwf_gput [simp]: "gwf m \<Longrightarrow> gwf (gput k v m)"
  by (simp add: gwf_def gput_def distinct_update)

lemma gwf_gdelete [simp]: "gwf m \<Longrightarrow> gwf (gdelete k m)"
  by (simp add: gwf_def gdelete_def distinct_delete)

lemma gwf_Nil [simp]: "gwf []"
  by (simp add: gwf_def)

lemma gwf_count:
  assumes "gwf m"
  shows "length (filter (\<lambda>(k, v). Q v) m) = card {k. \<exists>v. map_of m k = Some v \<and> Q v}"
proof -
  let ?f = "filter (\<lambda>(k, v). Q v) m"
  have d: "distinct (map fst ?f)" using assms by (simp add: gwf_def distinct_map_filter)
  have "fst ` set ?f = {k. \<exists>v. map_of m k = Some v \<and> Q v}"
    using assms by (force simp: gwf_def dest: map_of_SomeD intro: map_of_is_SomeI)
  then show ?thesis using distinct_card [OF d] by simp
qed

section \<open>The abstract view of the stored state\<close>

record wf_view =
  v_assoc :: "AssociateId \<rightharpoonup> AssociateShift"
  v_asg :: "AssociateId \<rightharpoonup> LaborAssignment"
  v_plan :: "string \<times> string \<rightharpoonup> ShiftPlan"

definition active_on :: "PathId \<Rightarrow> LaborAssignment \<Rightarrow> bool" where
  "active_on p l \<longleftrightarrow> (\<exists>iv. la_active l = Some iv \<and> iv_PathId iv = p)"

definition stored_assoc :: "AssociateShift \<Rightarrow> AssociateShift \<Rightarrow> bool" where
  "stored_assoc a b \<longleftrightarrow> (\<exists>v. b = a\<lparr>as_version := v, as_events := []\<rparr>)"

text \<open>
  A store may keep times to the microsecond (Postgres' \<open>timestamptz\<close> does), so a stored time is
  the saved one or less than a microsecond before it.
\<close>

definition near :: "time \<Rightarrow> time \<Rightarrow> bool" where
  "near t u \<longleftrightarrow> u \<le> t \<and> t < u + 1000"

definition same_start :: "Interval \<Rightarrow> Interval \<Rightarrow> bool" where
  "same_start a b \<longleftrightarrow> iv_PathId b = iv_PathId a \<and> near (iv_Start a) (iv_Start b)"

definition same_interval :: "Interval \<Rightarrow> Interval \<Rightarrow> bool" where
  "same_interval a b \<longleftrightarrow> same_start a b \<and> rel_option near (iv_End a) (iv_End b)"

definition stored_asg :: "LaborAssignment \<Rightarrow> LaborAssignment \<Rightarrow> bool" where
  "stored_asg l m \<longleftrightarrow> la_associateId m = la_associateId l \<and> la_events m = []
     \<and> rel_option same_start (la_active l) (la_active m)
     \<and> list_all2 same_interval (la_history l) (la_history m)"

text \<open>The lines of a stored plan are those saved, in an order the store may choose.\<close>

definition stored_plan :: "ShiftPlan \<Rightarrow> ShiftPlan \<Rightarrow> bool" where
  "stored_plan p q \<longleftrightarrow> sp_buildingId q = sp_buildingId p \<and> sp_shiftId q = sp_shiftId p
     \<and> mset (sp_lines q) = mset (sp_lines p) \<and> sp_events q = []"

lemma near_refl [simp]: "near t t"
  by (simp add: near_def)

lemma same_refl [simp]: "same_start a a" "same_interval a a"
  by (simp_all add: same_start_def same_interval_def option.rel_refl)

lemma stored_asg_refl: "stored_asg l (l\<lparr>la_version := v, la_events := []\<rparr>)"
  by (simp add: stored_asg_def option.rel_refl list.rel_refl)

section \<open>Contracts\<close>

text \<open>
  What every port keeps: the invariant of the store, and the view where it only reads. A
  repository that answers \<open>ErrNotFound\<close> has no such aggregate, one that answers an aggregate
  holds it, and a successful save is seen by every later read.
\<close>

locale associate_repo =
  fixes view :: "'s \<Rightarrow> wf_view" and inv :: "'s \<Rightarrow> bool"
    and find_a :: "AssociateId \<Rightarrow> ('s, AssociateShift) op"
    and save_a :: "AssociateShift \<Rightarrow> ('s, unit) op"
  assumes find_a_frame: "find_a i s = (r, s') \<Longrightarrow> inv s \<Longrightarrow> view s' = view s \<and> inv s'"
    and find_a_Inr: "find_a i s = (Inr a, s') \<Longrightarrow> inv s \<Longrightarrow>
      v_assoc (view s) i = Some a \<and> as_associateId a = i \<and> as_events a = []"
    and find_a_Inl: "find_a i s = (Inl e, s') \<Longrightarrow> inv s \<Longrightarrow> errors_is e ErrNotFound \<Longrightarrow>
      v_assoc (view s) i = None"
    and save_a_inv: "save_a a s = (u, s') \<Longrightarrow> inv s \<Longrightarrow> inv s'"
    and save_a_Inr: "save_a a s = (Inr (), s') \<Longrightarrow> inv s \<Longrightarrow>
      (\<exists>b. stored_assoc a b \<and>
        view s' = (view s)\<lparr>v_assoc := (v_assoc (view s))(as_associateId a \<mapsto> b)\<rparr>)"

locale assignment_repo =
  fixes view :: "'s \<Rightarrow> wf_view" and inv :: "'s \<Rightarrow> bool"
    and find_l :: "AssociateId \<Rightarrow> ('s, LaborAssignment) op"
    and save_l :: "LaborAssignment \<Rightarrow> ('s, unit) op"
    and count_l :: "PathId \<Rightarrow> ('s, int) op"
  assumes find_l_frame: "find_l i s = (r, s') \<Longrightarrow> inv s \<Longrightarrow> view s' = view s \<and> inv s'"
    and find_l_Inr: "find_l i s = (Inr l, s') \<Longrightarrow> inv s \<Longrightarrow>
      v_asg (view s) i = Some l \<and> la_associateId l = i \<and> la_events l = []"
    and find_l_Inl: "find_l i s = (Inl e, s') \<Longrightarrow> inv s \<Longrightarrow> errors_is e ErrNotFound \<Longrightarrow>
      v_asg (view s) i = None"
    and save_l_inv: "save_l l s = (u, s') \<Longrightarrow> inv s \<Longrightarrow> inv s'"
    and save_l_Inr: "save_l l s = (Inr (), s') \<Longrightarrow> inv s \<Longrightarrow>
      (\<exists>m. stored_asg l m \<and>
        view s' = (view s)\<lparr>v_asg := (v_asg (view s))(la_associateId l \<mapsto> m)\<rparr>)"
    and count_l_frame: "count_l p s = (c, s') \<Longrightarrow> inv s \<Longrightarrow> view s' = view s \<and> inv s'"
    and count_l_Inr: "count_l p s = (Inr n, s') \<Longrightarrow> inv s \<Longrightarrow>
      n = int (card {i. \<exists>l. v_asg (view s) i = Some l \<and> active_on p l})"

locale shift_plan_repo =
  fixes view :: "'s \<Rightarrow> wf_view" and inv :: "'s \<Rightarrow> bool"
    and find_p :: "string \<Rightarrow> string \<Rightarrow> ('s, ShiftPlan) op"
    and save_p :: "ShiftPlan \<Rightarrow> ('s, unit) op"
  assumes find_p_frame: "find_p b sh s = (r, s') \<Longrightarrow> inv s \<Longrightarrow> view s' = view s \<and> inv s'"
    and find_p_Inr: "find_p b sh s = (Inr sp, s') \<Longrightarrow> inv s \<Longrightarrow>
      v_plan (view s) (b, sh) = Some sp \<and> sp_buildingId sp = b \<and> sp_shiftId sp = sh \<and> sp_events sp = []"
    and find_p_Inl: "find_p b sh s = (Inl e, s') \<Longrightarrow> inv s \<Longrightarrow> errors_is e ErrNotFound \<Longrightarrow>
      v_plan (view s) (b, sh) = None"
    and save_p_inv: "save_p sp s = (u, s') \<Longrightarrow> inv s \<Longrightarrow> inv s'"
    and save_p_Inr: "save_p sp s = (Inr (), s') \<Longrightarrow> inv s \<Longrightarrow>
      (\<exists>q. stored_plan sp q \<and> view s' = (view s)\<lparr>v_plan :=
        (v_plan (view s))((sp_buildingId sp, sp_shiftId sp) \<mapsto> q)\<rparr>)"

locale event_publisher =
  fixes view :: "'s \<Rightarrow> wf_view" and inv :: "'s \<Rightarrow> bool"
    and publish :: "DomainEvent list \<Rightarrow> ('s, unit) op"
  assumes publish_frame: "publish es s = (u, s') \<Longrightarrow> inv s \<Longrightarrow> inv s'"
    and publish_Inr: "publish es s = (Inr (), s') \<Longrightarrow> inv s \<Longrightarrow> view s' = view s"

locale clock_port =
  fixes view :: "'s \<Rightarrow> wf_view" and inv :: "'s \<Rightarrow> bool"
    and now :: "'s \<Rightarrow> time \<times> 's"
  assumes now_frame: "now s = (t, s') \<Longrightarrow> inv s \<Longrightarrow> view s' = view s \<and> inv s'"

text \<open>
  A unit of work, outside any other: on success its body ran to success and its effects are
  the ones seen; on failure nothing is. \<open>inner\<close> are the bodies it may be given: those built
  from the ports' own operations. \<open>inv\<close> holds between requests, \<open>body_inv\<close> inside the scope.
\<close>

locale unit_of_work =
  fixes view :: "'s \<Rightarrow> wf_view" and inv :: "'s \<Rightarrow> bool" and body_inv :: "'s \<Rightarrow> bool"
    and inner :: "('s, unit) op \<Rightarrow> bool"
    and uow :: "('s, unit) op \<Rightarrow> ('s, unit) op"
  assumes uow_inv: "uow f s = (u, s') \<Longrightarrow> inv s \<Longrightarrow> inner f \<Longrightarrow> inv s'"
    and uow_commit: "uow f s = (Inr (), s') \<Longrightarrow> inv s \<Longrightarrow> inner f \<Longrightarrow>
      (\<exists>s0 s1. view s0 = view s \<and> body_inv s0 \<and> f s0 = (Inr (), s1) \<and> view s' = view s1)"
    and uow_rollback: "uow f s = (Inl e, s') \<Longrightarrow> inv s \<Longrightarrow> inner f \<Longrightarrow> view s' = view s"

text \<open>
  The enrichment sources: whatever goes wrong, they answer with the one sentinel that tells
  the caller to go on without them.
\<close>

locale soft_source =
  fixes ask :: "PathId \<Rightarrow> ('s, f64) op" and unavailable :: sentinel
  assumes ask_Inl: "ask p s = (Inl e, s') \<Longrightarrow> errors_is e unavailable"

text \<open>
  The capacity source answers with its sentinel on any failure, and the commit it gates fails.
\<close>

locale capacity_source =
  fixes ask :: "Capability \<Rightarrow> ('s, int) op"
  assumes ask_Inl: "ask c s = (Inl e, s') \<Longrightarrow> errors_is e ErrInstalledCapacityUnavailable"

end
