(* ===== verification/Encode.thy ===== *)
theory Encode
  imports Ports
begin

text \<open>
  \<open>adapters/kafka/cloudevents\<close> and the encoders of \<open>adapters/outbound/kafka\<close>: how domain events
  become Kafka messages. JSON is kept as a tree. The CloudEvents SDK (its validation and its
  structured-mode codec) is the parameter \<open>sdk\<close>; the OpenTelemetry propagator is the list of
  header pairs it sets; the id minter is a step on the state.
\<close>

section \<open>JSON and CloudEvents\<close>

datatype json =
    JNull | JBool bool | JInt int | JNum f64 | JStr string | JArr "json list" | JObj "(string \<times> json) list"

text \<open>\<open>json.Marshal\<close> refuses a NaN or infinite float anywhere.\<close>

fun marshalable :: "json \<Rightarrow> bool" where
  "marshalable (JNum x) \<longleftrightarrow> (\<exists>q. x = Fin q)"
| "marshalable (JArr xs) \<longleftrightarrow> list_all marshalable xs"
| "marshalable (JObj kvs) \<longleftrightarrow> list_all (\<lambda>kv. marshalable (snd kv)) kvs"
| "marshalable _ \<longleftrightarrow> True"

lemma marshalable_JNum [code]: "marshalable (JNum x) = (case x of Fin _ \<Rightarrow> True | _ \<Rightarrow> False)"
  by (auto split: f64.splits)

record ce_event =
  ce_specversion :: string
  ce_id :: string
  ce_source :: string
  ce_type :: string
  ce_subject :: string
  ce_time :: time
  ce_dataschema :: string
  ce_datacontenttype :: string
  ce_data :: json

record sdk =
  sdk_validate :: "ce_event \<Rightarrow> err option"
  sdk_marshal :: "ce_event \<Rightarrow> err + string"
  sdk_unmarshal :: "string \<Rightarrow> err + ce_event"

definition ce_Type :: "string \<Rightarrow> string \<Rightarrow> string" where
  "ce_Type entity eventName = ''com.warehouse.wes.workforce-management.'' @ entity @ ''.'' @ eventName"

text \<open>The version printed with \<open>%d\<close>.\<close>

fun digits :: "nat \<Rightarrow> string" where
  "digits n = (if n < 10 then [char_of (48 + n)] else digits (n div 10) @ [char_of (48 + n mod 10)])"

declare digits.simps [simp del]

definition print_int :: "int \<Rightarrow> string" where
  "print_int n = (if n < 0 then ''-'' @ digits (nat (- n)) else digits (nat n))"

definition ce_DataSchema :: "string \<Rightarrow> string \<Rightarrow> int \<Rightarrow> string" where
  "ce_DataSchema stream eventName version =
     ''urn:warehouse:workforce-management:'' @ stream @ '':'' @ eventName @ '':v'' @ print_int version"

record ce_Spec =
  spec_ID :: string
  spec_Entity :: string
  spec_EventName :: string
  spec_Subject :: string
  spec_Time :: time
  spec_Stream :: string
  spec_Version :: int
  spec_Data :: json

definition ce_New :: "sdk \<Rightarrow> ce_Spec \<Rightarrow> err + string" where
  "ce_New k s =
     (if spec_Subject s = '''' then Inl (Other (''cloudevents: '' @ spec_EventName s @ '': empty subject''))
      else let version = (if spec_Version s < 1 then 1 else spec_Version s);
        e = \<lparr>ce_specversion = ''1.0'', ce_id = spec_ID s, ce_source = ''/warehouse/workforce-management'',
             ce_type = ce_Type (spec_Entity s) (spec_EventName s), ce_subject = spec_Subject s,
             ce_time = spec_Time s, ce_dataschema = ce_DataSchema (spec_Stream s) (spec_EventName s) version,
             ce_datacontenttype = ''application/json'', ce_data = spec_Data s\<rparr>
        in if \<not> marshalable (spec_Data s) then Inl (Wrap ''cloudevents: set data'' (Other ''unsupported value''))
           else case sdk_validate k e of
               Some err \<Rightarrow> Inl (Wrap ''cloudevents: invalid event'' err)
             | None \<Rightarrow> sdk_marshal k e)"

text \<open>\<open>Decode\<close>: the three ways in which a message is not a CloudEvent.\<close>

definition ce_Decode :: "sdk \<Rightarrow> string \<Rightarrow> err + ce_event" where
  "ce_Decode k value =
     (case sdk_unmarshal k value of
        Inl _ \<Rightarrow> Inl (Wrap ''decode'' (Sentinel ErrNotCloudEvent))
      | Inr e \<Rightarrow>
          if ce_specversion e \<noteq> ''1.0'' then Inl (Wrap ''specversion'' (Sentinel ErrNotCloudEvent))
          else case sdk_validate k e of
              Some _ \<Rightarrow> Inl (Wrap ''validate'' (Sentinel ErrNotCloudEvent))
            | None \<Rightarrow> Inr e)"

section \<open>Headers and messages\<close>

type_synonym headers = "(string \<times> string) list"

definition ContentTypeHeader :: "string \<times> string" where
  "ContentTypeHeader = (''content-type'', ''application/cloudevents+json; charset=UTF-8'')"

fun carrier_Get :: "headers \<Rightarrow> string \<Rightarrow> string" where
  "carrier_Get [] key = ''''"
| "carrier_Get ((k, v) # hs) key = (if k = key then v else carrier_Get hs key)"

definition carrier_Set :: "headers \<Rightarrow> string \<Rightarrow> string \<Rightarrow> headers" where
  "carrier_Set hs key value = filter (\<lambda>(k, _). k \<noteq> key) hs @ [(key, value)]"

definition carrier_Keys :: "headers \<Rightarrow> string list" where
  "carrier_Keys hs = map fst hs"

text \<open>What the propagator does: one \<open>Set\<close> per pair of the current span's context.\<close>

definition inject :: "(string \<times> string) list \<Rightarrow> headers \<Rightarrow> headers" where
  "inject trace hs = fold (\<lambda>(k, v) hs. carrier_Set hs k v) trace hs"

record Encoded =
  en_Topic :: string
  en_EventType :: string
  en_Key :: string
  en_Value :: string
  en_Headers :: headers

text \<open>A kafka-go message: an empty topic leaves it to the writer.\<close>

record Message =
  ms_Topic :: string
  ms_Key :: string
  ms_Value :: string
  ms_Headers :: headers

definition message :: "Encoded \<Rightarrow> bool \<Rightarrow> Message" where
  "message e withTopic =
     \<lparr>ms_Topic = (if withTopic then en_Topic e else ''''), ms_Key = en_Key e,
      ms_Value = en_Value e, ms_Headers = en_Headers e\<rparr>"

lemma carrier_Get_append_notin:
  "key \<notin> set (carrier_Keys hs) \<Longrightarrow> carrier_Get (hs @ hs') key = carrier_Get hs' key"
  by (induction hs) (auto simp: carrier_Keys_def)

lemma carrier_Get_filter: "k \<noteq> key \<Longrightarrow> carrier_Get (filter (\<lambda>(j, _). j \<noteq> key) hs @ [(key, v)]) k = carrier_Get hs k"
  by (induction hs) auto

lemma carrier_Set_Keys: "carrier_Keys (carrier_Set hs key v) = filter (\<lambda>k. k \<noteq> key) (carrier_Keys hs) @ [key]"
  by (induction hs) (auto simp: carrier_Set_def carrier_Keys_def)

lemma carrier_Get_Set: "carrier_Get (carrier_Set hs key v) k = (if k = key then v else carrier_Get hs k)"
  by (induction hs) (auto simp: carrier_Set_def split: if_splits)

lemma carrier_Set_idem: "carrier_Set (carrier_Set hs key v) key w = carrier_Set hs key w"
  by (simp add: carrier_Set_def case_prod_unfold)

section \<open>The Kafka writers\<close>

text \<open>
  The fields the code sets of a kafka-go writer; \<open>wc_Hash\<close>: the balancer is \<open>Hash\<close>, so that a key keeps its
  partition. The writers themselves are parameters.
\<close>

datatype required_acks = RequireNone | RequireOne | RequireAll

record writer_config =
  wc_Addr :: "string list"
  wc_Topic :: string
  wc_Hash :: bool
  wc_AllowAutoTopicCreation :: bool
  wc_BatchTimeout :: duration
  wc_RequiredAcks :: required_acks

definition syncWriterBatchTimeout :: duration where "syncWriterBatchTimeout = 10000000"
definition syncWriterRequiredAcks :: required_acks where "syncWriterRequiredAcks = RequireAll"

section \<open>The integration publisher\<close>

definition shiftPlanKey :: "string \<Rightarrow> string \<Rightarrow> string" where
  "shiftPlanKey b sh = b @ ''/'' @ sh"

definition Topic :: string where "Topic = ''warehouse.workforce.events''"
definition AnalyticsTopic :: string where "AnalyticsTopic = ''warehouse.workforce.analytics''"

type_synonym 's mint = "'s \<Rightarrow> string \<times> 's"

definition omint :: "'s mint \<Rightarrow> ('s, string) op" where
  "omint newID = (\<lambda>s. case newID s of (i, s') \<Rightarrow> (Inr i, s'))"

definition shiftPlanCommittedData :: "string \<Rightarrow> string \<Rightarrow> PathPlan \<Rightarrow> json" where
  "shiftPlanCommittedData b sh line =
     JObj [(''building_id'', JStr b), (''shift_id'', JStr sh), (''path_id'', JStr (pp_PathId line)),
           (''planned_heads'', JInt (pp_PlannedHeads line)), (''planned_rate'', JNum (pp_PlannedRate line)),
           (''planned_hours'', JNum (pp_PlannedHours line))]"

fun encode_lines ::
  "sdk \<Rightarrow> 's mint \<Rightarrow> (string \<times> string) list \<Rightarrow> time \<Rightarrow> string \<Rightarrow> string \<Rightarrow> PathPlan list \<Rightarrow> ('s, Encoded list) op" where
  "encode_lines k newID trace t b sh [] = oret []"
| "encode_lines k newID trace t b sh (line # lines) =
     obind (omint newID) (\<lambda>i.
     case ce_New k \<lparr>spec_ID = i, spec_Entity = ''shiftplan'', spec_EventName = ''ShiftPlanCommitted'',
            spec_Subject = shiftPlanKey b sh, spec_Time = t, spec_Stream = ''events'', spec_Version = 1,
            spec_Data = shiftPlanCommittedData b sh line\<rparr> of
       Inl e \<Rightarrow> ofail (Wrap ''kafka publisher: encode cloudevent'' e)
     | Inr value \<Rightarrow>
         obind (encode_lines k newID trace t b sh lines) (\<lambda>rest.
         oret (\<lparr>en_Topic = Topic,
                en_EventType = ''com.warehouse.wes.workforce-management.shiftplan.ShiftPlanCommitted'',
                en_Key = shiftPlanKey b sh, en_Value = value,
                en_Headers = inject trace [ContentTypeHeader]\<rparr> # rest)))"

fun Publisher_Encode ::
  "sdk \<Rightarrow> 's mint \<Rightarrow> (string \<times> string) list \<Rightarrow> (string \<Rightarrow> string \<Rightarrow> ('s, ShiftPlan) op) \<Rightarrow>
     DomainEvent list \<Rightarrow> ('s, Encoded list) op" where
  "Publisher_Encode k newID trace plans [] = oret []"
| "Publisher_Encode k newID trace plans (ShiftPlanCommitted t b sh # es) =
     ocatch (plans b sh) (\<lambda>r. case r of
         Inl e \<Rightarrow> ofail (Wrap ''kafka publisher: load committed shift plan'' e)
       | Inr sp \<Rightarrow>
           obind (encode_lines k newID trace t b sh (sp_lines sp)) (\<lambda>ms.
           obind (Publisher_Encode k newID trace plans es) (\<lambda>rest. oret (ms @ rest))))"
| "Publisher_Encode k newID trace plans (_ # es) = Publisher_Encode k newID trace plans es"

text \<open>
  The direct path: one \<open>WriteMessages\<close> for the batch, with the publish span's context \<open>pctx\<close>
  set over the headers \<open>Encode\<close> captured. The kafka-go writer is the parameter \<open>write\<close>.
\<close>

definition Publisher_Publish ::
  "sdk \<Rightarrow> 's mint \<Rightarrow> (string \<times> string) list \<Rightarrow> (string \<times> string) list \<Rightarrow> (Message list \<Rightarrow> ('s, unit) op) \<Rightarrow>
     (string \<Rightarrow> string \<Rightarrow> ('s, ShiftPlan) op) \<Rightarrow> DomainEvent list \<Rightarrow> ('s, unit) op" where
  "Publisher_Publish k newID trace pctx write plans es =
     obind (Publisher_Encode k newID trace plans es) (\<lambda>encoded.
     if encoded = [] then oret ()
     else write (map (\<lambda>e. (message e False)\<lparr>ms_Headers := inject pctx (ms_Headers (message e False))\<rparr>) encoded))"

section \<open>The analytics publisher\<close>

record analyticsEvent =
  an_entity :: string
  an_eventName :: string
  an_key :: string
  an_subject :: string
  an_data :: json

definition associateEvent :: "string \<Rightarrow> AssociateId \<Rightarrow> (string \<times> json) list \<Rightarrow> analyticsEvent" where
  "associateEvent name i data = \<lparr>an_entity = ''associate'', an_eventName = name, an_key = i, an_subject = i, an_data = JObj data\<rparr>"

text \<open>The Go switch covers every event type of the domain, so the default case is never met.\<close>

fun marshalAnalyticsData :: "DomainEvent \<Rightarrow> analyticsEvent" where
  "marshalAnalyticsData (AssociateShiftStarted t i cs) =
     associateEvent ''AssociateShiftStarted'' i [(''associate_id'', JStr i)]"
| "marshalAnalyticsData (AssociateShiftEnded t i) =
     associateEvent ''AssociateShiftEnded'' i [(''associate_id'', JStr i)]"
| "marshalAnalyticsData (AssociateBreakStarted t i) =
     associateEvent ''AssociateBreakStarted'' i [(''associate_id'', JStr i)]"
| "marshalAnalyticsData (AssociateBreakEnded t i) =
     associateEvent ''AssociateBreakEnded'' i [(''associate_id'', JStr i)]"
| "marshalAnalyticsData (AssociateCertified t i c) =
     associateEvent ''AssociateCertified'' i [(''associate_id'', JStr i), (''certification'', JStr c)]"
| "marshalAnalyticsData (LaborAssigned t i p) =
     \<lparr>an_entity = ''assignment'', an_eventName = ''LaborAssigned'', an_key = i, an_subject = i,
      an_data = JObj [(''associate_id'', JStr i), (''path_id'', JStr p)]\<rparr>"
| "marshalAnalyticsData (LaborReassigned t i f p) =
     \<lparr>an_entity = ''assignment'', an_eventName = ''LaborReassigned'', an_key = i, an_subject = i,
      an_data = JObj [(''associate_id'', JStr i), (''from_path_id'', JStr f), (''to_path_id'', JStr p)]\<rparr>"
| "marshalAnalyticsData (PathUnderstaffed t p planned act) =
     \<lparr>an_entity = ''shiftplan'', an_eventName = ''PathUnderstaffed'', an_key = p, an_subject = p,
      an_data = JObj [(''path_id'', JStr p), (''planned_heads'', JInt planned), (''active_heads'', JInt act)]\<rparr>"
| "marshalAnalyticsData (ShiftPlanProposed t b p heads rate) =
     \<lparr>an_entity = ''shiftplan'', an_eventName = ''ShiftPlanProposed'', an_key = p, an_subject = p,
      an_data = JObj [(''building_id'', JStr b), (''path_id'', JStr p), (''planned_heads'', JInt heads),
                      (''planned_rate'', JNum rate)]\<rparr>"
| "marshalAnalyticsData (ShiftPlanCommitted t b sh) =
     \<lparr>an_entity = ''shiftplan'', an_eventName = ''ShiftPlanCommitted'', an_key = b, an_subject = shiftPlanKey b sh,
      an_data = JObj [(''building_id'', JStr b), (''shift_id'', JStr sh)]\<rparr>"

text \<open>
  \<open>mustMarshal\<close> panics on a payload that JSON cannot carry. A panic unwinds through every caller, the unit
  of work rolling back on its way, up to the router's \<open>Recoverer\<close>; it is the \<open>Panic\<close> branch of the operations' errors.
\<close>

definition mustMarshal :: "json \<Rightarrow> err + json" where
  "mustMarshal d = (if marshalable d then Inr d else Inl (Panic ''kafka: marshal analytics data''))"

fun Analytics_Encode ::
  "sdk \<Rightarrow> 's mint \<Rightarrow> (string \<times> string) list \<Rightarrow> DomainEvent list \<Rightarrow> ('s, Encoded list) op" where
  "Analytics_Encode k newID trace [] = oret []"
| "Analytics_Encode k newID trace (e # es) =
     (let a = marshalAnalyticsData e in
      obind (olift (mustMarshal (an_data a))) (\<lambda>data.
      obind (omint newID) (\<lambda>i.
      case ce_New k \<lparr>spec_ID = i, spec_Entity = an_entity a, spec_EventName = an_eventName a,
             spec_Subject = an_subject a, spec_Time = OccurredAt e, spec_Stream = ''analytics'',
             spec_Version = 1, spec_Data = data\<rparr> of
        Inl err \<Rightarrow> ofail (Wrap ''kafka: encode analytics cloudevent'' err)
      | Inr payload \<Rightarrow>
          obind (Analytics_Encode k newID trace es) (\<lambda>rest.
          oret (\<lparr>en_Topic = AnalyticsTopic, en_EventType = ce_Type (an_entity a) (an_eventName a),
                 en_Key = an_key a, en_Value = payload, en_Headers = inject trace [ContentTypeHeader]\<rparr> # rest)))))"

text \<open>Unlike the integration publisher, one broker write per message, stopping at the first failure.\<close>

definition analytics_write ::
  "(string \<times> string) list \<Rightarrow> (Message list \<Rightarrow> ('s, unit) op) \<Rightarrow> Encoded \<Rightarrow> ('s, unit) op" where
  "analytics_write pctx write e =
     ocatch (write [(message e False)\<lparr>ms_Headers := inject pctx (ms_Headers (message e False))\<rparr>]) (\<lambda>r. case r of
         Inl err \<Rightarrow> ofail (Wrap (''kafka: publish '' @ en_EventType e) err)
       | Inr _ \<Rightarrow> oret ())"

fun write_each :: "(Encoded \<Rightarrow> ('s, unit) op) \<Rightarrow> Encoded list \<Rightarrow> ('s, unit) op" where
  "write_each w [] = oret ()"
| "write_each w (e # es) = obind (w e) (\<lambda>_. write_each w es)"

definition Analytics_Publish ::
  "sdk \<Rightarrow> 's mint \<Rightarrow> (string \<times> string) list \<Rightarrow> (string \<times> string) list \<Rightarrow> (Message list \<Rightarrow> ('s, unit) op) \<Rightarrow>
     DomainEvent list \<Rightarrow> ('s, unit) op" where
  "Analytics_Publish k newID trace pctx write es =
     obind (Analytics_Encode k newID trace es) (write_each (analytics_write pctx write))"

definition NewPublisher :: "string list \<Rightarrow> writer_config" where
  "NewPublisher brokers = \<lparr>wc_Addr = brokers, wc_Topic = Topic, wc_Hash = True, wc_AllowAutoTopicCreation = True,
     wc_BatchTimeout = syncWriterBatchTimeout, wc_RequiredAcks = syncWriterRequiredAcks\<rparr>"

definition NewAnalyticsPublisher :: "string list \<Rightarrow> writer_config" where
  "NewAnalyticsPublisher brokers = \<lparr>wc_Addr = brokers, wc_Topic = AnalyticsTopic, wc_Hash = True, wc_AllowAutoTopicCreation = True,
     wc_BatchTimeout = syncWriterBatchTimeout, wc_RequiredAcks = syncWriterRequiredAcks\<rparr>"

section \<open>The relay's sink\<close>

text \<open>The sink's writer has no topic: each message names its own.\<close>

definition NewRelaySink :: "string list \<Rightarrow> writer_config" where
  "NewRelaySink brokers = \<lparr>wc_Addr = brokers, wc_Topic = '''', wc_Hash = True, wc_AllowAutoTopicCreation = True,
     wc_BatchTimeout = syncWriterBatchTimeout, wc_RequiredAcks = syncWriterRequiredAcks\<rparr>"

fun sink_messages :: "Encoded list \<Rightarrow> int \<Rightarrow> err + Message list" where
  "sink_messages [] i = Inr []"
| "sink_messages (m # ms) i =
     (if en_Topic m = '''' then Inl (Other (''kafka relay sink: message '' @ print_int i @ '' ('' @ en_EventType m @ '') has no topic''))
      else map_sum id (\<lambda>out. message m True # out) (sink_messages ms (i + 1)))"

definition RelaySink_Send :: "(Message list \<Rightarrow> ('s, unit) op) \<Rightarrow> Encoded list \<Rightarrow> ('s, unit) op" where
  "RelaySink_Send write ms =
     (if ms = [] then oret ()
      else case sink_messages ms 0 of
          Inl e \<Rightarrow> ofail e
        | Inr out \<Rightarrow> ocatch (write out) (\<lambda>r. case r of
              Inl e \<Rightarrow> ofail (Wrap (''kafka relay sink: write '' @ print_int (int (length out)) @ '' message(s)'') e)
            | Inr _ \<Rightarrow> oret ()))"

text \<open>
  kafka-go refuses a message with a topic on a writer with one, and one without on a writer without: every
  message the publishers and the sink write suits its writer, and every one of these writes is
  acknowledged by all replicas.
\<close>

lemma topic_once:
  "wc_Topic (NewPublisher bs) \<noteq> '''' \<and> ms_Topic (message e False) = ''''"
  "wc_Topic (NewAnalyticsPublisher bs) \<noteq> '''' \<and> ms_Topic (message e False) = ''''"
  "wc_Topic (NewRelaySink bs) = '''' \<and> (sink_messages ms i = Inr out \<longrightarrow> (\<forall>m \<in> set out. ms_Topic m \<noteq> ''''))"
proof -
  show "wc_Topic (NewRelaySink bs) = '''' \<and> (sink_messages ms i = Inr out \<longrightarrow> (\<forall>m \<in> set out. ms_Topic m \<noteq> ''''))"
  proof (induction ms i arbitrary: out rule: sink_messages.induct)
    case (2 m ms i)
    then show ?case by (cases "sink_messages ms (i + 1)") (auto simp: message_def NewRelaySink_def)
  qed (simp add: NewRelaySink_def)
qed (simp_all add: NewPublisher_def NewAnalyticsPublisher_def Topic_def AnalyticsTopic_def message_def)

lemma writes_acknowledged:
  "wc_RequiredAcks w = RequireAll" if "w \<in> {NewPublisher bs, NewAnalyticsPublisher bs, NewRelaySink bs}"
  using that by (auto simp: NewPublisher_def NewAnalyticsPublisher_def NewRelaySink_def syncWriterRequiredAcks_def)

end
