(* ===== verification/UseCases.thy ===== *)
theory UseCases
  imports Ports
begin

text \<open>
  \<open>internal/application/usecases\<close>: each use case's \<open>Execute\<close>, call by call, over the ports
  \<open>P\<close>. An early \<open>return err\<close> is the failing branch of \<open>obind\<close>; a nil \<open>UnitOfWork\<close> runs
  the calls back to back.
\<close>

definition atomically :: "'s ports \<Rightarrow> ('s, unit) op \<Rightarrow> ('s, unit) op" where
  "atomically P f = (case UnitOfWork P of None \<Rightarrow> f | Some uow \<Rightarrow> uow f)"

section \<open>Shifts, certifications and breaks\<close>

text \<open>The body every use case on a shift runs atomically: save it, publish its events.\<close>

definition save_and_publish :: "'s ports \<Rightarrow> AssociateShift \<Rightarrow> ('s, unit) op" where
  "save_and_publish P shift =
     obind (SaveAssociate P shift) (\<lambda>_. Publish P (fst (as_PullEvents shift)))"

definition StartAssociateShift_Execute ::
  "'s ports \<Rightarrow> AssociateId \<Rightarrow> Certification list \<Rightarrow> ('s, AssociateShift) op" where
  "StartAssociateShift_Execute P i certs =
     obind (onow P) (\<lambda>now.
     let shift = NewAssociateShift i certs now in
     ocatch (FindByID P i) (\<lambda>r.
     obind (case r of
         Inr existing \<Rightarrow> oret (SetVersion shift (as_version existing))
       | Inl e \<Rightarrow> if errors_is e ErrNotFound then oret shift else ofail e) (\<lambda>shift.
     obind (atomically P (save_and_publish P shift)) (\<lambda>_.
     oret (snd (as_PullEvents shift))))))"

definition CertifyAssociate_Execute :: "'s ports \<Rightarrow> AssociateId \<Rightarrow> Certification \<Rightarrow> ('s, unit) op" where
  "CertifyAssociate_Execute P i c =
     obind (FindByID P i) (\<lambda>shift.
     obind (onow P) (\<lambda>now.
     obind (olift (Certify shift c now)) (\<lambda>shift.
     atomically P (save_and_publish P shift))))"

definition StartBreak_Execute :: "'s ports \<Rightarrow> AssociateId \<Rightarrow> ('s, unit) op" where
  "StartBreak_Execute P i =
     obind (FindByID P i) (\<lambda>shift.
     obind (onow P) (\<lambda>now.
     obind (olift (StartBreak shift now)) (\<lambda>shift.
     atomically P (save_and_publish P shift))))"

definition EndBreak_Execute :: "'s ports \<Rightarrow> AssociateId \<Rightarrow> ('s, unit) op" where
  "EndBreak_Execute P i =
     obind (FindByID P i) (\<lambda>shift.
     obind (onow P) (\<lambda>now.
     obind (olift (EndBreak shift now)) (\<lambda>shift.
     atomically P (save_and_publish P shift))))"

section \<open>Assigning labor\<close>

text \<open>Load the assignment record of an associate, or start an empty one.\<close>

definition find_or_new_assignment :: "'s ports \<Rightarrow> AssociateId \<Rightarrow> ('s, LaborAssignment) op" where
  "find_or_new_assignment P i =
     ocatch (FindByAssociateID P i) (\<lambda>r. case r of
         Inr la \<Rightarrow> oret la
       | Inl e \<Rightarrow> if \<not> errors_is e ErrNotFound then ofail e else oret (NewLaborAssignment i))"

text \<open>
  The hours of the interval that \<open>Assign\<close> just closed, logged on the shift; None when it
  closed none (\<open>shiftChanged\<close> is false).
\<close>

definition log_closed ::
  "f64 \<Rightarrow> AssociateShift \<Rightarrow> nat \<Rightarrow> LaborAssignment \<Rightarrow> time \<Rightarrow> err + AssociateShift option" where
  "log_closed mx shift priorHistoryLen la now =
     (if length (la_history la) > priorHistoryLen
      then map_sum id Some (LogHours shift (interval_Hours (last (la_history la)) now) mx)
      else Inr None)"

definition assign_body :: "'s ports \<Rightarrow> AssociateShift option \<Rightarrow> LaborAssignment \<Rightarrow> ('s, unit) op" where
  "assign_body P changed la =
     obind (case changed of Some shift \<Rightarrow> SaveAssociate P shift | None \<Rightarrow> oret ()) (\<lambda>_.
     obind (SaveAssignment P la) (\<lambda>_.
     Publish P (fst (la_PullEvents la))))"

text \<open>Everything \<open>Execute\<close> does before its atomic scope: the loads, the checks, the decision.\<close>

definition assign_prepare ::
  "'s ports \<Rightarrow> f64 \<Rightarrow> AssociateId \<Rightarrow> PathId \<Rightarrow> ('s, LaborAssignment \<times> AssociateShift option) op" where
  "assign_prepare P mx i pathId =
     obind (FindByID P i) (\<lambda>shift.
     obind (olift (CanBeAssigned shift)) (\<lambda>_.
     let hasCert = HasCertification shift pathId in
     obind (find_or_new_assignment P i) (\<lambda>la.
     obind (onow P) (\<lambda>now.
     let priorHistoryLen = length (la_history la) in
     obind (olift (Assign la pathId hasCert now)) (\<lambda>la.
     obind (olift (log_closed mx shift priorHistoryLen la now)) (\<lambda>changed.
     oret (la, changed)))))))"

definition AssignLabor_Execute ::
  "'s ports \<Rightarrow> f64 \<Rightarrow> AssociateId \<Rightarrow> PathId \<Rightarrow> ('s, LaborAssignment) op" where
  "AssignLabor_Execute P mx i pathId =
     obind (assign_prepare P mx i pathId) (\<lambda>(la, changed).
     obind (atomically P (assign_body P changed la)) (\<lambda>_.
     oret (snd (la_PullEvents la))))"

text \<open>The metric of an attempt: its path, and the outcome with a closed-set reason.\<close>

datatype assignment_metric = Accepted PathId | Rejected PathId string

definition rejectionReason :: "err \<Rightarrow> string" where
  "rejectionReason e =
     (if errors_is e ErrCertificationRequired then ''uncertified''
      else if errors_is e ErrOnBreak then ''on_break''
      else if errors_is e ErrShiftEnded then ''shift_ended''
      else if errors_is e ErrMaxHoursExceeded then ''max_hours_exceeded''
      else if errors_is e ErrNotFound then ''associate_not_found''
      else ''internal_error'')"

definition recordLaborAssignment :: "PathId \<Rightarrow> err + 'a \<Rightarrow> assignment_metric" where
  "recordLaborAssignment pathId r =
     (case r of Inr _ \<Rightarrow> Accepted pathId | Inl e \<Rightarrow> Rejected pathId (rejectionReason e))"

section \<open>Ending a shift\<close>

definition end_body :: "'s ports \<Rightarrow> LaborAssignment option \<Rightarrow> AssociateShift \<Rightarrow> ('s, unit) op" where
  "end_body P changed shift =
     obind (case changed of Some la \<Rightarrow> SaveAssignment P la | None \<Rightarrow> oret ()) (\<lambda>_.
     obind (SaveAssociate P shift) (\<lambda>_.
     Publish P (fst (as_PullEvents shift))))"

text \<open>
  End the active interval, if any, and log its hours: the changed assignment (None when
  nothing was active, or no record exists) with the shift.
\<close>

definition close_assignment ::
  "f64 \<Rightarrow> AssociateShift \<Rightarrow> LaborAssignment option \<Rightarrow> time \<Rightarrow> err + LaborAssignment option \<times> AssociateShift" where
  "close_assignment mx shift la now =
     (case la of
        None \<Rightarrow> Inr (None, shift)
      | Some l \<Rightarrow> (case EndActive l now of
           (None, _) \<Rightarrow> Inr (None, shift)
         | (Some iv, l') \<Rightarrow>
             map_sum id (\<lambda>shift. (Some l', shift)) (LogHours shift (interval_Hours iv now) mx)))"

definition EndAssociateShift_Execute :: "'s ports \<Rightarrow> f64 \<Rightarrow> AssociateId \<Rightarrow> ('s, unit) op" where
  "EndAssociateShift_Execute P mx i =
     obind (FindByID P i) (\<lambda>shift.
     obind (onow P) (\<lambda>now.
     ocatch (FindByAssociateID P i) (\<lambda>r.
     obind (case r of
         Inr la \<Rightarrow> oret (Some la)
       | Inl e \<Rightarrow> if \<not> errors_is e ErrNotFound then ofail e else oret None) (\<lambda>la.
     obind (olift (close_assignment mx shift la now)) (\<lambda>(changed, shift).
     atomically P (end_body P changed (EndShift shift now)))))))"

section \<open>Committing a shift plan\<close>

text \<open>
  \<open>InstalledCapacity\<close> and the catalogue's \<open>Lookup\<close> are the two further ports of this use case;
  a nil catalogue is None.
\<close>

fun ceiling_loop ::
  "(Capability \<Rightarrow> ('s, int) op) \<Rightarrow> string list \<Rightarrow> bool \<Rightarrow> int \<Rightarrow> (Capability \<rightharpoonup> int) \<Rightarrow>
     ('s, int \<times> (Capability \<rightharpoonup> int)) op" where
  "ceiling_loop cap [] fst_i ceil memo = oret (ceil, memo)"
| "ceiling_loop cap (raw # raws) fst_i ceil memo =
     obind (case memo raw of Some cnt \<Rightarrow> oret cnt | None \<Rightarrow> cap raw) (\<lambda>cnt.
     ceiling_loop cap raws False (if fst_i \<or> cnt < ceil then cnt else ceil)
       (memo(raw \<mapsto> cnt)))"

definition installedCapacityForPath ::
  "(string \<Rightarrow> ('s, PathDefinition) op) \<Rightarrow> (Capability \<Rightarrow> ('s, int) op) \<Rightarrow> PathId \<Rightarrow> (Capability \<rightharpoonup> int) \<Rightarrow>
     ('s, int \<times> (Capability \<rightharpoonup> int)) op" where
  "installedCapacityForPath lookup cap pathId memo =
     ocatch (lookup pathId) (\<lambda>r. case r of
         Inl e \<Rightarrow> ofail (Wrap (''path '' @ pathId) e)
       | Inr d \<Rightarrow> ceiling_loop cap (pd_RequiredCapabilities d) True 0 memo)"

fun capacities ::
  "(string \<Rightarrow> ('s, PathDefinition) op) \<Rightarrow> (Capability \<Rightarrow> ('s, int) op) \<Rightarrow> PathPlan list \<Rightarrow>
     (PathId \<rightharpoonup> int) \<Rightarrow> (Capability \<rightharpoonup> int) \<Rightarrow> ('s, PathId \<rightharpoonup> int) op" where
  "capacities lookup cap [] installed memo = oret installed"
| "capacities lookup cap (line # lines) installed memo =
     (case installed (pp_PathId line) of
        Some _ \<Rightarrow> capacities lookup cap lines installed memo
      | None \<Rightarrow>
          obind (installedCapacityForPath lookup cap (pp_PathId line) memo) (\<lambda>(capacity, memo).
          capacities lookup cap lines (installed(pp_PathId line \<mapsto> capacity)) memo))"

definition commit_body :: "'s ports \<Rightarrow> ShiftPlan \<Rightarrow> ('s, unit) op" where
  "commit_body P sp = obind (SaveShiftPlan P sp) (\<lambda>_. Publish P (fst (sp_PullEvents sp)))"

definition CommitShiftPlan_Execute ::
  "'s ports \<Rightarrow> (string \<Rightarrow> ('s, PathDefinition) op) option \<Rightarrow> (Capability \<Rightarrow> ('s, int) op) \<Rightarrow> f64 \<Rightarrow>
     string \<Rightarrow> string \<Rightarrow> PathPlan list \<Rightarrow> (PathId \<rightharpoonup> int) \<Rightarrow> ('s, ShiftPlan) op" where
  "CommitShiftPlan_Execute P catalogue cap mx b sh lines installedStations =
     (case catalogue of
        None \<Rightarrow> ofail (Sentinel ErrCommitShiftPlanNoCatalogue)
      | Some lookup \<Rightarrow>
          obind (capacities lookup cap lines Map.empty Map.empty) (\<lambda>installedCapacity.
          obind (onow P) (\<lambda>now.
          obind (olift (CommitShiftPlan b sh lines installedStations installedCapacity mx now)) (\<lambda>sp.
          obind (atomically P (commit_body P sp)) (\<lambda>_.
          oret (snd (sp_PullEvents sp)))))))"

section \<open>Proposing heads\<close>

datatype rate_source = RateSourceCaller | RateSourceMeasured

text \<open>
  The audit text of a trim by what it reports: the share and the threshold in percent, the
  path, the heads before and after. The empty text is \<open>NoTrim\<close>.
\<close>

datatype trim_reason = NoTrim | Trimmed f64 PathId f64 int int

definition DefaultIdleShareTrimThreshold :: f64 where
  "DefaultIdleShareTrimThreshold = flround (3 / 10)"

definition trim_heads :: "(f64 \<Rightarrow> int) \<Rightarrow> f64 \<Rightarrow> PathId \<Rightarrow> int \<Rightarrow> f64 \<Rightarrow> int \<times> trim_reason" where
  "trim_heads plat thresholdField pathId heads share =
     (let threshold = (if fle thresholdField (Fin 0) then DefaultIdleShareTrimThreshold else thresholdField)
      in if fle share threshold then (heads, NoTrim)
         else let t = f64_to_int plat (fceil (fmul (f64_of_int heads) (fsub (Fin 1) share)));
                  trimmed = (if t < 1 then 1 else t)
              in if trimmed \<ge> heads then (heads, NoTrim)
                 else (trimmed, Trimmed (fmul share (Fin 100)) pathId (fmul threshold (Fin 100)) heads trimmed))"

definition applyIdleShareTrim ::
  "(f64 \<Rightarrow> int) \<Rightarrow> (PathId \<Rightarrow> ('s, f64) op) option \<Rightarrow> f64 \<Rightarrow> PathId \<Rightarrow> int \<Rightarrow> ('s, int \<times> trim_reason) op" where
  "applyIdleShareTrim plat idleShare threshold pathId heads =
     (case idleShare of
        None \<Rightarrow> oret (heads, NoTrim)
      | Some share \<Rightarrow>
          if heads \<le> 0 then oret (heads, NoTrim)
          else ocatch (share pathId) (\<lambda>r. case r of
              Inl e \<Rightarrow> if errors_is e ErrIdleShareUnavailable then oret (heads, NoTrim) else ofail e
            | Inr sh \<Rightarrow> oret (trim_heads plat threshold pathId heads sh)))"

definition resolve_rate :: "(PathId \<Rightarrow> ('s, f64) op) option \<Rightarrow> PathId \<Rightarrow> f64 \<Rightarrow> ('s, f64 \<times> rate_source) op" where
  "resolve_rate measuredRate pathId plannedRate =
     (case measuredRate of
        Some mean \<Rightarrow>
          if fle plannedRate (Fin 0) then
            ocatch (mean pathId) (\<lambda>r. case r of
                Inr measured \<Rightarrow> oret (measured, RateSourceMeasured)
              | Inl e \<Rightarrow> if \<not> errors_is e ErrMeasuredRateUnavailable then ofail e
                        else oret (plannedRate, RateSourceCaller))
          else oret (plannedRate, RateSourceCaller)
      | None \<Rightarrow> oret (plannedRate, RateSourceCaller))"

definition ProposePathPlan_Execute ::
  "(f64 \<Rightarrow> int) \<Rightarrow> 's ports \<Rightarrow> (PathId \<Rightarrow> ('s, f64) op) option \<Rightarrow> (PathId \<Rightarrow> ('s, f64) op) option \<Rightarrow> f64 \<Rightarrow>
     string \<Rightarrow> PathId \<Rightarrow> f64 \<Rightarrow> f64 \<Rightarrow> ('s, int \<times> f64 \<times> rate_source \<times> trim_reason) op" where
  "ProposePathPlan_Execute plat P measuredRate idleShare threshold buildingId pathId charge plannedRate =
     obind (resolve_rate measuredRate pathId plannedRate) (\<lambda>(resolvedRate, rateSource).
     obind (applyIdleShareTrim plat idleShare threshold pathId (ProposedHeads plat charge resolvedRate))
       (\<lambda>(heads, trimReason).
     obind (onow P) (\<lambda>now.
     obind (atomically P (Publish P [ShiftPlanProposed now buildingId pathId heads resolvedRate])) (\<lambda>_.
     oret (heads, resolvedRate, rateSource, trimReason)))))"

section \<open>The staffing gap\<close>

record StaffingGap =
  sg_PathId :: PathId
  sg_PlannedHeads :: int
  sg_ActiveHeads :: int
  sg_Understaffed :: bool
  sg_ObservedIdlePct :: "f64 option"

definition observedIdlePct :: "(PathId \<Rightarrow> ('s, f64) op) option \<Rightarrow> PathId \<Rightarrow> ('s, f64 option) op" where
  "observedIdlePct idleShare pathId =
     (case idleShare of
        None \<Rightarrow> oret None
      | Some share \<Rightarrow> ocatch (share pathId) (\<lambda>r. case r of Inl _ \<Rightarrow> oret None | Inr x \<Rightarrow> oret (Some x)))"

definition gapForLine ::
  "'s ports \<Rightarrow> (PathId \<Rightarrow> ('s, f64) op) option \<Rightarrow> ShiftPlan \<Rightarrow> PathId \<Rightarrow> ('s, StaffingGap \<times> DomainEvent option) op" where
  "gapForLine P idleShare sp pathId =
     (let plannedHeads = PlannedHeadsFor sp pathId in
      obind (CountActiveByPath P pathId) (\<lambda>activeHeads.
      obind (observedIdlePct idleShare pathId) (\<lambda>idle.
      let gap = \<lparr>sg_PathId = pathId, sg_PlannedHeads = plannedHeads, sg_ActiveHeads = activeHeads,
                 sg_Understaffed = (activeHeads < plannedHeads), sg_ObservedIdlePct = idle\<rparr> in
      if sg_Understaffed gap
      then obind (onow P) (\<lambda>now. oret (gap, Some (PathUnderstaffed now pathId plannedHeads activeHeads)))
      else oret (gap, None))))"

definition GetStaffingGap_Execute ::
  "'s ports \<Rightarrow> (PathId \<Rightarrow> ('s, f64) op) option \<Rightarrow> string \<Rightarrow> string \<Rightarrow> PathId \<Rightarrow> ('s, StaffingGap) op" where
  "GetStaffingGap_Execute P idleShare b sh pathId =
     obind (FindByBuildingAndShift P b sh) (\<lambda>sp.
     obind (gapForLine P idleShare sp pathId) (\<lambda>(gap, event).
     obind (case event of Some e \<Rightarrow> atomically P (Publish P [e]) | None \<Rightarrow> oret ()) (\<lambda>_.
     oret gap)))"

definition GetStaffingGap_ExecuteAll ::
  "'s ports \<Rightarrow> (PathId \<Rightarrow> ('s, f64) op) option \<Rightarrow> string \<Rightarrow> string \<Rightarrow> ('s, StaffingGap list) op" where
  "GetStaffingGap_ExecuteAll P idleShare b sh =
     obind (FindByBuildingAndShift P b sh) (\<lambda>sp.
     obind (omapM (\<lambda>line. gapForLine P idleShare sp (pp_PathId line)) (sp_lines sp)) (\<lambda>ges.
     let events = List.map_filter snd ges in
     obind (if events \<noteq> [] then atomically P (Publish P events) else oret ()) (\<lambda>_.
     oret (map fst ges))))"

section \<open>What the use cases compute\<close>

text \<open>
  The installed capacity of a path, with the capability lookup as a function: the least of its
  required capabilities' capacities, whatever the memo of earlier answers holds.
\<close>

definition memo_ok :: "(Capability \<Rightarrow> err + int) \<Rightarrow> (Capability \<rightharpoonup> int) \<Rightarrow> bool" where
  "memo_ok f memo \<longleftrightarrow> (\<forall>c n. memo c = Some n \<longrightarrow> f c = Inr n)"

lemma ceiling_loop_spec:
  assumes "ceiling_loop (\<lambda>c. olift (f c)) raws b ceil memo s = (Inr (n, memo'), s')" "memo_ok f memo"
  shows "s' = s \<and> memo_ok f memo' \<and> (\<forall>c \<in> set raws. \<exists>k. f c = Inr k \<and> n \<le> k) \<and> (\<not> b \<longrightarrow> n \<le> ceil)
    \<and> (n = ceil \<and> (b \<longrightarrow> raws = []) \<or> (\<exists>c \<in> set raws. f c = Inr n))"
  using assms
proof (induction raws arbitrary: b ceil memo)
  case (Cons raw raws)
  let ?cnt = "case memo raw of Some cnt \<Rightarrow> Inr cnt | None \<Rightarrow> f raw"
  obtain cnt where cnt: "f raw = Inr cnt" and
    rest: "ceiling_loop (\<lambda>c. olift (f c)) raws False (if b \<or> cnt < ceil then cnt else ceil) (memo(raw \<mapsto> cnt)) s
      = (Inr (n, memo'), s')"
    using Cons.prems
    by (auto simp: memo_ok_def simp del: olift_app elim!: obind_InrE dest!: olift_InrD split: option.splits)
  have m: "memo_ok f (memo(raw \<mapsto> cnt))" using Cons.prems(2) cnt by (simp add: memo_ok_def)
  show ?case using Cons.IH [OF rest m] cnt by (auto split: if_splits)
qed simp

lemma installedCapacity_spec:
  assumes "installedCapacityForPath (\<lambda>p. olift (lk p)) (\<lambda>c. olift (f c)) p memo s = (Inr (n, memo'), s')" "memo_ok f memo"
  shows "s' = s \<and> memo_ok f memo' \<and> (\<exists>d. lk p = Inr d
    \<and> (\<forall>c \<in> set (pd_RequiredCapabilities d). \<exists>k. f c = Inr k \<and> n \<le> k)
    \<and> (if pd_RequiredCapabilities d = [] then n = 0 else \<exists>c \<in> set (pd_RequiredCapabilities d). f c = Inr n))"
proof -
  obtain d where d: "lk p = Inr d"
    "ceiling_loop (\<lambda>c. olift (f c)) (pd_RequiredCapabilities d) True 0 memo s = (Inr (n, memo'), s')"
    using assms(1)
    by (auto simp: installedCapacityForPath_def ocatch_app olift_app [of "lk p"] simp del: olift_app split: sum.splits)
  then show ?thesis using ceiling_loop_spec [OF d(2) assms(2)] by auto
qed

definition capacity_of :: "(string \<Rightarrow> err + PathDefinition) \<Rightarrow> (Capability \<Rightarrow> err + int) \<Rightarrow> PathId \<Rightarrow> int \<Rightarrow> bool" where
  "capacity_of lk f p n \<longleftrightarrow> (\<exists>d. lk p = Inr d
    \<and> (\<forall>c \<in> set (pd_RequiredCapabilities d). \<exists>k. f c = Inr k \<and> n \<le> k)
    \<and> (if pd_RequiredCapabilities d = [] then n = 0 else \<exists>c \<in> set (pd_RequiredCapabilities d). f c = Inr n))"

lemma capacities_spec:
  assumes "capacities (\<lambda>p. olift (lk p)) (\<lambda>c. olift (f c)) lines inst memo s = (Inr inst', s')" "memo_ok f memo"
    and "\<forall>p n. inst p = Some n \<longrightarrow> capacity_of lk f p n"
  shows "s' = s \<and> (\<forall>p n. inst' p = Some n \<longrightarrow> capacity_of lk f p n) \<and> (\<forall>l \<in> set lines. inst' (pp_PathId l) \<noteq> None)
    \<and> (\<forall>p. inst p \<noteq> None \<longrightarrow> inst' p \<noteq> None)"
  using assms
proof (induction lines arbitrary: inst memo)
  case (Cons line lines)
  show ?case
  proof (cases "inst (pp_PathId line)")
    case (Some k)
    then have "capacities (\<lambda>p. olift (lk p)) (\<lambda>c. olift (f c)) lines inst memo s = (Inr inst', s')"
      using Cons.prems(1) by (simp del: olift_app)
    from Cons.IH [OF this Cons.prems(2,3)] show ?thesis using Some by auto
  next
    case None
    then obtain n memo' s1 where 1:
      "installedCapacityForPath (\<lambda>p. olift (lk p)) (\<lambda>c. olift (f c)) (pp_PathId line) memo s = (Inr (n, memo'), s1)"
      "capacities (\<lambda>p. olift (lk p)) (\<lambda>c. olift (f c)) lines (inst(pp_PathId line \<mapsto> n)) memo' s1 = (Inr inst', s')"
      using Cons.prems(1) by (auto elim!: obind_InrE simp del: olift_app)
    have 2: "s1 = s" "memo_ok f memo'" "capacity_of lk f (pp_PathId line) n"
      using installedCapacity_spec [OF 1(1) Cons.prems(2)] by (auto simp: capacity_of_def)
    have "\<forall>p k. (inst(pp_PathId line \<mapsto> n)) p = Some k \<longrightarrow> capacity_of lk f p k" using Cons.prems(3) 2(3) by auto
    from Cons.IH [OF 1(2) [unfolded 2(1)] 2(2) this] show ?thesis by (auto split: if_splits)
  qed
qed simp

text \<open>
  C5: a committed plan stays under the physical ceiling: \<open>CommitShiftPlan.Execute\<close> succeeds only
  if every line's path is in the catalogue and its planned heads exceed neither the declared
  stations nor the installed capacity of any capability its path requires (none, if it
  requires none), and its planned hours fit its heads.
\<close>

theorem commit_under_ceiling:
  assumes "CommitShiftPlan_Execute P (Some (\<lambda>p. olift (lk p))) (\<lambda>c. olift (f c)) mx b sh lines stations s = (Inr sp, s')"
    and "l \<in> set lines"
  shows "\<exists>d n. lk (pp_PathId l) = Inr d \<and> stations (pp_PathId l) = Some n \<and> pp_PlannedHeads l \<le> n
    \<and> (\<forall>c \<in> set (pd_RequiredCapabilities d). \<exists>k. f c = Inr k \<and> pp_PlannedHeads l \<le> k)
    \<and> (pd_RequiredCapabilities d = [] \<longrightarrow> pp_PlannedHeads l \<le> 0)
    \<and> \<not> flt (fmul (f64_of_int (pp_PlannedHeads l)) mx) (pp_PlannedHours l)"
proof -
  from assms(1) obtain inst t sp0 s1 where 1:
    "capacities (\<lambda>p. olift (lk p)) (\<lambda>c. olift (f c)) lines Map.empty Map.empty s = (Inr inst, s1)"
    "CommitShiftPlan b sh lines stations inst mx t = Inr sp0"
    by (auto simp: CommitShiftPlan_Execute_def simp del: olift_app elim!: obind_InrE dest!: olift_InrD)
  have 2: "\<forall>p n. inst p = Some n \<longrightarrow> capacity_of lk f p n" "\<forall>l \<in> set lines. inst (pp_PathId l) \<noteq> None"
    using capacities_spec [OF 1(1)] by (auto simp: memo_ok_def)
  obtain k where k: "inst (pp_PathId l) = Some k" "capacity_of lk f (pp_PathId l) k" using 2 assms(2) by blast
  have "line_ok stations inst mx l" using 1(2) assms(2) by (simp add: CommitShiftPlan_Inr)
  then show ?thesis using k by (fastforce simp: line_ok_def capacity_of_def split: if_splits)
qed

definition demo_path :: PathDefinition where
  "demo_path = \<lparr>pd_Id = ''pack'', pd_MatchPrefix = ''pack'', pd_RequiredCapabilities = [''pack-station'', ''scanner''],
     pd_DestinationLocationRole = ''''\<rparr>"

text \<open>
  Trimming for idle time never cuts a path to nothing and never adds a head, whatever the
  reported share is (NaN and infinities included); a share at or under the threshold leaves the
  proposal alone; and a reason is given exactly when heads were cut.
\<close>

theorem trim_bounds:
  assumes "1 \<le> heads" "trim_heads plat threshold p heads share = (h, r)"
  shows "1 \<le> h \<and> h \<le> heads \<and> (r = NoTrim \<longleftrightarrow> h = heads)
    \<and> (fle share (if fle threshold (Fin 0) then DefaultIdleShareTrimThreshold else threshold) \<longrightarrow> h = heads)"
  using assms by (auto simp: trim_heads_def Let_def split: if_splits)

section \<open>Over a soft source, enrichment never fails a request\<close>

context soft_source
begin

lemma resolve_rate_total:
  assumes "unavailable = ErrMeasuredRateUnavailable"
  shows "\<exists>r s'. resolve_rate (Some ask) p rate s = (Inr r, s')"
proof -
  obtain x s1 where x: "ask p s = (x, s1)" by fastforce
  show ?thesis using ask_Inl [of p s _ s1] x assms
    by (cases x) (auto simp: resolve_rate_def ocatch_app)
qed

lemma trim_total:
  assumes "unavailable = ErrIdleShareUnavailable"
  shows "\<exists>r s'. applyIdleShareTrim plat (Some ask) th p heads s = (Inr r, s')"
proof -
  obtain x s1 where x: "ask p s = (x, s1)" by fastforce
  show ?thesis using ask_Inl [of p s _ s1] x assms
    by (cases x) (auto simp: applyIdleShareTrim_def ocatch_app)
qed

end

section \<open>Over a capacity source, an unknown capacity fails the commit\<close>

context capacity_source
begin

lemma ceiling_loop_Inl:
  "ceiling_loop ask raws b ceil memo s = (Inl e, s') \<Longrightarrow> errors_is e ErrInstalledCapacityUnavailable"
proof (induction raws arbitrary: b ceil memo s)
  case (Cons raw raws)
  show ?case
  proof (cases "memo raw")
    case None
    obtain x s1 where x: "ask raw s = (x, s1)" by fastforce
    show ?thesis using Cons x None ask_Inl [of raw s _ s1]
      by (cases x) (auto simp: obind_app ocatch_app)
  next
    case (Some n)
    then show ?thesis using Cons by (auto simp: obind_app)
  qed
qed simp

end

end
