(* ===== verification/UseCaseLaws.thy ===== *)
theory UseCaseLaws
  imports UseCases
begin

text \<open>
  What every use case does to the stored aggregates, proved once over the ports' contracts:
  the locale \<open>workforce\<close> joins the repository, publisher, clock and unit-of-work contracts, and
  its lemmas are interpreted on the in-memory and on the Postgres adapters.
\<close>

lemma obind_oret_unit: "obind m (\<lambda>_. oret ()) = (m :: ('s, unit) op)"
  by (auto simp: obind_def fun_eq_iff split: prod.splits sum.splits)

lemma shift_method_ids:
  "StartBreak a t = Inr a' \<Longrightarrow> as_associateId a' = as_associateId a"
  "EndBreak a t = Inr a' \<Longrightarrow> as_associateId a' = as_associateId a"
  "Certify a c t = Inr a' \<Longrightarrow> as_associateId a' = as_associateId a"
  "LogHours a h mx = Inr a' \<Longrightarrow> as_associateId a' = as_associateId a"
  "as_associateId (EndShift a t) = as_associateId a"
  by (auto simp: domain_simps split: if_splits)

text \<open>
  What a use case needs to be all or nothing, for any part \<open>vw\<close> of the state: the reads leave it
  alone, and a scope that fails restores it.
\<close>

locale transactional =
  fixes vw :: "'s \<Rightarrow> 'v" and inv :: "'s \<Rightarrow> bool" and P :: "'s ports" and inner :: "('s, unit) op \<Rightarrow> bool"
  assumes find_a_reads: "FindByID P i s = (ra, s') \<Longrightarrow> inv s \<Longrightarrow> vw s' = vw s \<and> inv s'"
    and find_l_reads: "FindByAssociateID P i s = (rl, s') \<Longrightarrow> inv s \<Longrightarrow> vw s' = vw s \<and> inv s'"
    and count_l_reads: "CountActiveByPath P p s = (rc, s') \<Longrightarrow> inv s \<Longrightarrow> vw s' = vw s \<and> inv s'"
    and find_p_reads: "FindByBuildingAndShift P b sh s = (rp, s') \<Longrightarrow> inv s \<Longrightarrow> vw s' = vw s \<and> inv s'"
    and now_reads: "Now P s = (t, s') \<Longrightarrow> inv s \<Longrightarrow> vw s' = vw s \<and> inv s'"
    and inner_oret: "inner (oret ())"
    and inner_obind: "inner f \<Longrightarrow> inner g \<Longrightarrow> inner (obind f (\<lambda>_. g))"
    and inner_save_a: "inner (SaveAssociate P a)"
    and inner_save_l: "inner (SaveAssignment P l)"
    and inner_save_p: "inner (SaveShiftPlan P sp)"
    and inner_publish: "inner (Publish P es)"
    and atomically_Inl: "atomically P f s = (Inl e, s') \<Longrightarrow> inner f \<Longrightarrow> inv s \<Longrightarrow> vw s' = vw s"
begin

lemmas inner_intros =
  inner_oret inner_obind inner_save_a inner_save_l inner_save_p inner_publish

lemma inner_bodies:
  "inner (save_and_publish P a)" "inner (assign_body P ch l)" "inner (end_body P ch' a)"
  "inner (commit_body P sp)"
  by (auto simp: save_and_publish_def assign_body_def end_body_def commit_body_def
      intro!: inner_intros split: option.splits)

text \<open>Operations that only read.\<close>

definition quiet :: "('s, 'x) op \<Rightarrow> bool" where
  "quiet m \<longleftrightarrow> (\<forall>s r s'. m s = (r, s') \<longrightarrow> inv s \<longrightarrow> vw s' = vw s \<and> inv s')"

lemma quietD: "quiet m \<Longrightarrow> m s = (r, s') \<Longrightarrow> inv s \<Longrightarrow> vw s' = vw s \<and> inv s'"
  by (simp add: quiet_def)

lemma quiet_pure: "quiet (oret a)" "quiet (ofail e)" "quiet (olift r)"
  by (simp_all add: quiet_def)

lemma quiet_obind: "quiet m \<Longrightarrow> (\<And>a. quiet (f a)) \<Longrightarrow> quiet (obind m f)"
  unfolding quiet_def by (metis (no_types, lifting) obind_cases)

lemma quiet_ocatch: "quiet m \<Longrightarrow> (\<And>a. quiet (f a)) \<Longrightarrow> quiet (ocatch m f)"
  unfolding quiet_def ocatch_def by (metis (no_types, lifting) case_prod_conv surj_pair)

lemma quiet_ports: "quiet (FindByID P i)" "quiet (FindByAssociateID P i)" "quiet (CountActiveByPath P p)"
  "quiet (FindByBuildingAndShift P b sh)" "quiet (onow P)"
  using find_a_reads find_l_reads count_l_reads find_p_reads now_reads
  by (auto simp: quiet_def onow_def split: prod.splits)

lemmas quiet_intros = quiet_pure quiet_obind quiet_ocatch quiet_ports

lemma quiet_find_or_new: "quiet (find_or_new_assignment P i)"
  by (auto simp: find_or_new_assignment_def intro!: quiet_intros split: sum.splits)

lemma quiet_assign_prepare: "quiet (assign_prepare P mx i p)"
  by (auto simp: assign_prepare_def Let_def intro!: quiet_intros quiet_find_or_new)

text \<open>
  All or nothing: an \<open>Execute\<close> that fails has changed no aggregate (\<open>inner_total\<close>: the adapters
  wired without a unit of work, the in-memory ones, never fail to save).
\<close>

lemma all_or_nothing:
  assumes "obind m (\<lambda>x. obind (atomically P (f x)) (\<lambda>_. oret (g x))) s = (Inl e, s')"
    and "quiet m" "\<And>x. inner (f x)" "inv s"
  shows "vw s' = vw s"
  using assms(1)
proof (cases rule: obind_cases)
  case (err e')
  then show ?thesis using quietD [OF assms(2)] assms(4) by blast
next
  case (ok x s1)
  have v: "vw s1 = vw s" "inv s1" using quietD [OF assms(2) ok(1) assms(4)] by auto
  from ok(2) have "atomically P (f x) s1 = (Inl e, s')"
    by (auto elim: obind_cases)
  then show ?thesis using atomically_Inl assms(3) v by metis
qed

lemma all_or_nothing_last:
  assumes "obind m (\<lambda>x. atomically P (f x)) s = (Inl e, s')"
    and "quiet m" "\<And>x. inner (f x)" "inv s"
  shows "vw s' = vw s"
  by (rule all_or_nothing [where m = m and f = f and g = "\<lambda>_. ()" and e = e and s = s and s' = s', OF _ assms(2-4)])
    (use assms(1) in \<open>simp only: obind_oret_unit\<close>)

lemma shift_change_fails:
  assumes "obind (FindByID P i) (\<lambda>a. obind (onow P) (\<lambda>t. obind (olift (m a t)) (\<lambda>a'.
      atomically P (save_and_publish P a')))) s = (Inl e, s')"
    and "inv s"
  shows "vw s' = vw s"
  by (rule all_or_nothing_last [where m = "obind (FindByID P i) (\<lambda>a. obind (onow P) (\<lambda>t. olift (m a t)))"
        and f = "save_and_publish P" and e = e, OF _ _ inner_bodies(1) assms(2)])
    (use assms(1) in \<open>auto simp: obind_assoc intro!: quiet_intros\<close>)

lemma StartBreak_fails:
  "StartBreak_Execute P i s = (Inl e, s') \<Longrightarrow> inv s \<Longrightarrow> vw s' = vw s"
  unfolding StartBreak_Execute_def by (rule shift_change_fails)

lemma EndBreak_fails:
  "EndBreak_Execute P i s = (Inl e, s') \<Longrightarrow> inv s \<Longrightarrow> vw s' = vw s"
  unfolding EndBreak_Execute_def by (rule shift_change_fails)

lemma CertifyAssociate_fails:
  "CertifyAssociate_Execute P i c s = (Inl e, s') \<Longrightarrow> inv s \<Longrightarrow> vw s' = vw s"
  unfolding CertifyAssociate_Execute_def by (rule shift_change_fails)

lemma AssignLabor_fails:
  "AssignLabor_Execute P mx i p s = (Inl e, s') \<Longrightarrow> inv s \<Longrightarrow> vw s' = vw s"
  by (rule all_or_nothing [where m = "assign_prepare P mx i p"
        and f = "\<lambda>x. assign_body P (snd x) (fst x)" and g = "\<lambda>x. snd (la_PullEvents (fst x))" and e = e])
    (auto simp: AssignLabor_Execute_def case_prod_unfold intro!: quiet_assign_prepare inner_bodies)

lemma quiet_ceiling_loop:
  "(\<And>c. quiet (cap c)) \<Longrightarrow> quiet (ceiling_loop cap raws b c memo)"
  by (induction raws arbitrary: b c memo) (auto intro!: quiet_intros split: option.splits)

lemma quiet_installedCapacity:
  "(\<And>c. quiet (cap c)) \<Longrightarrow> (\<And>p. quiet (lookup p)) \<Longrightarrow> quiet (installedCapacityForPath lookup cap p memo)"
  by (auto simp: installedCapacityForPath_def intro!: quiet_intros quiet_ceiling_loop split: sum.splits)

lemma quiet_capacities:
  assumes "\<And>c. quiet (cap c)" "\<And>p. quiet (lookup p)"
  shows "quiet (capacities lookup cap lines inst memo)"
  using assms
  by (induction lines arbitrary: inst memo)
    (auto intro!: quiet_intros quiet_installedCapacity split: option.splits)

lemma EndAssociateShift_fails:
  "EndAssociateShift_Execute P mx i s = (Inl e, s') \<Longrightarrow> inv s \<Longrightarrow> vw s' = vw s"
  by (rule all_or_nothing_last [where e = e and m = "obind (FindByID P i) (\<lambda>shift. obind (onow P) (\<lambda>now.
       ocatch (FindByAssociateID P i) (\<lambda>r.
         obind (case r of Inr la \<Rightarrow> oret (Some la)
           | Inl e \<Rightarrow> if \<not> errors_is e ErrNotFound then ofail e else oret None) (\<lambda>la.
         obind (olift (close_assignment mx shift la now)) (\<lambda>(changed, shift). oret (changed, EndShift shift now))))))"
        and f = "\<lambda>(changed, shift). end_body P changed shift"])
    (auto simp: EndAssociateShift_Execute_def obind_assoc ocatch_assoc case_prod_unfold intro!: quiet_intros inner_bodies
      split: sum.splits)

lemma StartAssociateShift_fails:
  "StartAssociateShift_Execute P i certs s = (Inl e, s') \<Longrightarrow> inv s \<Longrightarrow> vw s' = vw s"
  by (rule all_or_nothing [where e = e and m = "obind (onow P) (\<lambda>now. ocatch (FindByID P i) (\<lambda>r.
         case r of Inr existing \<Rightarrow> oret (SetVersion (NewAssociateShift i certs now) (as_version existing))
         | Inl e \<Rightarrow> if errors_is e ErrNotFound then oret (NewAssociateShift i certs now) else ofail e))"
        and f = "save_and_publish P" and g = "\<lambda>a. snd (as_PullEvents a)"])
    (auto simp: StartAssociateShift_Execute_def Let_def obind_assoc ocatch_assoc intro!: quiet_intros inner_bodies
      split: sum.splits)

lemma CommitShiftPlan_fails:
  assumes "CommitShiftPlan_Execute P cat cap mx b sh lines stations s = (Inl e, s')" "inv s"
    "\<And>c. quiet (cap c)" "\<And>lookup p. cat = Some lookup \<Longrightarrow> quiet (lookup p)"
  shows "vw s' = vw s"
proof (cases cat)
  case None
  then show ?thesis using assms(1) by (simp add: CommitShiftPlan_Execute_def)
next
  case (Some lookup)
  show ?thesis
    by (rule all_or_nothing [where e = e and m = "obind (capacities lookup cap lines Map.empty Map.empty) (\<lambda>inst.
           obind (onow P) (\<lambda>now. olift (CommitShiftPlan b sh lines stations inst mx now)))"
          and f = "commit_body P" and g = "\<lambda>a. snd (sp_PullEvents a)", OF _ _ inner_bodies(4) assms(2)])
      (use assms(1,3,4) Some in \<open>auto simp: CommitShiftPlan_Execute_def obind_assoc
        intro!: quiet_intros quiet_capacities\<close>)
qed

lemma quiet_resolve: "(\<And>m p. mr = Some m \<Longrightarrow> quiet (m p)) \<Longrightarrow> quiet (resolve_rate mr p rate)"
  by (auto simp: resolve_rate_def intro!: quiet_intros split: option.splits sum.splits)

lemma quiet_trim:
  "(\<And>m p. idle = Some m \<Longrightarrow> quiet (m p)) \<Longrightarrow> quiet (applyIdleShareTrim plat idle th p heads)"
  by (auto simp: applyIdleShareTrim_def intro!: quiet_intros split: option.splits sum.splits)

lemma quiet_gapForLine:
  "(\<And>m p. idle = Some m \<Longrightarrow> quiet (m p)) \<Longrightarrow> quiet (gapForLine P idle sp p)"
  by (auto simp: gapForLine_def observedIdlePct_def Let_def intro!: quiet_intros
      split: option.splits sum.splits)

lemma quiet_omapM: "(\<And>x. quiet (f x)) \<Longrightarrow> quiet (omapM f xs)"
  by (induction xs) (auto intro!: quiet_intros)

lemma fails_after:
  assumes "obind m (\<lambda>x. obind (h x) (\<lambda>_. oret (g x))) s = (Inl e, s')"
    and "quiet m" "inv s" "\<And>x t t' e. h x t = (Inl e, t') \<Longrightarrow> inv t \<Longrightarrow> vw t' = vw t"
  shows "vw s' = vw s"
  using assms(1)
proof (cases rule: obind_cases)
  case (err e')
  then show ?thesis using quietD [OF assms(2)] assms(3) by blast
next
  case (ok x s1)
  have v: "vw s1 = vw s" "inv s1" using quietD [OF assms(2) ok(1) assms(3)] by auto
  from ok(2) have "h x s1 = (Inl e, s')" by (auto elim: obind_cases)
  then show ?thesis using assms(4) v by metis
qed

lemma Propose_fails:
  assumes "ProposePathPlan_Execute plat P mr idle th b p charge rate s = (Inl e, s')" "inv s"
    and "\<And>m p. mr = Some m \<Longrightarrow> quiet (m p)" "\<And>m p. idle = Some m \<Longrightarrow> quiet (m p)"
  shows "vw s' = vw s"
  by (rule fails_after [where e = e and m = "obind (resolve_rate mr p rate) (\<lambda>(r, src).
        obind (applyIdleShareTrim plat idle th p (ProposedHeads plat charge r)) (\<lambda>(heads, why).
        obind (onow P) (\<lambda>now. oret (now, heads, r, src, why))))"
      and h = "\<lambda>(now, heads, r, src, why). atomically P (Publish P [ShiftPlanProposed now b p heads r])"
      and g = "\<lambda>(now, heads, r, src, why). (heads, r, src, why)", OF _ _ assms(2)])
    (use assms(1,3,4) in \<open>auto simp: ProposePathPlan_Execute_def obind_assoc case_prod_unfold
      intro!: quiet_intros quiet_resolve quiet_trim intro: atomically_Inl inner_publish\<close>)

lemma Gap_fails:
  assumes "GetStaffingGap_Execute P idle b sh p s = (Inl e, s')" "inv s"
    and "\<And>m p. idle = Some m \<Longrightarrow> quiet (m p)"
  shows "vw s' = vw s"
  by (rule fails_after [where e = e and m = "obind (FindByBuildingAndShift P b sh) (\<lambda>sp. gapForLine P idle sp p)"
      and h = "\<lambda>x. case snd x of Some e \<Rightarrow> atomically P (Publish P [e]) | None \<Rightarrow> oret ()" and g = fst,
      OF _ _ assms(2)])
    (use assms(1,3) in \<open>auto simp: GetStaffingGap_Execute_def obind_assoc case_prod_unfold
      intro!: quiet_intros quiet_gapForLine intro: atomically_Inl inner_publish split: option.splits\<close>)

lemma GapAll_fails:
  assumes "GetStaffingGap_ExecuteAll P idle b sh s = (Inl e, s')" "inv s"
    and "\<And>m p. idle = Some m \<Longrightarrow> quiet (m p)"
  shows "vw s' = vw s"
  by (rule fails_after [where e = e and m = "obind (FindByBuildingAndShift P b sh) (\<lambda>sp.
        omapM (\<lambda>line. gapForLine P idle sp (pp_PathId line)) (sp_lines sp))"
      and h = "\<lambda>ges. if List.map_filter snd ges \<noteq> [] then atomically P (Publish P (List.map_filter snd ges)) else oret ()"
      and g = "map fst", OF _ _ assms(2)])
    (use assms(1,3) in \<open>auto simp: GetStaffingGap_ExecuteAll_def Let_def obind_assoc
      intro!: quiet_intros quiet_omapM quiet_gapForLine intro: atomically_Inl inner_publish split: if_splits\<close>)

end

locale workforce =
  associate_repo view inv "FindByID P" "SaveAssociate P" +
  assignment_repo view inv "FindByAssociateID P" "SaveAssignment P" "CountActiveByPath P" +
  shift_plan_repo view inv "FindByBuildingAndShift P" "SaveShiftPlan P" +
  event_publisher view inv "Publish P" +
  clock_port view inv "Now P" +
  body_a: associate_repo view body_inv "FindByID P" "SaveAssociate P" +
  body_l: assignment_repo view body_inv "FindByAssociateID P" "SaveAssignment P" "CountActiveByPath P" +
  body_p: shift_plan_repo view body_inv "FindByBuildingAndShift P" "SaveShiftPlan P" +
  body_e: event_publisher view body_inv "Publish P"
  for view :: "'s \<Rightarrow> wf_view" and inv :: "'s \<Rightarrow> bool" and body_inv :: "'s \<Rightarrow> bool" and P :: "'s ports" +
  fixes inner :: "('s, unit) op \<Rightarrow> bool"
  assumes body_inv: "inv s \<Longrightarrow> body_inv s"
    and inner_inv: "inner f \<Longrightarrow> inv s \<Longrightarrow> f s = (u, s') \<Longrightarrow> inv s'"
    and scope_oret: "inner (oret ())"
    and scope_obind: "inner f \<Longrightarrow> inner g \<Longrightarrow> inner (obind f (\<lambda>_. g))"
    and scope_save_a: "inner (SaveAssociate P a)"
    and scope_save_l: "inner (SaveAssignment P l)"
    and scope_save_p: "inner (SaveShiftPlan P sp)"
    and scope_publish: "inner (Publish P es)"
    and inner_total: "UnitOfWork P = None \<Longrightarrow> inner f \<Longrightarrow> \<exists>s'. f s = (Inr (), s')"
    and uow_law: "UnitOfWork P = Some uow \<Longrightarrow> unit_of_work view inv body_inv inner uow"
begin

text \<open>The atomic scope.\<close>

lemma atomically_Inr:
  assumes "atomically P f s = (Inr (), s')" "inner f" "inv s"
  shows "inv s' \<and> (\<exists>s0 s1. view s0 = view s \<and> body_inv s0 \<and> f s0 = (Inr (), s1) \<and> view s' = view s1)"
proof (cases "UnitOfWork P")
  case None
  then show ?thesis using assms by (auto simp: atomically_def intro: inner_inv body_inv)
next
  case (Some u)
  then have u: "unit_of_work view inv body_inv inner u" "u f s = (Inr (), s')"
    using uow_law assms(1) by (auto simp: atomically_def)
  show ?thesis
    using unit_of_work.uow_commit [OF u] unit_of_work.uow_inv [OF u] assms(2,3) by blast
qed

lemma atomically_inv:
  assumes "atomically P f s = (r, s')" "inner f" "inv s"
  shows "inv s'"
proof (cases "UnitOfWork P")
  case None
  then show ?thesis using assms by (auto simp: atomically_def intro: inner_inv)
next
  case (Some u)
  then have "u f s = (r, s')" using assms(1) by (simp add: atomically_def)
  then show ?thesis using unit_of_work.uow_inv [OF uow_law [OF Some]] assms(2,3) by blast
qed

lemma scope_Inl:
  assumes "atomically P f s = (Inl e, s')" "inner f" "inv s"
  shows "view s' = view s"
proof (cases "UnitOfWork P")
  case None
  then show ?thesis using assms(1) inner_total [OF None assms(2), of s] by (auto simp: atomically_def)
next
  case (Some u)
  then show ?thesis
    using assms unit_of_work.uow_rollback [OF uow_law] by (auto simp: atomically_def)
qed

end

sublocale workforce \<subseteq> transactional view inv P inner
  by unfold_locales
    (fact find_a_frame find_l_frame count_l_frame find_p_frame now_frame scope_oret scope_obind scope_save_a
      scope_save_l scope_save_p scope_publish scope_Inl)+

context workforce
begin

lemma all_or_nothing_view: "transactional view inv P inner"
  by (rule transactional_axioms)

section \<open>Effects on success\<close>

lemma save_and_publish_Inr:
  assumes "save_and_publish P a s = (Inr (), s')" "body_inv s"
  shows "\<exists>b. stored_assoc a b \<and>
    view s' = (view s)\<lparr>v_assoc := (v_assoc (view s))(as_associateId a \<mapsto> b)\<rparr>"
  using assms unfolding save_and_publish_def
  by (auto elim!: obind_InrE dest!: body_e.publish_Inr dest: body_a.save_a_inv body_a.save_a_Inr)

lemma atomic_save:
  assumes "atomically P (save_and_publish P a) s = (Inr (), s')" "inv s"
  shows "inv s' \<and> (\<exists>b. stored_assoc a b \<and>
    view s' = (view s)\<lparr>v_assoc := (v_assoc (view s))(as_associateId a \<mapsto> b)\<rparr>)"
  using atomically_Inr [OF assms(1) inner_bodies(1) assms(2)] save_and_publish_Inr by metis

lemma onow_Inr: "onow P s = (Inr t, s') \<Longrightarrow> inv s \<Longrightarrow> view s' = view s \<and> inv s'"
  using quiet_ports(5) quietD by blast

text \<open>Load a shift, change it by a domain method, save it: what all break and certify calls do.\<close>

lemma shift_update:
  assumes "obind (FindByID P i) (\<lambda>a. obind (onow P) (\<lambda>t. obind (olift (m a t)) (\<lambda>a'.
      atomically P (save_and_publish P a')))) s = (Inr (), s')"
    and "inv s" "\<And>a t a'. m a t = Inr a' \<Longrightarrow> as_associateId a' = as_associateId a"
  shows "inv s' \<and> (\<exists>a t a' b. v_assoc (view s) i = Some a \<and> m a t = Inr a' \<and> stored_assoc a' b
    \<and> view s' = (view s)\<lparr>v_assoc := (v_assoc (view s))(i \<mapsto> b)\<rparr>)"
proof -
  from assms(1) obtain a s1 t s2 a' s3 where 1: "FindByID P i s = (Inr a, s1)" "onow P s1 = (Inr t, s2)"
    "m a t = Inr a'" and 3: "s3 = s2" "atomically P (save_and_publish P a') s3 = (Inr (), s')"
    by (auto elim!: obind_InrE)
  have v1: "v_assoc (view s) i = Some a" "as_associateId a = i" "view s1 = view s" "inv s1"
    using find_a_Inr [OF 1(1) assms(2)] find_a_frame [OF 1(1) assms(2)] by auto
  then have v2: "view s2 = view s" "inv s2" using onow_Inr [OF 1(2)] by auto
  have "as_associateId a' = i" using assms(3) [OF 1(3)] v1(2) by simp
  then show ?thesis using atomic_save [of a' s2 s'] 3 v2 v1(1) 1(3) by metis
qed

lemma StartBreak_effect:
  assumes "StartBreak_Execute P i s = (Inr (), s')" "inv s"
  shows "inv s' \<and> (\<exists>a b. v_assoc (view s) i = Some a \<and> \<not> as_ended a \<and> \<not> as_onBreak a
    \<and> stored_assoc (a\<lparr>as_onBreak := True\<rparr>) b
    \<and> view s' = (view s)\<lparr>v_assoc := (v_assoc (view s))(i \<mapsto> b)\<rparr>)"
proof -
  obtain a t a' b where *: "inv s'" "v_assoc (view s) i = Some a" "StartBreak a t = Inr a'"
    "stored_assoc a' b" "view s' = (view s)\<lparr>v_assoc := (v_assoc (view s))(i \<mapsto> b)\<rparr>"
    using shift_update [OF assms(1) [unfolded StartBreak_Execute_def] assms(2)] shift_method_ids(1) by metis
  have "\<not> as_ended a \<and> \<not> as_onBreak a \<and> stored_assoc (a\<lparr>as_onBreak := True\<rparr>) b"
    using *(3,4) by (auto simp: domain_simps stored_assoc_def split: if_splits)
  with * show ?thesis by blast
qed

lemma EndBreak_effect:
  assumes "EndBreak_Execute P i s = (Inr (), s')" "inv s"
  shows "inv s' \<and> (\<exists>a b. v_assoc (view s) i = Some a \<and> \<not> as_ended a \<and> as_onBreak a
    \<and> stored_assoc (a\<lparr>as_onBreak := False\<rparr>) b
    \<and> view s' = (view s)\<lparr>v_assoc := (v_assoc (view s))(i \<mapsto> b)\<rparr>)"
proof -
  obtain a t a' b where *: "inv s'" "v_assoc (view s) i = Some a" "EndBreak a t = Inr a'"
    "stored_assoc a' b" "view s' = (view s)\<lparr>v_assoc := (v_assoc (view s))(i \<mapsto> b)\<rparr>"
    using shift_update [OF assms(1) [unfolded EndBreak_Execute_def] assms(2)] shift_method_ids(2) by metis
  have "\<not> as_ended a \<and> as_onBreak a \<and> stored_assoc (a\<lparr>as_onBreak := False\<rparr>) b"
    using *(3,4) by (auto simp: domain_simps stored_assoc_def split: if_splits)
  with * show ?thesis by blast
qed

lemma CertifyAssociate_effect:
  assumes "CertifyAssociate_Execute P i c s = (Inr (), s')" "inv s"
  shows "inv s' \<and> (\<exists>a b. v_assoc (view s) i = Some a \<and> \<not> as_ended a
    \<and> stored_assoc (a\<lparr>as_certifications := insert c (as_certifications a)\<rparr>) b
    \<and> view s' = (view s)\<lparr>v_assoc := (v_assoc (view s))(i \<mapsto> b)\<rparr>)"
proof -
  obtain a t a' b where *: "inv s'" "v_assoc (view s) i = Some a" "Certify a c t = Inr a'"
    "stored_assoc a' b" "view s' = (view s)\<lparr>v_assoc := (v_assoc (view s))(i \<mapsto> b)\<rparr>"
    using shift_update [OF assms(1) [unfolded CertifyAssociate_Execute_def] assms(2)] shift_method_ids(3) by metis
  have "\<not> as_ended a \<and> stored_assoc (a\<lparr>as_certifications := insert c (as_certifications a)\<rparr>) b"
    using *(3,4) by (auto simp: domain_simps stored_assoc_def split: if_splits)
  with * show ?thesis by blast
qed

text \<open>
  Starting, assigning and ending: the loads of the use case answer what the view holds, and the
  domain operations decide what is written.
\<close>

lemma StartAssociateShift_effect:
  assumes "StartAssociateShift_Execute P i certs s = (Inr a, s')" "inv s"
  shows "inv s' \<and> (\<exists>t v b. a = (SetVersion (NewAssociateShift i certs t) v)\<lparr>as_events := []\<rparr>
    \<and> (\<forall>old. v_assoc (view s) i = Some old \<longrightarrow> v = as_version old)
    \<and> stored_assoc a b \<and> view s' = (view s)\<lparr>v_assoc := (v_assoc (view s))(i \<mapsto> b)\<rparr>)"
proof -
  from assms(1) obtain t s1 r s2 v where 1: "onow P s = (Inr t, s1)" "FindByID P i s1 = (r, s2)"
    and v: "case r of Inr old \<Rightarrow> v = as_version old | Inl e \<Rightarrow> v = 1 \<and> errors_is e ErrNotFound"
    and 2: "atomically P (save_and_publish P (SetVersion (NewAssociateShift i certs t) v)) s2 = (Inr (), s')"
      "a = snd (as_PullEvents (SetVersion (NewAssociateShift i certs t) v))"
    unfolding StartAssociateShift_Execute_def Let_def
    apply (auto elim!: obind_InrE simp: ocatch_app split: prod.splits sum.splits if_splits)
     apply (fastforce simp: SetVersion_def NewAssociateShift_def as_record_def)
    done
  have v1: "view s1 = view s" "inv s1" using onow_Inr [OF 1(1) assms(2)] by auto
  have v2: "view s2 = view s" "inv s2" using find_a_frame [OF 1(2) v1(2)] v1 by auto
  have "\<forall>old. v_assoc (view s) i = Some old \<longrightarrow> v = as_version old"
    using v find_a_Inr [of i s1] find_a_Inl [of i s1] 1(2) v1 by (auto split: sum.splits)
  moreover obtain b where b: "inv s'"
    "stored_assoc (SetVersion (NewAssociateShift i certs t) v) b"
    "view s' = (view s2)\<lparr>v_assoc := (v_assoc (view s2))(i \<mapsto> b)\<rparr>"
    using atomic_save [OF 2(1) v2(2)] by (auto simp: domain_simps)
  moreover have "stored_assoc a b" using b(2) 2(2) by (simp add: stored_assoc_def as_PullEvents_def)
  moreover have "a = (SetVersion (NewAssociateShift i certs t) v)\<lparr>as_events := []\<rparr>"
    using 2(2) by (simp add: as_PullEvents_def)
  ultimately show ?thesis using v2(1) by metis
qed

lemma find_or_new_assignment_Inr:
  assumes "find_or_new_assignment P i s = (Inr l, s')" "inv s"
  shows "view s' = view s \<and> inv s' \<and> la_associateId l = i \<and> la_events l = []
    \<and> l = (case v_asg (view s) i of Some l0 \<Rightarrow> l0 | None \<Rightarrow> NewLaborAssignment i)"
proof -
  have q: "view s' = view s \<and> inv s'" using quietD [OF quiet_find_or_new assms] .
  from assms(1) obtain r s1 where 1: "FindByAssociateID P i s = (r, s1)"
    "(case r of Inr la \<Rightarrow> oret la | Inl e \<Rightarrow> if \<not> errors_is e ErrNotFound then ofail e
        else oret (NewLaborAssignment i)) s1 = (Inr l, s')"
    by (auto simp: find_or_new_assignment_def ocatch_app split: prod.splits)
  show ?thesis
  proof (cases r)
    case (Inl e)
    then show ?thesis using 1 q find_l_Inl [of i s e s1] assms(2)
      by (auto simp: NewLaborAssignment_def split: if_splits)
  next
    case (Inr l0)
    then show ?thesis using 1 q find_l_Inr [of i s l0 s1] assms(2) by auto
  qed
qed

lemma publish_last: "Publish P es s = (Inr (), s') \<Longrightarrow> body_inv s \<Longrightarrow> view s' = view s"
  by (rule body_e.publish_Inr)

lemma assign_body_Inr:
  assumes "assign_body P ch l s = (Inr (), s')" "body_inv s"
    and "\<And>a. ch = Some a \<Longrightarrow> as_associateId a = i" "la_associateId l = i"
  shows "\<exists>m. stored_asg l m \<and> v_asg (view s') = (v_asg (view s))(i \<mapsto> m) \<and> v_plan (view s') = v_plan (view s)
    \<and> (case ch of None \<Rightarrow> v_assoc (view s') = v_assoc (view s)
        | Some a \<Rightarrow> \<exists>b. stored_assoc a b \<and> v_assoc (view s') = (v_assoc (view s))(i \<mapsto> b))"
proof (cases ch)
  case None
  then obtain s1 where 1: "SaveAssignment P l s = (Inr (), s1)"
    "Publish P (fst (la_PullEvents l)) s1 = (Inr (), s')"
    using assms(1) by (auto simp: assign_body_def elim!: obind_InrE)
  obtain m where "stored_asg l m" "view s1 = (view s)\<lparr>v_asg := (v_asg (view s))(i \<mapsto> m)\<rparr>"
    using body_l.save_l_Inr [OF 1(1) assms(2)] assms(4) by auto
  then show ?thesis using None publish_last [OF 1(2) body_l.save_l_inv [OF 1(1) assms(2)]] by auto
next
  case (Some a)
  then obtain s0 s1 where 0: "SaveAssociate P a s = (Inr (), s0)" and 1: "SaveAssignment P l s0 = (Inr (), s1)"
    "Publish P (fst (la_PullEvents l)) s1 = (Inr (), s')"
    using assms(1) by (auto simp: assign_body_def elim!: obind_InrE)
  have i0: "body_inv s0" by (rule body_a.save_a_inv [OF 0 assms(2)])
  obtain b where b: "stored_assoc a b" "view s0 = (view s)\<lparr>v_assoc := (v_assoc (view s))(i \<mapsto> b)\<rparr>"
    using body_a.save_a_Inr [OF 0 assms(2)] assms(3) [OF Some] by auto
  obtain m where "stored_asg l m" "view s1 = (view s0)\<lparr>v_asg := (v_asg (view s0))(i \<mapsto> m)\<rparr>"
    using body_l.save_l_Inr [OF 1(1) i0] assms(4) by auto
  then show ?thesis using Some b publish_last [OF 1(2) body_l.save_l_inv [OF 1(1) i0]] by auto
qed

lemma assign_prepare_Inr:
  assumes "assign_prepare P mx i p s = (Inr (l', ch), s')" "inv s"
  shows "view s' = view s \<and> inv s' \<and> (\<exists>a l t. v_assoc (view s) i = Some a \<and> as_associateId a = i
    \<and> CanBeAssigned a = Inr ()
    \<and> l = (case v_asg (view s) i of Some l0 \<Rightarrow> l0 | None \<Rightarrow> NewLaborAssignment i) \<and> la_associateId l = i
    \<and> Assign l p (HasCertification a p) t = Inr l'
    \<and> log_closed mx a (length (la_history l)) l' t = Inr ch)"
proof -
  from assms(1) obtain a s1 l s2 t where *: "FindByID P i s = (Inr a, s1)" "CanBeAssigned a = Inr ()"
    "find_or_new_assignment P i s1 = (Inr l, s2)" "Assign l p (HasCertification a p) t = Inr l'"
    "log_closed mx a (length (la_history l)) l' t = Inr ch"
    by (auto simp: assign_prepare_def Let_def elim!: obind_InrE)
  have v1: "view s1 = view s" "inv s1" using find_a_frame [OF *(1) assms(2)] by auto
  show ?thesis
    using quietD [OF quiet_assign_prepare assms] find_a_Inr [OF *(1) assms(2)]
      find_or_new_assignment_Inr [OF *(3) v1(2)] v1(1) * by auto
qed

lemma Assign_id: "Assign l p h t = Inr l' \<Longrightarrow> la_associateId l' = la_associateId l"
  by (auto simp: domain_simps split: if_splits option.splits)

lemma log_closed_id: "log_closed mx a n l t = Inr (Some b) \<Longrightarrow> as_associateId b = as_associateId a"
  by (auto simp: log_closed_def map_sum_def dest!: shift_method_ids(4) split: if_splits sum.splits)

lemma AssignLabor_effect:
  assumes "AssignLabor_Execute P mx i p s = (Inr r, s')" "inv s"
  shows "inv s' \<and> (\<exists>a l t l' m ch. v_assoc (view s) i = Some a \<and> CanBeAssigned a = Inr ()
    \<and> l = (case v_asg (view s) i of Some l0 \<Rightarrow> l0 | None \<Rightarrow> NewLaborAssignment i)
    \<and> Assign l p (HasCertification a p) t = Inr l' \<and> r = l'\<lparr>la_events := []\<rparr> \<and> stored_asg l' m
    \<and> log_closed mx a (length (la_history l)) l' t = Inr ch
    \<and> v_asg (view s') = (v_asg (view s))(i \<mapsto> m) \<and> v_plan (view s') = v_plan (view s)
    \<and> (case ch of None \<Rightarrow> v_assoc (view s') = v_assoc (view s)
        | Some a' \<Rightarrow> \<exists>b. stored_assoc a' b \<and> v_assoc (view s') = (v_assoc (view s))(i \<mapsto> b)))"
proof -
  from assms(1) obtain l' ch s1 where 1: "assign_prepare P mx i p s = (Inr (l', ch), s1)"
    "atomically P (assign_body P ch l') s1 = (Inr (), s')" "r = l'\<lparr>la_events := []\<rparr>"
    by (auto simp: AssignLabor_Execute_def la_PullEvents_def elim!: obind_InrE)
  obtain a l t where 2: "view s1 = view s" "inv s1" "v_assoc (view s) i = Some a" "as_associateId a = i"
    "CanBeAssigned a = Inr ()" "l = (case v_asg (view s) i of Some l0 \<Rightarrow> l0 | None \<Rightarrow> NewLaborAssignment i)"
    "la_associateId l = i" "Assign l p (HasCertification a p) t = Inr l'"
    "log_closed mx a (length (la_history l)) l' t = Inr ch"
    using assign_prepare_Inr [OF 1(1) assms(2)] by blast
  obtain s2 s3 where 3: "inv s'" "view s2 = view s1" "body_inv s2" "assign_body P ch l' s2 = (Inr (), s3)"
    "view s' = view s3"
    using atomically_Inr [OF 1(2) inner_bodies(2) 2(2)] by blast
  have c: "as_associateId b = i" if "ch = Some b" for b
    using 2(4,9) log_closed_id that by blast
  have l': "la_associateId l' = i" using Assign_id [OF 2(8)] 2(7) by simp
  obtain m where 4: "stored_asg l' m" "v_asg (view s3) = (v_asg (view s2))(i \<mapsto> m)"
    "v_plan (view s3) = v_plan (view s2)"
    "case ch of None \<Rightarrow> v_assoc (view s3) = v_assoc (view s2)
        | Some a' \<Rightarrow> \<exists>b. stored_assoc a' b \<and> v_assoc (view s3) = (v_assoc (view s2))(i \<mapsto> b)"
    using assign_body_Inr [OF 3(4,3) c l'] by blast
  show ?thesis
    by (rule conjI [OF 3(1)], rule exI [of _ a], rule exI [of _ l], rule exI [of _ t], rule exI [of _ l'],
        rule exI [of _ m], rule exI [of _ ch])
      (use 1(3) 2 3(2,5) 4 in \<open>simp cong: option.case_cong\<close>)
qed

lemma end_body_Inr:
  assumes "end_body P ch a s = (Inr (), s')" "body_inv s"
    and "\<And>l. ch = Some l \<Longrightarrow> la_associateId l = i" "as_associateId a = i"
  shows "\<exists>b. stored_assoc a b \<and> v_assoc (view s') = (v_assoc (view s))(i \<mapsto> b) \<and> v_plan (view s') = v_plan (view s)
    \<and> (case ch of None \<Rightarrow> v_asg (view s') = v_asg (view s)
        | Some l \<Rightarrow> \<exists>m. stored_asg l m \<and> v_asg (view s') = (v_asg (view s))(i \<mapsto> m))"
proof -
  obtain s0 s1 where 0: "(case ch of Some la \<Rightarrow> SaveAssignment P la | None \<Rightarrow> oret ()) s = (Inr (), s0)"
    and 1: "SaveAssociate P a s0 = (Inr (), s1)" "Publish P (fst (as_PullEvents a)) s1 = (Inr (), s')"
    using assms(1) by (auto simp: end_body_def elim!: obind_InrE)
  have i0: "body_inv s0" using 0 body_l.save_l_inv [of _ s _ s0] assms(2) by (auto split: option.splits)
  obtain b where "stored_assoc a b" "view s1 = (view s0)\<lparr>v_assoc := (v_assoc (view s0))(i \<mapsto> b)\<rparr>"
    using body_a.save_a_Inr [OF 1(1) i0] assms(4) by auto
  moreover have "view s' = view s1" by (rule publish_last [OF 1(2) body_a.save_a_inv [OF 1(1) i0]])
  moreover have "v_assoc (view s0) = v_assoc (view s) \<and> v_plan (view s0) = v_plan (view s) \<and>
    (case ch of None \<Rightarrow> v_asg (view s0) = v_asg (view s)
        | Some l \<Rightarrow> \<exists>m. stored_asg l m \<and> v_asg (view s0) = (v_asg (view s))(i \<mapsto> m))"
    using 0 assms(2,3) by (cases ch) (auto dest!: body_l.save_l_Inr)
  ultimately show ?thesis by (auto cong: option.case_cong)
qed

lemma close_assignment_ids:
  assumes "close_assignment mx a la t = Inr (ch, sh)" "\<And>l. la = Some l \<Longrightarrow> la_associateId l = i"
  shows "as_associateId sh = as_associateId a \<and> (\<forall>l. ch = Some l \<longrightarrow> la_associateId l = i)"
  using assms shift_method_ids(4) [of a]
  by (auto simp: close_assignment_def EndActive_def closeActive_def map_sum_def
      split: option.splits sum.splits)

lemma EndAssociateShift_effect:
  assumes "EndAssociateShift_Execute P mx i s = (Inr (), s')" "inv s"
  shows "inv s' \<and> (\<exists>a t ch sh b. v_assoc (view s) i = Some a
    \<and> close_assignment mx a (v_asg (view s) i) t = Inr (ch, sh) \<and> stored_assoc (EndShift sh t) b
    \<and> v_assoc (view s') = (v_assoc (view s))(i \<mapsto> b) \<and> v_plan (view s') = v_plan (view s)
    \<and> (case ch of None \<Rightarrow> v_asg (view s') = v_asg (view s)
        | Some l \<Rightarrow> \<exists>m. stored_asg l m \<and> v_asg (view s') = (v_asg (view s))(i \<mapsto> m)))"
proof -
  from assms(1) obtain a s1 t s2 r s3 la ch sh where 1: "FindByID P i s = (Inr a, s1)" "onow P s1 = (Inr t, s2)"
    "FindByAssociateID P i s2 = (r, s3)"
    and la: "case r of Inr l \<Rightarrow> la = Some l | Inl e \<Rightarrow> la = None \<and> errors_is e ErrNotFound"
    and 2: "close_assignment mx a la t = Inr (ch, sh)"
      "atomically P (end_body P ch (EndShift sh t)) s3 = (Inr (), s')"
    unfolding EndAssociateShift_Execute_def
    by (auto elim!: obind_InrE simp: ocatch_app split: prod.splits sum.splits if_splits)
  have v1: "view s1 = view s" "inv s1" using find_a_frame [OF 1(1) assms(2)] by auto
  have v2: "view s2 = view s" "inv s2" using onow_Inr [OF 1(2) v1(2)] v1 by auto
  have v3: "view s3 = view s" "inv s3" using find_l_frame [OF 1(3) v2(2)] v2 by auto
  have a: "v_assoc (view s) i = Some a" "as_associateId a = i" using find_a_Inr [OF 1(1) assms(2)] by auto
  have l: "la = v_asg (view s) i" "\<And>l. la = Some l \<Longrightarrow> la_associateId l = i"
    using la find_l_Inr [of i s2] find_l_Inl [of i s2] 1(3) v2 by (auto split: sum.splits)
  have ids: "as_associateId (EndShift sh t) = i" "\<And>l. ch = Some l \<Longrightarrow> la_associateId l = i"
    using close_assignment_ids [OF 2(1) l(2)] a(2) shift_method_ids(5) by auto
  obtain s4 s5 where 4: "inv s'" "view s4 = view s3" "body_inv s4"
    "end_body P ch (EndShift sh t) s4 = (Inr (), s5)" "view s' = view s5"
    using atomically_Inr [OF 2(2) inner_bodies(3) v3(2)] by blast
  obtain b where "stored_assoc (EndShift sh t) b" "v_assoc (view s5) = (v_assoc (view s4))(i \<mapsto> b)"
    "v_plan (view s5) = v_plan (view s4)"
    "case ch of None \<Rightarrow> v_asg (view s5) = v_asg (view s4)
        | Some l \<Rightarrow> \<exists>m. stored_asg l m \<and> v_asg (view s5) = (v_asg (view s4))(i \<mapsto> m)"
    using end_body_Inr [OF 4(4,3) ids(2,1)] by blast
  then show ?thesis
    by (intro conjI 4(1), rule_tac exI [of _ a], rule_tac exI [of _ t], rule_tac exI [of _ ch],
        rule_tac exI [of _ sh], rule_tac exI [of _ b])
      (use a(1) 2(1) l(1) 4(2,5) v3(1) in \<open>simp cong: option.case_cong\<close>)
qed

text \<open>Committing a plan: \<open>lookup\<close> and \<open>cap\<close> are reads of the catalogue and the capacity ports.\<close>

lemma CommitShiftPlan_effect:
  assumes "CommitShiftPlan_Execute P (Some lookup) cap mx b sh lines stations s = (Inr sp, s')" "inv s"
    and "\<And>c. quiet (cap c)" "\<And>p. quiet (lookup p)"
  shows "inv s' \<and> (\<exists>inst t s1 sp0. capacities lookup cap lines Map.empty Map.empty s = (Inr inst, s1)
    \<and> CommitShiftPlan b sh lines stations inst mx t = Inr sp0 \<and> sp = sp0\<lparr>sp_events := []\<rparr>
    \<and> (\<exists>q. stored_plan sp q \<and> view s' = (view s)\<lparr>v_plan := (v_plan (view s))((b, sh) \<mapsto> q)\<rparr>))"
proof -
  from assms(1) obtain inst s1 t s2 sp0 where 1: "capacities lookup cap lines Map.empty Map.empty s = (Inr inst, s1)"
    "onow P s1 = (Inr t, s2)" "CommitShiftPlan b sh lines stations inst mx t = Inr sp0"
    "atomically P (commit_body P sp0) s2 = (Inr (), s')" "sp = sp0\<lparr>sp_events := []\<rparr>"
    by (auto simp: CommitShiftPlan_Execute_def sp_PullEvents_def elim!: obind_InrE)
  have v: "view s2 = view s" "inv s2"
    using quietD [OF quiet_capacities [OF assms(3,4)] 1(1) assms(2)] onow_Inr [OF 1(2)] by auto
  have k: "sp_buildingId sp0 = b" "sp_shiftId sp0 = sh"
    using 1(3) by (auto simp: CommitShiftPlan_def sp_record_def split: if_splits option.splits)
  obtain s3 s4 where 3: "inv s'" "view s3 = view s2" "body_inv s3" "commit_body P sp0 s3 = (Inr (), s4)"
    "view s' = view s4"
    using atomically_Inr [OF 1(4) inner_bodies(4) v(2)] by blast
  then obtain s5 where 5: "SaveShiftPlan P sp0 s3 = (Inr (), s5)" "Publish P (fst (sp_PullEvents sp0)) s5 = (Inr (), s4)"
    by (auto simp: commit_body_def elim!: obind_InrE)
  have "\<exists>q. stored_plan sp q \<and> view s' = (view s)\<lparr>v_plan := (v_plan (view s))((b, sh) \<mapsto> q)\<rparr>"
    using body_p.save_p_Inr [OF 5(1) 3(3)] publish_last [OF 5(2) body_p.save_p_inv [OF 5(1) 3(3)]] 3 v k 1(5)
    by (auto simp: stored_plan_def)
  then show ?thesis using 3(1) 1(1,3,5) by blast
qed

end

end
