(* ===== verification/Memory.thy ===== *)
theory Memory
  imports Ports
begin

text \<open>
  \<open>internal/adapters/outbound/memory\<close> and \<open>events.LogPublisher\<close>: the thread-safe in-memory
  repositories and the buffering publisher, over one record of their maps. Every method holds
  the repository's lock for its whole body, so each is one step. The clock is the list of the
  readings still to come.
\<close>

record mem =
  mem_assoc :: "(AssociateId, AssociateShift) gmap"
  mem_asg :: "(AssociateId, LaborAssignment) gmap"
  mem_plan :: "(string \<times> string, ShiftPlan) gmap"
  mem_log :: "DomainEvent list"
  mem_clock :: "time list"

definition mem_Save_assoc :: "AssociateShift \<Rightarrow> (mem, unit) op" where
  "mem_Save_assoc a = (\<lambda>s.
     let version = (case map_of (mem_assoc s) (as_associateId a) of
           Some existing \<Rightarrow> as_version existing + 1 | None \<Rightarrow> as_version a)
     in (Inr (), s\<lparr>mem_assoc := gput (as_associateId a)
           (RehydrateAssociate (as_associateId a) (as_certifications a) (as_onBreak a)
              (as_hoursLogged a) (as_ended a) version) (mem_assoc s)\<rparr>))"

definition mem_FindByID :: "AssociateId \<Rightarrow> (mem, AssociateShift) op" where
  "mem_FindByID i = (\<lambda>s. case map_of (mem_assoc s) i of
       None \<Rightarrow> (Inl (Sentinel ErrNotFound), s)
     | Some a \<Rightarrow> (Inr (RehydrateAssociate (as_associateId a) (as_certifications a) (as_onBreak a)
                   (as_hoursLogged a) (as_ended a) (as_version a)), s))"

definition snapshot :: "LaborAssignment \<Rightarrow> LaborAssignment" where
  "snapshot l =
     (let active = (case ActiveInterval l of (iv, True) \<Rightarrow> Some iv | (_, False) \<Rightarrow> None)
      in RehydrateAssignment (la_associateId l) active (la_history l) (la_version l))"

definition mem_Save_asg :: "LaborAssignment \<Rightarrow> (mem, unit) op" where
  "mem_Save_asg l = (\<lambda>s. (Inr (), s\<lparr>mem_asg := gput (la_associateId l) (snapshot l) (mem_asg s)\<rparr>))"

definition mem_FindByAssociateID :: "AssociateId \<Rightarrow> (mem, LaborAssignment) op" where
  "mem_FindByAssociateID i = (\<lambda>s. case map_of (mem_asg s) i of
       None \<Rightarrow> (Inl (Sentinel ErrNotFound), s)
     | Some l \<Rightarrow> (Inr (snapshot l), s))"

fun count_active :: "PathId \<Rightarrow> (AssociateId, LaborAssignment) gmap \<Rightarrow> int \<Rightarrow> int" where
  "count_active p [] n = n"
| "count_active p ((_, l) # m) n =
     (case ActivePathId l of (active, ok) \<Rightarrow>
        if ok \<and> active = p then count_active p m (n + 1) else count_active p m n)"

definition mem_CountActiveByPath :: "PathId \<Rightarrow> (mem, int) op" where
  "mem_CountActiveByPath p = (\<lambda>s. (Inr (count_active p (mem_asg s) 0), s))"

definition mem_Save_plan :: "ShiftPlan \<Rightarrow> (mem, unit) op" where
  "mem_Save_plan sp = (\<lambda>s. (Inr (), s\<lparr>mem_plan :=
     gput (sp_buildingId sp, sp_shiftId sp)
       (RehydratePlan (sp_buildingId sp) (sp_shiftId sp) (sp_lines sp)) (mem_plan s)\<rparr>))"

definition mem_FindByBuildingAndShift :: "string \<Rightarrow> string \<Rightarrow> (mem, ShiftPlan) op" where
  "mem_FindByBuildingAndShift b sh = (\<lambda>s. case map_of (mem_plan s) (b, sh) of
       None \<Rightarrow> (Inl (Sentinel ErrNotFound), s)
     | Some sp \<Rightarrow> (Inr (RehydratePlan (sp_buildingId sp) (sp_shiftId sp) (sp_lines sp)), s))"

definition log_Publish :: "DomainEvent list \<Rightarrow> (mem, unit) op" where
  "log_Publish es = (\<lambda>s. (Inr (), s\<lparr>mem_log := mem_log s @ es\<rparr>))"

definition mem_Now :: "mem \<Rightarrow> time \<times> mem" where
  "mem_Now s = (case mem_clock s of [] \<Rightarrow> (0, s) | t # ts \<Rightarrow> (t, s\<lparr>mem_clock := ts\<rparr>))"

definition mem_ports :: "mem ports" where
  "mem_ports = \<lparr>FindByID = mem_FindByID, SaveAssociate = mem_Save_assoc,
     FindByAssociateID = mem_FindByAssociateID, SaveAssignment = mem_Save_asg,
     CountActiveByPath = mem_CountActiveByPath, SaveShiftPlan = mem_Save_plan,
     FindByBuildingAndShift = mem_FindByBuildingAndShift, Publish = log_Publish,
     Now = mem_Now, UnitOfWork = None\<rparr>"

text \<open>\<open>events.MultiPublisher\<close>: every publisher in order, stopping at the first error.\<close>

fun multi_Publish :: "(DomainEvent list \<Rightarrow> ('s, unit) op) list \<Rightarrow> DomainEvent list \<Rightarrow> ('s, unit) op" where
  "multi_Publish [] es = oret ()"
| "multi_Publish (p # ps) es = obind (p es) (\<lambda>_. multi_Publish ps es)"

lemmas mem_defs [op_simps] =
  mem_Save_assoc_def mem_FindByID_def mem_Save_asg_def mem_FindByAssociateID_def
  mem_CountActiveByPath_def mem_Save_plan_def mem_FindByBuildingAndShift_def log_Publish_def mem_Now_def

section \<open>The contracts hold\<close>

definition mem_view :: "mem \<Rightarrow> wf_view" where
  "mem_view s = \<lparr>v_assoc = map_of (mem_assoc s), v_asg = map_of (mem_asg s), v_plan = map_of (mem_plan s)\<rparr>"

definition mem_inv :: "mem \<Rightarrow> bool" where
  "mem_inv s \<longleftrightarrow> gwf (mem_assoc s) \<and> gwf (mem_asg s) \<and> gwf (mem_plan s)
     \<and> (\<forall>i a. map_of (mem_assoc s) i = Some a \<longrightarrow> as_associateId a = i \<and> as_events a = [])
     \<and> (\<forall>i l. map_of (mem_asg s) i = Some l \<longrightarrow> la_associateId l = i \<and> la_events l = [])
     \<and> (\<forall>k sp. map_of (mem_plan s) k = Some sp \<longrightarrow>
          k = (sp_buildingId sp, sp_shiftId sp) \<and> sp_events sp = [])"

lemma snapshot_eq [simp]: "snapshot l = l\<lparr>la_events := []\<rparr>"
  by (cases "la_active l") (simp_all add: snapshot_def domain_simps)

lemma Rehydrate_id: "as_events a = [] \<Longrightarrow>
  RehydrateAssociate (as_associateId a) (as_certifications a) (as_onBreak a) (as_hoursLogged a)
    (as_ended a) (as_version a) = a"
  by (simp add: RehydrateAssociate_def)

lemma RehydratePlan_id: "RehydratePlan (sp_buildingId p) (sp_shiftId p) (sp_lines p) = p\<lparr>sp_events := []\<rparr>"
  by (simp add: RehydratePlan_def)

lemma stored_Rehydrate: "stored_assoc a (RehydrateAssociate (as_associateId a) (as_certifications a)
    (as_onBreak a) (as_hoursLogged a) (as_ended a) v)"
  unfolding stored_assoc_def RehydrateAssociate_def by (rule exI [of _ v]) (cases a, simp)

lemma la_events_id: "la_events l = [] \<Longrightarrow> l\<lparr>la_events := []\<rparr> = l"
  by simp

lemma stored_asg_snapshot: "stored_asg l (l\<lparr>la_events := []\<rparr>)"
  using stored_asg_refl [of l "la_version l"] by simp

lemma count_active_eq: "count_active p m n = n + int (length (filter (\<lambda>(_, l). active_on p l) m))"
  by (induction m arbitrary: n)
    (auto simp: active_on_def ActivePathId_def split: option.splits)

lemma count_active_card:
  "gwf m \<Longrightarrow> count_active p m 0 = int (card {i. \<exists>l. map_of m i = Some l \<and> active_on p l})"
  by (simp add: count_active_eq gwf_count)

lemma mem_Save_assoc_stored: "mem_Save_assoc a s = (Inr (), s') \<Longrightarrow> \<exists>b. stored_assoc a b \<and>
    mem_view s' = (mem_view s)\<lparr>v_assoc := (v_assoc (mem_view s))(as_associateId a \<mapsto> b)\<rparr>"
  by (rule exI, rule conjI, rule stored_Rehydrate [of a "case map_of (mem_assoc s) (as_associateId a) of
        Some existing \<Rightarrow> as_version existing + 1 | None \<Rightarrow> as_version a"])
    (auto simp: mem_Save_assoc_def mem_view_def Let_def)

lemma mem_Save_asg_stored: "mem_Save_asg l s = (Inr (), s') \<Longrightarrow> \<exists>m. stored_asg l m \<and>
    mem_view s' = (mem_view s)\<lparr>v_asg := (v_asg (mem_view s))(la_associateId l \<mapsto> m)\<rparr>"
  by (rule exI, rule conjI, rule stored_asg_snapshot [of l]) (auto simp: mem_Save_asg_def mem_view_def)

interpretation mem_associates: associate_repo mem_view mem_inv mem_FindByID mem_Save_assoc
proof unfold_locales
  fix a s s' assume "mem_Save_assoc a s = (Inr (), s')" "mem_inv s"
  then show "\<exists>b. stored_assoc a b \<and>
      mem_view s' = (mem_view s)\<lparr>v_assoc := (v_assoc (mem_view s))(as_associateId a \<mapsto> b)\<rparr>"
    by (simp only: mem_Save_assoc_stored)
qed (auto simp: mem_FindByID_def mem_view_def mem_inv_def Rehydrate_id RehydrateAssociate_def
      mem_Save_assoc_def [unfolded Let_def] split: option.splits if_splits)

interpretation mem_assignments: assignment_repo mem_view mem_inv mem_FindByAssociateID mem_Save_asg
  mem_CountActiveByPath
proof unfold_locales
  fix l s s' assume "mem_Save_asg l s = (Inr (), s')" "mem_inv s"
  then show "\<exists>m. stored_asg l m \<and>
      mem_view s' = (mem_view s)\<lparr>v_asg := (v_asg (mem_view s))(la_associateId l \<mapsto> m)\<rparr>"
    by (simp only: mem_Save_asg_stored)
qed (auto simp: mem_defs mem_view_def mem_inv_def count_active_card
      split: option.splits if_splits)

lemma mem_Save_plan_stored: "mem_Save_plan sp s = (Inr (), s') \<Longrightarrow> \<exists>q. stored_plan sp q \<and>
    mem_view s' = (mem_view s)\<lparr>v_plan := (v_plan (mem_view s))((sp_buildingId sp, sp_shiftId sp) \<mapsto> q)\<rparr>"
  by (rule exI [of _ "RehydratePlan (sp_buildingId sp) (sp_shiftId sp) (sp_lines sp)"])
    (auto simp: mem_Save_plan_def mem_view_def stored_plan_def RehydratePlan_def)

interpretation mem_plans: shift_plan_repo mem_view mem_inv mem_FindByBuildingAndShift mem_Save_plan
proof unfold_locales
  fix sp s s' assume "mem_Save_plan sp s = (Inr (), s')" "mem_inv s"
  then show "\<exists>q. stored_plan sp q \<and> mem_view s' = (mem_view s)\<lparr>v_plan :=
      (v_plan (mem_view s))((sp_buildingId sp, sp_shiftId sp) \<mapsto> q)\<rparr>"
    by (simp only: mem_Save_plan_stored)
qed (auto simp: mem_defs mem_view_def mem_inv_def RehydratePlan_def split: option.splits if_splits)

interpretation mem_publisher: event_publisher mem_view mem_inv log_Publish
  by unfold_locales (auto simp: mem_defs mem_view_def mem_inv_def)

interpretation mem_clock: clock_port mem_view mem_inv mem_Now
  by unfold_locales (auto simp: mem_defs mem_view_def mem_inv_def split: list.splits)

lemma multi_Publish_order:
  "multi_Publish (ps @ qs) es = obind (multi_Publish ps es) (\<lambda>_. multi_Publish qs es)"
  by (induction ps) (simp_all add: obind_assoc)

end
