(* ===== verification/Workforce.thy ===== *)
theory Workforce
  imports UseCaseLaws Memory
begin

text \<open>
  Every request the service answers, as one command type over one record of dependencies (what
  the composition root wires), and the invariant of the whole service that every command keeps,
  first over the ports' contracts and then on the in-memory adapters.
\<close>

datatype wf_cmd =
    CmdStart AssociateId "Certification list"
  | CmdCertify AssociateId Certification
  | CmdStartBreak AssociateId
  | CmdEndBreak AssociateId
  | CmdAssign AssociateId PathId
  | CmdEndShift AssociateId
  | CmdCommit string string "PathPlan list" "PathId \<rightharpoonup> int"
  | CmdPropose string PathId f64 f64
  | CmdGap string string PathId
  | CmdGapAll string string

record 's wf_deps =
  dp_ports :: "'s ports"
  dp_lookup :: "(string \<Rightarrow> ('s, PathDefinition) op) option"
  dp_capacity :: "Capability \<Rightarrow> ('s, int) op"
  dp_measured :: "(PathId \<Rightarrow> ('s, f64) op) option"
  dp_idle :: "(PathId \<Rightarrow> ('s, f64) op) option"
  dp_threshold :: f64
  dp_maxHours :: f64
  dp_plat :: "f64 \<Rightarrow> int"

definition done_with :: "('s, 'a) op \<Rightarrow> ('s, unit) op" where
  "done_with m = obind m (\<lambda>_. oret ())"

fun run_cmd :: "'s wf_deps \<Rightarrow> wf_cmd \<Rightarrow> ('s, unit) op" where
  "run_cmd D (CmdStart i certs) = done_with (StartAssociateShift_Execute (dp_ports D) i certs)"
| "run_cmd D (CmdCertify i c) = CertifyAssociate_Execute (dp_ports D) i c"
| "run_cmd D (CmdStartBreak i) = StartBreak_Execute (dp_ports D) i"
| "run_cmd D (CmdEndBreak i) = EndBreak_Execute (dp_ports D) i"
| "run_cmd D (CmdAssign i p) = done_with (AssignLabor_Execute (dp_ports D) (dp_maxHours D) i p)"
| "run_cmd D (CmdEndShift i) = EndAssociateShift_Execute (dp_ports D) (dp_maxHours D) i"
| "run_cmd D (CmdCommit b sh lines stations) = done_with
     (CommitShiftPlan_Execute (dp_ports D) (dp_lookup D) (dp_capacity D) (dp_maxHours D) b sh lines stations)"
| "run_cmd D (CmdPropose b p charge rate) = done_with
     (ProposePathPlan_Execute (dp_plat D) (dp_ports D) (dp_measured D) (dp_idle D) (dp_threshold D) b p charge rate)"
| "run_cmd D (CmdGap b sh p) = done_with (GetStaffingGap_Execute (dp_ports D) (dp_idle D) b sh p)"
| "run_cmd D (CmdGapAll b sh) = done_with (GetStaffingGap_ExecuteAll (dp_ports D) (dp_idle D) b sh)"

text \<open>A service that answers requests one after the other, whatever each of them returns.\<close>

fun run_cmds :: "'s wf_deps \<Rightarrow> wf_cmd list \<Rightarrow> 's \<Rightarrow> 's" where
  "run_cmds D [] s = s"
| "run_cmds D (c # cs) s = run_cmds D cs (snd (run_cmd D c s))"

section \<open>The invariant of the service\<close>

text \<open>
  Every shift's hours are within the limit; nobody whose shift ended is active on a path; and
  whoever is active on a path is on the roster.
\<close>

definition sys_inv :: "f64 \<Rightarrow> wf_view \<Rightarrow> bool" where
  "sys_inv mx V \<longleftrightarrow>
     (\<forall>i a. v_assoc V i = Some a \<longrightarrow> hours_ok mx a \<and>
        (as_ended a \<longrightarrow> (\<forall>l. v_asg V i = Some l \<longrightarrow> la_active l = None)))
     \<and> (\<forall>i l. v_asg V i = Some l \<longrightarrow> la_active l \<noteq> None \<longrightarrow> v_assoc V i \<noteq> None)"

lemma hours_ok_stored: "stored_assoc a b \<Longrightarrow> hours_ok mx b = hours_ok mx a"
  by (auto simp: stored_assoc_def hours_ok_def)

lemma stored_fields:
  "stored_assoc a b \<Longrightarrow> as_ended b = as_ended a"
  "stored_asg l m \<Longrightarrow> la_active m = None \<longleftrightarrow> la_active l = None"
  by (auto simp: stored_assoc_def stored_asg_def)

lemma sys_inv_put_assoc:
  assumes "sys_inv mx V" "hours_ok mx b"
    and "as_ended b \<Longrightarrow> (\<forall>l. v_asg V i = Some l \<longrightarrow> la_active l = None)"
  shows "sys_inv mx (V\<lparr>v_assoc := (v_assoc V)(i \<mapsto> b)\<rparr>)"
  using assms by (auto simp: sys_inv_def)

lemma sys_inv_cong:
  "v_assoc V = v_assoc W \<Longrightarrow> v_asg V = v_asg W \<Longrightarrow> sys_inv mx V = sys_inv mx W"
  by (simp add: sys_inv_def)

lemma sys_inv_assoc: "sys_inv mx V \<Longrightarrow> v_assoc V i = Some a \<Longrightarrow> hours_ok mx a"
  by (simp add: sys_inv_def)

lemma log_closed_hours:
  "log_closed mx a n l t = Inr (Some b) \<Longrightarrow> hours_ok mx b \<and> \<not> as_ended b"
  by (auto simp: log_closed_def map_sum_def LogHours_def hours_ok_def split: if_splits sum.splits)

lemma close_assignment_spec:
  assumes "close_assignment mx a la t = Inr (ch, sh)" "hours_ok mx a"
  shows "hours_ok mx sh \<and> (case ch of
      None \<Rightarrow> sh = a \<and> (\<forall>l. la = Some l \<longrightarrow> la_active l = None)
    | Some l' \<Rightarrow> la_active l' = None)"
  using assms
  by (auto simp: close_assignment_def EndActive_def closeActive_def map_sum_def LogHours_def hours_ok_def
      split: option.splits sum.splits if_splits)

lemma EndShift_spec: "hours_ok mx (EndShift a t) = hours_ok mx a" "as_ended (EndShift a t)"
  by (auto simp: EndShift_def as_record_def hours_ok_def)

text \<open>Results of \<open>done_with\<close>.\<close>

lemma done_with_cases:
  "done_with m s = (r, s') \<Longrightarrow> (\<exists>a. r = Inr () \<and> m s = (Inr a, s')) \<or> (\<exists>e. r = Inl e \<and> m s = (Inl e, s'))"
  by (auto simp: done_with_def elim!: obind_cases)

lemma done_with_Inr: "done_with m s = (Inr (), s') \<Longrightarrow> \<exists>a. m s = (Inr a, s')"
  using done_with_cases by fastforce

lemma done_with_Inl: "done_with m s = (Inl e, s') \<Longrightarrow> m s = (Inl e, s')"
  using done_with_cases by fastforce

context workforce
begin

lemma atomic_publish:
  assumes "atomically P (Publish P es) s = (r, s')" "inv s"
  shows "view s' = view s \<and> inv s'"
proof (cases r)
  case (Inl e)
  then show ?thesis using atomically_Inl [of _ s e s'] atomically_inv [of "Publish P es" s r s'] assms inner_publish by blast
next
  case (Inr u)
  then show ?thesis using atomically_Inr [of "Publish P es" s s'] assms inner_publish publish_last by force
qed

text \<open>Operations that keep the store's invariant, failing or not.\<close>

definition keeps :: "('s, 'x) op \<Rightarrow> bool" where
  "keeps m \<longleftrightarrow> (\<forall>s r s'. m s = (r, s') \<longrightarrow> inv s \<longrightarrow> inv s')"

lemma keepsD: "keeps m \<Longrightarrow> m s = (r, s') \<Longrightarrow> inv s \<Longrightarrow> inv s'"
  by (simp add: keeps_def)

lemma keeps_quiet: "quiet m \<Longrightarrow> keeps m"
  by (simp add: quiet_def keeps_def)

lemma keeps_obind: "keeps m \<Longrightarrow> (\<And>a. keeps (f a)) \<Longrightarrow> keeps (obind m f)"
  unfolding keeps_def by (metis (no_types, lifting) obind_cases)

lemma keeps_ocatch: "keeps m \<Longrightarrow> (\<And>a. keeps (f a)) \<Longrightarrow> keeps (ocatch m f)"
  unfolding keeps_def ocatch_def by (metis (no_types, lifting) case_prod_conv surj_pair)

lemma keeps_atomically: "inner f \<Longrightarrow> keeps (atomically P f)"
  unfolding keeps_def using atomically_inv by blast

lemmas keeps_intros = keeps_obind keeps_ocatch keeps_atomically keeps_quiet [OF quiet_pure(1)]
  keeps_quiet [OF quiet_pure(2)] keeps_quiet [OF quiet_pure(3)] keeps_quiet [OF quiet_ports(1)]
  keeps_quiet [OF quiet_ports(2)] keeps_quiet [OF quiet_ports(5)] inner_bodies inner_publish

lemma keeps_StartBreak: "keeps (StartBreak_Execute P i)"
  by (auto simp: StartBreak_Execute_def intro!: keeps_intros)

lemma keeps_EndBreak: "keeps (EndBreak_Execute P i)"
  by (auto simp: EndBreak_Execute_def intro!: keeps_intros)

lemma keeps_Certify: "keeps (CertifyAssociate_Execute P i c)"
  by (auto simp: CertifyAssociate_Execute_def intro!: keeps_intros)

lemma keeps_Start: "keeps (StartAssociateShift_Execute P i certs)"
  by (auto simp: StartAssociateShift_Execute_def Let_def intro!: keeps_intros split: sum.splits)

lemma keeps_Assign: "keeps (AssignLabor_Execute P mx i p)"
  by (auto simp: AssignLabor_Execute_def intro!: keeps_intros keeps_quiet [OF quiet_assign_prepare])

lemma keeps_EndShift: "keeps (EndAssociateShift_Execute P mx i)"
  by (auto simp: EndAssociateShift_Execute_def intro!: keeps_intros split: sum.splits)

lemma keeps_Commit:
  "(\<And>c. quiet (cap c)) \<Longrightarrow> (\<And>lookup p. cat = Some lookup \<Longrightarrow> quiet (lookup p)) \<Longrightarrow>
     keeps (CommitShiftPlan_Execute P cat cap mx b sh lines st)"
  by (auto simp: CommitShiftPlan_Execute_def intro!: keeps_intros keeps_quiet [OF quiet_capacities]
      split: option.splits)

lemmas keeps_done = keeps_obind [OF _ keeps_quiet [OF quiet_pure(1)]]

text \<open>The two use cases that only publish change no aggregate, whatever they return.\<close>

lemma quiet_publish: "quiet (atomically P (Publish P es))"
  unfolding quiet_def using atomic_publish by blast

lemma quiet_Propose:
  assumes "\<And>m p. mr = Some m \<Longrightarrow> quiet (m p)" "\<And>m p. idle = Some m \<Longrightarrow> quiet (m p)"
  shows "quiet (ProposePathPlan_Execute plat P mr idle th b p charge rate)"
  using assms
  by (auto simp: ProposePathPlan_Execute_def
      intro!: quiet_intros quiet_publish quiet_resolve quiet_trim)

lemma quiet_Gap: "(\<And>m p. idle = Some m \<Longrightarrow> quiet (m p)) \<Longrightarrow> quiet (GetStaffingGap_Execute P idle b sh p)"
  by (auto simp: GetStaffingGap_Execute_def intro!: quiet_intros quiet_publish quiet_gapForLine
      split: option.splits)

lemma quiet_GapAll: "(\<And>m p. idle = Some m \<Longrightarrow> quiet (m p)) \<Longrightarrow> quiet (GetStaffingGap_ExecuteAll P idle b sh)"
  by (auto simp: GetStaffingGap_ExecuteAll_def Let_def intro!: quiet_intros quiet_publish quiet_omapM
      quiet_gapForLine)

text \<open>What each writing use case does to the service's invariant.\<close>

lemma sys_inv_shift_change:
  assumes "sys_inv mx (view s)" "v_assoc (view s) i = Some a"
    and "stored_assoc a' b" "hours_ok mx a'" "\<not> as_ended a'"
  shows "sys_inv mx ((view s)\<lparr>v_assoc := (v_assoc (view s))(i \<mapsto> b)\<rparr>)"
  using assms by (intro sys_inv_put_assoc) (auto simp: hours_ok_stored stored_fields)

lemma sys_inv_StartBreak:
  assumes "inv s" "sys_inv mx (view s)" "StartBreak_Execute P i s = (Inr (), s')"
  shows "sys_inv mx (view s')"
proof -
  obtain a b where *: "v_assoc (view s) i = Some a" "\<not> as_ended a" "stored_assoc (a\<lparr>as_onBreak := True\<rparr>) b"
    "view s' = (view s)\<lparr>v_assoc := (v_assoc (view s))(i \<mapsto> b)\<rparr>"
    using StartBreak_effect [OF assms(3,1)] by blast
  show ?thesis unfolding *(4)
    by (rule sys_inv_shift_change [OF assms(2) *(1,3)])
      (use * sys_inv_assoc [OF assms(2) *(1)] in \<open>simp_all add: hours_ok_def\<close>)
qed

lemma sys_inv_EndBreak:
  assumes "inv s" "sys_inv mx (view s)" "EndBreak_Execute P i s = (Inr (), s')"
  shows "sys_inv mx (view s')"
proof -
  obtain a b where *: "v_assoc (view s) i = Some a" "\<not> as_ended a" "stored_assoc (a\<lparr>as_onBreak := False\<rparr>) b"
    "view s' = (view s)\<lparr>v_assoc := (v_assoc (view s))(i \<mapsto> b)\<rparr>"
    using EndBreak_effect [OF assms(3,1)] by blast
  show ?thesis unfolding *(4)
    by (rule sys_inv_shift_change [OF assms(2) *(1,3)])
      (use * sys_inv_assoc [OF assms(2) *(1)] in \<open>simp_all add: hours_ok_def\<close>)
qed

lemma sys_inv_Certify:
  assumes "inv s" "sys_inv mx (view s)" "CertifyAssociate_Execute P i c s = (Inr (), s')"
  shows "sys_inv mx (view s')"
proof -
  obtain a b where *: "v_assoc (view s) i = Some a" "\<not> as_ended a"
    "stored_assoc (a\<lparr>as_certifications := insert c (as_certifications a)\<rparr>) b"
    "view s' = (view s)\<lparr>v_assoc := (v_assoc (view s))(i \<mapsto> b)\<rparr>"
    using CertifyAssociate_effect [OF assms(3,1)] by blast
  show ?thesis unfolding *(4)
    by (rule sys_inv_shift_change [OF assms(2) *(1,3)])
      (use * sys_inv_assoc [OF assms(2) *(1)] in \<open>simp_all add: hours_ok_def\<close>)
qed

lemma sys_inv_Start:
  assumes "inv s" "sys_inv mx (view s)" "\<not> flt mx (Fin 0)"
    and "StartAssociateShift_Execute P i certs s = (Inr a, s')"
  shows "sys_inv mx (view s')"
proof -
  obtain t v b where b: "stored_assoc a b" "a = (SetVersion (NewAssociateShift i certs t) v)\<lparr>as_events := []\<rparr>"
    "view s' = (view s)\<lparr>v_assoc := (v_assoc (view s))(i \<mapsto> b)\<rparr>"
    using StartAssociateShift_effect [OF assms(4,1)] by blast
  have "hours_ok mx a" "\<not> as_ended a" using b(2) assms(3) by (simp_all add: domain_simps hours_ok_def)
  then show ?thesis
    unfolding b(3) using b(1) assms(2) by (intro sys_inv_put_assoc) (auto simp: hours_ok_stored stored_fields)
qed

lemma sys_inv_Assign:
  assumes "inv s" "sys_inv mx (view s)" "AssignLabor_Execute P mx i p s = (Inr r, s')"
  shows "sys_inv mx (view s')"
proof -
  obtain a t l' m ch and l :: LaborAssignment where *: "v_assoc (view s) i = Some a" "CanBeAssigned a = Inr ()"
    "log_closed mx a (length (la_history l)) l' t = Inr ch"
    "v_asg (view s') = (v_asg (view s))(i \<mapsto> m)"
    "case ch of None \<Rightarrow> v_assoc (view s') = v_assoc (view s)
        | Some a' \<Rightarrow> \<exists>b. stored_assoc a' b \<and> v_assoc (view s') = (v_assoc (view s))(i \<mapsto> b)"
    using AssignLabor_effect [OF assms(3,1)] by blast
  have open_a: "\<not> as_ended a" using *(2) by (auto simp: CanBeAssigned_def split: if_splits)
  show ?thesis
  proof (cases ch)
    case None
    then show ?thesis using assms(2) * open_a by (auto simp: sys_inv_def)
  next
    case (Some a')
    then obtain b where b: "stored_assoc a' b" "v_assoc (view s') = (v_assoc (view s))(i \<mapsto> b)"
      using *(5) by auto
    have "hours_ok mx b" "\<not> as_ended b"
      using log_closed_hours [of mx a _ l' t a'] *(3) Some b(1) by (auto simp: hours_ok_stored stored_fields)
    then show ?thesis using assms(2) * b by (auto simp: sys_inv_def)
  qed
qed

lemma sys_inv_EndShift:
  assumes "inv s" "sys_inv mx (view s)" "EndAssociateShift_Execute P mx i s = (Inr (), s')"
  shows "sys_inv mx (view s')"
proof -
  obtain a t ch sh b where *: "v_assoc (view s) i = Some a"
    "close_assignment mx a (v_asg (view s) i) t = Inr (ch, sh)" "stored_assoc (EndShift sh t) b"
    "v_assoc (view s') = (v_assoc (view s))(i \<mapsto> b)"
    "case ch of None \<Rightarrow> v_asg (view s') = v_asg (view s)
        | Some l \<Rightarrow> \<exists>m. stored_asg l m \<and> v_asg (view s') = (v_asg (view s))(i \<mapsto> m)"
    using EndAssociateShift_effect [OF assms(3,1)] by blast
  have c: "hours_ok mx sh" "case ch of None \<Rightarrow> sh = a \<and> (\<forall>l. v_asg (view s) i = Some l \<longrightarrow> la_active l = None)
      | Some l' \<Rightarrow> la_active l' = None"
    using close_assignment_spec [OF *(2)] sys_inv_assoc [OF assms(2) *(1)] by auto
  have "hours_ok mx b" using c(1) *(3) by (simp add: hours_ok_stored EndShift_spec)
  moreover have "\<forall>l. v_asg (view s') i = Some l \<longrightarrow> la_active l = None"
    using c(2) *(5) stored_fields(2) by (auto split: option.splits)
  moreover have "\<forall>j. j \<noteq> i \<longrightarrow> v_asg (view s') j = v_asg (view s) j"
    using *(5) by (auto split: option.splits)
  ultimately show ?thesis using assms(2) *(4) by (auto simp: sys_inv_def) (metis+)?
qed

end

text \<open>The commands, over any wiring whose read ports only read: a failing one changes nothing of \<open>vw\<close>.\<close>

locale tx_service = transactional vw inv P inner
  for vw :: "'s \<Rightarrow> 'v" and inv :: "'s \<Rightarrow> bool" and P :: "'s ports" and inner +
  fixes D :: "'s wf_deps"
  assumes dp_P: "dp_ports D = P"
    and lookup_quiet: "dp_lookup D = Some lk \<Longrightarrow> quiet (lk p)"
    and cap_quiet: "quiet (dp_capacity D c)"
    and measured_quiet: "dp_measured D = Some m \<Longrightarrow> quiet (m p)"
    and idle_quiet: "dp_idle D = Some m \<Longrightarrow> quiet (m p)"
begin

lemma run_cmd_fails:
  assumes "run_cmd D c s = (Inl e, s')" "inv s"
  shows "vw s' = vw s"
proof (cases c)
  case (CmdCommit b sh lines st)
  show ?thesis
    by (rule CommitShiftPlan_fails [OF done_with_Inl [OF assms(1) [unfolded CmdCommit run_cmd.simps dp_P]] assms(2)])
      (rule cap_quiet, rule lookup_quiet)
next
  case (CmdStart i certs)
  show ?thesis
    by (rule StartAssociateShift_fails [OF done_with_Inl [OF assms(1) [unfolded CmdStart run_cmd.simps dp_P]] assms(2)])
next
  case (CmdAssign i p)
  show ?thesis
    by (rule AssignLabor_fails [OF done_with_Inl [OF assms(1) [unfolded CmdAssign run_cmd.simps dp_P]] assms(2)])
next
  case (CmdCertify i x)
  show ?thesis by (rule CertifyAssociate_fails [OF assms(1) [unfolded CmdCertify run_cmd.simps dp_P] assms(2)])
next
  case (CmdStartBreak i)
  show ?thesis by (rule StartBreak_fails [OF assms(1) [unfolded CmdStartBreak run_cmd.simps dp_P] assms(2)])
next
  case (CmdEndBreak i)
  show ?thesis by (rule EndBreak_fails [OF assms(1) [unfolded CmdEndBreak run_cmd.simps dp_P] assms(2)])
next
  case (CmdEndShift i)
  show ?thesis by (rule EndAssociateShift_fails [OF assms(1) [unfolded CmdEndShift run_cmd.simps dp_P] assms(2)])
next
  case (CmdPropose b p charge rate)
  show ?thesis
    by (rule Propose_fails [OF done_with_Inl [OF assms(1) [unfolded CmdPropose run_cmd.simps dp_P]] assms(2)])
      (rule measured_quiet, assumption, rule idle_quiet, assumption)
next
  case (CmdGap b sh p)
  show ?thesis
    by (rule Gap_fails [OF done_with_Inl [OF assms(1) [unfolded CmdGap run_cmd.simps dp_P]] assms(2)])
      (rule idle_quiet, assumption)
next
  case (CmdGapAll b sh)
  show ?thesis
    by (rule GapAll_fails [OF done_with_Inl [OF assms(1) [unfolded CmdGapAll run_cmd.simps dp_P]] assms(2)])
      (rule idle_quiet, assumption)
qed

end

locale service = workforce view inv body_inv P inner + tx_service view inv P inner D
  for view :: "'s \<Rightarrow> wf_view" and inv :: "'s \<Rightarrow> bool" and body_inv :: "'s \<Rightarrow> bool"
    and P :: "'s ports" and inner and D :: "'s wf_deps" +
  assumes limit_nonneg: "\<not> flt (dp_maxHours D) (Fin 0)"
begin

lemma read_cmds_quiet:
  "quiet (ProposePathPlan_Execute (dp_plat D) P (dp_measured D) (dp_idle D) th b p ch rate)"
  "quiet (GetStaffingGap_Execute P (dp_idle D) b sh p)"
  "quiet (GetStaffingGap_ExecuteAll P (dp_idle D) b sh)"
  by (auto intro!: quiet_Propose quiet_Gap quiet_GapAll intro: measured_quiet idle_quiet)

lemma run_cmd_inv:
  assumes "run_cmd D c s = (r, s')" "inv s"
  shows "inv s'"
proof -
  have "keeps (run_cmd D c)"
    by (cases c)
      (auto simp: done_with_def dp_P intro!: keeps_done keeps_Start keeps_Certify keeps_StartBreak keeps_EndBreak
        keeps_Assign keeps_EndShift keeps_Commit keeps_quiet [OF read_cmds_quiet(1)] keeps_quiet [OF read_cmds_quiet(2)]
        keeps_quiet [OF read_cmds_quiet(3)] lookup_quiet cap_quiet)
  then show ?thesis using assms by (rule keepsD)
qed

lemma read_cmd:
  assumes "run_cmd D c s = (r, s')" "inv s"
    and "c = CmdPropose b p charge rate \<or> c = CmdGap b sh p \<or> c = CmdGapAll b sh"
  shows "view s' = view s"
proof -
  have "quiet (run_cmd D c)"
    using assms(3) read_cmds_quiet by (auto simp: done_with_def dp_P intro!: quiet_obind quiet_pure(1))
  then show ?thesis using quietD assms(1,2) by blast
qed

lemma run_cmd_succeeds:
  assumes "run_cmd D c s = (Inr (), s')" "inv s" "sys_inv (dp_maxHours D) (view s)"
  shows "sys_inv (dp_maxHours D) (view s')"
proof (cases c)
  case (CmdCommit b sh lines st)
  obtain sp where 1: "CommitShiftPlan_Execute P (dp_lookup D) (dp_capacity D) (dp_maxHours D) b sh lines st s = (Inr sp, s')"
    using done_with_Inr [OF assms(1) [unfolded CmdCommit run_cmd.simps dp_P]] by blast
  then obtain lk where lk: "dp_lookup D = Some lk"
    by (cases "dp_lookup D") (auto simp: CommitShiftPlan_Execute_def)
  have "v_assoc (view s') = v_assoc (view s) \<and> v_asg (view s') = v_asg (view s)"
    using CommitShiftPlan_effect [OF 1 [unfolded lk] assms(2) cap_quiet lookup_quiet [OF lk]] by auto
  then show ?thesis using assms(3) sys_inv_cong by metis
next
  case (CmdStart i certs)
  obtain a where "StartAssociateShift_Execute P i certs s = (Inr a, s')"
    using done_with_Inr [OF assms(1) [unfolded CmdStart run_cmd.simps dp_P]] by blast
  then show ?thesis by (rule sys_inv_Start [OF assms(2,3) limit_nonneg])
next
  case (CmdAssign i p)
  obtain l where "AssignLabor_Execute P (dp_maxHours D) i p s = (Inr l, s')"
    using done_with_Inr [OF assms(1) [unfolded CmdAssign run_cmd.simps dp_P]] by blast
  then show ?thesis by (rule sys_inv_Assign [OF assms(2,3)])
next
  case (CmdCertify i x)
  show ?thesis by (rule sys_inv_Certify [OF assms(2,3) assms(1) [unfolded CmdCertify run_cmd.simps dp_P]])
next
  case (CmdStartBreak i)
  show ?thesis by (rule sys_inv_StartBreak [OF assms(2,3) assms(1) [unfolded CmdStartBreak run_cmd.simps dp_P]])
next
  case (CmdEndBreak i)
  show ?thesis by (rule sys_inv_EndBreak [OF assms(2,3) assms(1) [unfolded CmdEndBreak run_cmd.simps dp_P]])
next
  case (CmdEndShift i)
  show ?thesis by (rule sys_inv_EndShift [OF assms(2,3) assms(1) [unfolded CmdEndShift run_cmd.simps dp_P]])
next
  case (CmdPropose b p charge rate)
  then have "view s' = view s" by (intro read_cmd [OF assms(1,2)]) simp
  then show ?thesis using assms(3) by simp
next
  case (CmdGap b sh p)
  then have "view s' = view s" by (intro read_cmd [OF assms(1,2)]) simp
  then show ?thesis using assms(3) by simp
next
  case (CmdGapAll b sh)
  then have "view s' = view s" by (intro read_cmd [OF assms(1,2)]) simp
  then show ?thesis using assms(3) by simp
qed

lemma run_cmd_sys_inv:
  assumes "run_cmd D c s = (r, s')" "inv s" "sys_inv (dp_maxHours D) (view s)"
  shows "sys_inv (dp_maxHours D) (view s')"
proof (cases r)
  case (Inl e)
  then show ?thesis using run_cmd_fails [of c s e s'] assms by simp
next
  case (Inr u)
  then show ?thesis using run_cmd_succeeds [of c s s'] assms by simp
qed

lemma run_cmds_sys_inv:
  "inv s \<Longrightarrow> sys_inv (dp_maxHours D) (view s) \<Longrightarrow>
     inv (run_cmds D cs s) \<and> sys_inv (dp_maxHours D) (view (run_cmds D cs s))"
proof (induction cs arbitrary: s)
  case (Cons c cs)
  obtain r s' where "run_cmd D c s = (r, s')" by fastforce
  then show ?case using Cons run_cmd_inv run_cmd_sys_inv by simp
qed simp

end

section \<open>The in-memory service\<close>

definition mem_inner :: "(mem, unit) op \<Rightarrow> bool" where
  "mem_inner f \<longleftrightarrow> (\<forall>s. \<exists>s'. f s = (Inr (), s') \<and> (mem_inv s \<longrightarrow> mem_inv s'))"

lemma mem_inner_inv: "mem_inner f \<Longrightarrow> mem_inv s \<Longrightarrow> f s = (u, s') \<Longrightarrow> mem_inv s'"
  unfolding mem_inner_def by (metis prod.inject)

lemma mem_inner_oret: "mem_inner (oret ())"
  by (simp add: mem_inner_def)

lemma mem_inner_total: "mem_inner f \<Longrightarrow> \<exists>s'. f s = (Inr (), s')"
  unfolding mem_inner_def by blast

lemma mem_inner_bind: "mem_inner f \<Longrightarrow> mem_inner g \<Longrightarrow> mem_inner (obind f (\<lambda>_. g))"
  unfolding mem_inner_def by (metis obind_Inr)

lemma mem_inner_saves:
  "mem_inner (mem_Save_assoc a)" "mem_inner (mem_Save_asg l)" "mem_inner (mem_Save_plan sp)"
  "mem_inner (log_Publish es)"
  using mem_associates.save_a_inv [of a] mem_assignments.save_l_inv [of l] mem_plans.save_p_inv [of sp]
    mem_publisher.publish_frame [of es]
  by (auto simp: mem_inner_def mem_Save_assoc_def mem_Save_asg_def mem_Save_plan_def log_Publish_def Let_def)

lemma mem_ports_sel [simp]:
  "FindByID mem_ports = mem_FindByID" "SaveAssociate mem_ports = mem_Save_assoc"
  "FindByAssociateID mem_ports = mem_FindByAssociateID" "SaveAssignment mem_ports = mem_Save_asg"
  "CountActiveByPath mem_ports = mem_CountActiveByPath" "SaveShiftPlan mem_ports = mem_Save_plan"
  "FindByBuildingAndShift mem_ports = mem_FindByBuildingAndShift" "Publish mem_ports = log_Publish"
  "Now mem_ports = mem_Now" "UnitOfWork mem_ports = None"
  by (simp_all add: mem_ports_def)

lemma mem_workforce: "workforce mem_view mem_inv mem_inv mem_ports mem_inner"
proof (rule workforce.intro)
  show "workforce_axioms mem_view mem_inv mem_inv mem_ports mem_inner"
    by (rule workforce_axioms.intro, assumption, erule (2) mem_inner_inv)
      (simp_all add: mem_inner_saves mem_inner_bind mem_inner_oret mem_inner_total)
qed (simp_all add: mem_associates.associate_repo_axioms mem_assignments.assignment_repo_axioms
    mem_plans.shift_plan_repo_axioms mem_publisher.event_publisher_axioms mem_clock.clock_port_axioms)

interpretation mem_wf: workforce mem_view mem_inv mem_inv mem_ports mem_inner
  by (rule mem_workforce)

text \<open>
  The in-memory service: the catalogue, the capacity and the rate clients answer by given
  functions (a permissive client is the one that always answers its sentinel).
\<close>

definition mem_deps ::
  "(string \<Rightarrow> err + PathDefinition) option \<Rightarrow> (Capability \<Rightarrow> err + int) \<Rightarrow> (PathId \<Rightarrow> err + f64) option \<Rightarrow>
     (PathId \<Rightarrow> err + f64) option \<Rightarrow> f64 \<Rightarrow> f64 \<Rightarrow> (f64 \<Rightarrow> int) \<Rightarrow> mem wf_deps" where
  "mem_deps lk cap mr idle th mx plat =
     \<lparr>dp_ports = mem_ports, dp_lookup = map_option (\<lambda>f p. olift (f p)) lk, dp_capacity = (\<lambda>c. olift (cap c)),
      dp_measured = map_option (\<lambda>f p. olift (f p)) mr, dp_idle = map_option (\<lambda>f p. olift (f p)) idle,
      dp_threshold = th, dp_maxHours = mx, dp_plat = plat\<rparr>"

lemma mem_service:
  assumes "\<not> flt mx (Fin 0)"
  shows "service mem_view mem_inv mem_inv mem_ports mem_inner (mem_deps lk cap mr idle th mx plat)"
  using assms
  by (auto intro!: service.intro service_axioms.intro tx_service.intro tx_service_axioms.intro mem_workforce
      simp: mem_deps_def mem_wf.quiet_pure mem_wf.transactional_axioms)

text \<open>The service with an eight-hour limit, the default of \<open>MAX_HOURS_PER_SHIFT\<close>.\<close>

interpretation mem_svc: service mem_view mem_inv mem_inv mem_ports mem_inner
  "mem_deps lk cap mr idle th (Fin 8) plat" for lk cap mr idle th plat
  by (rule mem_service) simp

definition mem_empty :: "time list \<Rightarrow> mem" where
  "mem_empty clock = \<lparr>mem_assoc = [], mem_asg = [], mem_plan = [], mem_log = [], mem_clock = clock\<rparr>"

lemma mem_empty_inv: "mem_inv (mem_empty ts)" "sys_inv mx (mem_view (mem_empty ts))"
  by (simp_all add: mem_empty_def mem_inv_def sys_inv_def mem_view_def)

definition demo_line :: PathPlan where
  "demo_line = \<lparr>pp_PathId = ''pack'', pp_PlannedHeads = 3, pp_PlannedRate = Fin 30, pp_PlannedHours = Fin 20\<rparr>"

definition demo_capacity :: "Capability \<Rightarrow> err + int" where
  "demo_capacity c = Inr (if c = ''scanner'' then 4 else 9)"

theorem commit_under_ceiling_witness:
  "\<exists>k. demo_capacity ''scanner'' = Inr k \<and> pp_PlannedHeads demo_line \<le> k"
proof -
  let ?m = "CommitShiftPlan_Execute mem_ports (Some (\<lambda>p. olift (Inr demo_path))) (\<lambda>c. olift (demo_capacity c)) (Fin 8)
    ''b'' ''s'' [demo_line] [''pack'' \<mapsto> 5] (mem_empty [0])"
  have "f64_of_int 3 = Fin 3" "fmul (Fin 3) (Fin 8) = Fin 24"
    using f64_of_int_small [of 3] flround_small [of 24] rnd_of_int_small [of 24] by simp_all
  then have "\<exists>sp s'. ?m = (Inr sp, s')"
    by (simp add: CommitShiftPlan_Execute_def obind_def ocatch_def installedCapacityForPath_def demo_path_def
        demo_capacity_def demo_line_def onow_def CommitShiftPlan_def check_line_def commit_body_def
        atomically_def mem_defs mem_empty_def domain_simps)
  then obtain sp s' where "?m = (Inr sp, s')" by blast
  from commit_under_ceiling [of mem_ports "\<lambda>_. Inr demo_path", OF this, of demo_line]
  show ?thesis by (auto simp: demo_path_def)
qed

end
