(* ===== verification/Postgres.thy ===== *)
theory Postgres
  imports Encode Workforce
begin

text \<open>
  \<open>internal/adapters/outbound/postgres\<close>: the repositories, the outbox publisher and the unit of
  work, over the tables of \<open>migrations/\<close>. The database is a record of tables; a connection is
  the committed database with, inside a transaction, the transaction's own copy and its aborted
  flag. Every statement, \<open>BEGIN\<close>, \<open>COMMIT\<close> and \<open>ROLLBACK\<close> may fail with any driver error: the
  script \<open>pg_faults\<close> says which do. A \<open>COMMIT\<close> that reports an error has not committed.
\<close>

section \<open>Tables\<close>

record assoc_row =
  ra_certifications :: "Certification set"
  ra_on_break :: bool
  ra_hours_logged :: f64
  ra_ended :: bool
  ra_version :: int

record asg_row =
  rl_active_path_id :: "PathId option"
  rl_active_start :: "time option"
  rl_version :: int

record hist_row =
  rh_associate_id :: AssociateId
  rh_path_id :: PathId
  rh_interval_start :: time
  rh_interval_end :: time

record path_row =
  rp_building_id :: string
  rp_shift_id :: string
  rp_path_id :: PathId
  rp_planned_heads :: int
  rp_planned_rate :: f64
  rp_planned_hours :: f64

record outbox_row =
  ob_id :: int
  ob_topic :: string
  ob_event_type :: string
  ob_key :: string
  ob_value :: string
  ob_headers :: json
  ob_created_at :: time
  ob_published_at :: "time option"
  ob_attempts :: int
  ob_last_error :: "err option"

text \<open>The history and the outbox are kept in the order of their serial ids.\<close>

record db =
  t_assoc :: "(AssociateId, assoc_row) gmap"
  t_asg :: "(AssociateId, asg_row) gmap"
  t_hist :: "hist_row list"
  t_plan :: "(string \<times> string) list"
  t_path :: "path_row list"
  t_outbox :: "outbox_row list"

record pg =
  pg_db :: db
  pg_tx :: "db option"
  pg_aborted :: bool
  pg_seq :: int
  pg_faults :: "string option list"
  pg_clock :: "time list"
  pg_ids :: "string list"
  pg_now :: time

section \<open>Statements and transactions\<close>

definition pg_fault :: "(pg, unit) op" where
  "pg_fault s = (case pg_faults s of
       [] \<Rightarrow> (Inr (), s)
     | None # fs \<Rightarrow> (Inr (), s\<lparr>pg_faults := fs\<rparr>)
     | Some txt # fs \<Rightarrow> (Inl (Other txt), s\<lparr>pg_faults := fs\<rparr>))"

text \<open>
  One statement through \<open>querierFrom\<close>: on the transaction bound to the context, or on the
  database itself. A failing statement aborts its transaction.
\<close>

definition pg_stmt :: "(db \<Rightarrow> err + 'a \<times> db) \<Rightarrow> (pg, 'a) op" where
  "pg_stmt q s = (case pg_tx s of
       None \<Rightarrow> (case pg_fault s of
           (Inl e, s) \<Rightarrow> (Inl e, s)
         | (Inr _, s) \<Rightarrow> (case q (pg_db s) of
               Inl e \<Rightarrow> (Inl e, s)
             | Inr (a, d) \<Rightarrow> (Inr a, s\<lparr>pg_db := d\<rparr>)))
     | Some d \<Rightarrow>
         if pg_aborted s then (Inl (Other ''current transaction is aborted''), s)
         else (case pg_fault s of
             (Inl e, s) \<Rightarrow> (Inl e, s\<lparr>pg_aborted := True\<rparr>)
           | (Inr _, s) \<Rightarrow> (case q d of
                 Inl e \<Rightarrow> (Inl e, s\<lparr>pg_aborted := True\<rparr>)
               | Inr (a, d) \<Rightarrow> (Inr a, s\<lparr>pg_tx := Some d\<rparr>))))"

definition pg_query :: "(db \<Rightarrow> 'a) \<Rightarrow> (pg, 'a) op" where
  "pg_query q = pg_stmt (\<lambda>d. Inr (q d, d))"

definition pg_Begin :: "(pg, unit) op" where
  "pg_Begin = obind pg_fault (\<lambda>_ s. (Inr (), s\<lparr>pg_tx := Some (pg_db s), pg_aborted := False\<rparr>))"

definition pg_closed :: "pg \<Rightarrow> pg" where
  "pg_closed s = s\<lparr>pg_tx := None, pg_aborted := False\<rparr>"

definition pg_Commit :: "(pg, unit) op" where
  "pg_Commit s = (case pg_tx s of
       None \<Rightarrow> (Inl (Sentinel ErrTxClosed), s)
     | Some d \<Rightarrow> (case pg_fault s of
           (Inl e, s) \<Rightarrow> (Inl e, pg_closed s)
         | (Inr _, s) \<Rightarrow>
             if pg_aborted s then (Inl (Other ''commit unexpectedly resulted in rollback''), pg_closed s)
             else (Inr (), pg_closed (s\<lparr>pg_db := d\<rparr>))))"

definition pg_Rollback :: "(pg, unit) op" where
  "pg_Rollback s = (case pg_tx s of
       None \<Rightarrow> (Inl (Sentinel ErrTxClosed), s)
     | Some _ \<Rightarrow> (case pg_fault s of (r, s) \<Rightarrow> (r, pg_closed s)))"

text \<open>
  \<open>beginOrJoin\<close> with the deferred rollback of its callers: inside a unit of work the body's
  statements simply join it; otherwise they get a transaction of their own.
\<close>

definition beginOrJoin :: "(pg, unit) op \<Rightarrow> (pg, unit) op" where
  "beginOrJoin body s =
     (if pg_tx s \<noteq> None then body s
      else obind pg_Begin (\<lambda>_ s. case body s of
          (Inl e, s) \<Rightarrow> (Inl e, snd (pg_Rollback s))
        | (Inr _, s) \<Rightarrow> (case pg_Commit s of (r, s) \<Rightarrow> (r, snd (pg_Rollback s)))) s)"

definition UnitOfWork_Execute :: "(pg, unit) op \<Rightarrow> (pg, unit) op" where
  "UnitOfWork_Execute f s =
     (if pg_tx s \<noteq> None then f s
      else (case pg_Begin s of
          (Inl e, s) \<Rightarrow> (Inl (Wrap ''postgres: begin unit of work'' e), s)
        | (Inr _, s) \<Rightarrow>
            (case (case f s of
                (Inl e, s) \<Rightarrow> (Inl e, s)
              | (Inr _, s) \<Rightarrow> (case pg_Commit s of
                    (Inl e, s) \<Rightarrow> (Inl (Wrap ''postgres: commit unit of work'' e), s)
                  | (Inr _, s) \<Rightarrow> (Inr (), s))) of
               (Inr _, s) \<Rightarrow> (Inr (), s)
             | (Inl e, s) \<Rightarrow> (case pg_Rollback s of
                   (Inl rb, s) \<Rightarrow>
                     if \<not> is_panic e \<and> \<not> errors_is rb ErrTxClosed
                     then (Inl (Joined [e, Wrap ''postgres: rollback unit of work'' rb]), s)
                     else (Inl e, s)
                 | (Inr _, s) \<Rightarrow> (Inl e, s)))))"

section \<open>Repositories\<close>

definition assoc_row_of :: "AssociateShift \<Rightarrow> int \<Rightarrow> assoc_row" where
  "assoc_row_of a v = \<lparr>ra_certifications = as_certifications a, ra_on_break = as_onBreak a,
     ra_hours_logged = as_hoursLogged a, ra_ended = as_ended a, ra_version = v\<rparr>"

text \<open>\<open>INSERT ... ON CONFLICT DO UPDATE ... WHERE version = $6\<close>: the number of rows affected.\<close>

definition upsert_assoc :: "AssociateShift \<Rightarrow> db \<Rightarrow> err + int \<times> db" where
  "upsert_assoc a d = (case map_of (t_assoc d) (as_associateId a) of
       None \<Rightarrow> Inr (1, d\<lparr>t_assoc := gput (as_associateId a) (assoc_row_of a 1) (t_assoc d)\<rparr>)
     | Some r \<Rightarrow>
         if ra_version r = as_version a
         then Inr (1, d\<lparr>t_assoc := gput (as_associateId a) (assoc_row_of a (ra_version r + 1)) (t_assoc d)\<rparr>)
         else Inr (0, d))"

definition pg_Save_assoc :: "AssociateShift \<Rightarrow> (pg, unit) op" where
  "pg_Save_assoc a = obind (pg_stmt (upsert_assoc a)) (\<lambda>rowsAffected.
     if rowsAffected = 0 then ofail (Sentinel ErrConcurrentModification) else oret ())"

definition pg_FindByID :: "AssociateId \<Rightarrow> (pg, AssociateShift) op" where
  "pg_FindByID i = obind (pg_query (\<lambda>d. map_of (t_assoc d) i)) (\<lambda>row. case row of
       None \<Rightarrow> ofail (Sentinel ErrNotFound)
     | Some r \<Rightarrow> oret (RehydrateAssociate i (ra_certifications r) (ra_on_break r) (ra_hours_logged r)
                        (ra_ended r) (ra_version r)))"

text \<open>A \<open>timestamptz\<close> keeps whole microseconds.\<close>

definition trunc_us :: "time \<Rightarrow> time" where
  "trunc_us t = t - t mod 1000"

definition asg_row_of :: "LaborAssignment \<Rightarrow> int \<Rightarrow> asg_row" where
  "asg_row_of l v = (case ActiveInterval l of
       (iv, True) \<Rightarrow> \<lparr>rl_active_path_id = Some (iv_PathId iv),
                      rl_active_start = Some (trunc_us (iv_Start iv)), rl_version = v\<rparr>
     | (_, False) \<Rightarrow> \<lparr>rl_active_path_id = None, rl_active_start = None, rl_version = v\<rparr>)"

definition upsert_asg :: "LaborAssignment \<Rightarrow> db \<Rightarrow> err + int \<times> db" where
  "upsert_asg l d = (case map_of (t_asg d) (la_associateId l) of
       None \<Rightarrow> Inr (1, d\<lparr>t_asg := gput (la_associateId l) (asg_row_of l 1) (t_asg d)\<rparr>)
     | Some r \<Rightarrow>
         if rl_version r = la_version l
         then Inr (1, d\<lparr>t_asg := gput (la_associateId l) (asg_row_of l (rl_version r + 1)) (t_asg d)\<rparr>)
         else Inr (0, d))"

definition delete_hist :: "AssociateId \<Rightarrow> db \<Rightarrow> err + unit \<times> db" where
  "delete_hist i d = Inr ((), d\<lparr>t_hist := filter (\<lambda>h. rh_associate_id h \<noteq> i) (t_hist d)\<rparr>)"

text \<open>\<open>interval_end\<close> is \<open>NOT NULL\<close>.\<close>

definition insert_hist :: "AssociateId \<Rightarrow> Interval \<Rightarrow> db \<Rightarrow> err + unit \<times> db" where
  "insert_hist i iv d = (case iv_End iv of
       None \<Rightarrow> Inl (Other ''null value in column interval_end'')
     | Some e \<Rightarrow> Inr ((), d\<lparr>t_hist := t_hist d @ [\<lparr>rh_associate_id = i, rh_path_id = iv_PathId iv,
                   rh_interval_start = trunc_us (iv_Start iv), rh_interval_end = trunc_us e\<rparr>]\<rparr>))"

fun pg_each :: "('x \<Rightarrow> db \<Rightarrow> err + unit \<times> db) \<Rightarrow> 'x list \<Rightarrow> (pg, unit) op" where
  "pg_each q [] = oret ()"
| "pg_each q (x # xs) = obind (pg_stmt (q x)) (\<lambda>_. pg_each q xs)"

definition pg_Save_asg :: "LaborAssignment \<Rightarrow> (pg, unit) op" where
  "pg_Save_asg l = beginOrJoin (
     obind (pg_stmt (upsert_asg l)) (\<lambda>rowsAffected.
     if rowsAffected = 0 then ofail (Sentinel ErrConcurrentModification)
     else obind (pg_stmt (delete_hist (la_associateId l))) (\<lambda>_.
       pg_each (insert_hist (la_associateId l)) (la_history l))))"

definition hist_interval :: "hist_row \<Rightarrow> Interval" where
  "hist_interval h = \<lparr>iv_PathId = rh_path_id h, iv_Start = rh_interval_start h, iv_End = Some (rh_interval_end h)\<rparr>"

definition pg_FindByAssociateID :: "AssociateId \<Rightarrow> (pg, LaborAssignment) op" where
  "pg_FindByAssociateID i = obind (pg_query (\<lambda>d. map_of (t_asg d) i)) (\<lambda>row. case row of
       None \<Rightarrow> ofail (Sentinel ErrNotFound)
     | Some r \<Rightarrow>
         let active = (case (rl_active_path_id r, rl_active_start r) of
               (Some p, Some t) \<Rightarrow> Some \<lparr>iv_PathId = p, iv_Start = t, iv_End = None\<rparr>
             | _ \<Rightarrow> None)
         in obind (pg_query (\<lambda>d. map hist_interval (filter (\<lambda>h. rh_associate_id h = i) (t_hist d)))) (\<lambda>history.
            oret (RehydrateAssignment i active history (rl_version r))))"

definition pg_CountActiveByPath :: "PathId \<Rightarrow> (pg, int) op" where
  "pg_CountActiveByPath p =
     pg_query (\<lambda>d. int (length (filter (\<lambda>(_, r). rl_active_path_id r = Some p) (t_asg d))))"

definition insert_plan :: "ShiftPlan \<Rightarrow> db \<Rightarrow> err + unit \<times> db" where
  "insert_plan sp d = Inr ((),
     if (sp_buildingId sp, sp_shiftId sp) \<in> set (t_plan d) then d
     else d\<lparr>t_plan := (sp_buildingId sp, sp_shiftId sp) # t_plan d\<rparr>)"

definition plan_rows :: "string \<Rightarrow> string \<Rightarrow> path_row \<Rightarrow> bool" where
  "plan_rows b sh r \<longleftrightarrow> rp_building_id r = b \<and> rp_shift_id r = sh"

definition delete_paths :: "string \<Rightarrow> string \<Rightarrow> db \<Rightarrow> err + unit \<times> db" where
  "delete_paths b sh d = Inr ((), d\<lparr>t_path := filter (\<lambda>r. \<not> plan_rows b sh r) (t_path d)\<rparr>)"

text \<open>\<open>path_plan\<close>: the primary key is the plan with the path, and \<open>planned_heads\<close> an \<open>INTEGER\<close>.\<close>

definition insert_path :: "string \<Rightarrow> string \<Rightarrow> PathPlan \<Rightarrow> db \<Rightarrow> err + unit \<times> db" where
  "insert_path b sh line d =
     (if list_ex (\<lambda>r. plan_rows b sh r \<and> rp_path_id r = pp_PathId line) (t_path d)
      then Inl (Other ''duplicate key value violates unique constraint path_plan_pkey'')
      else if pp_PlannedHeads line < - (2 ^ 31) \<or> pp_PlannedHeads line \<ge> 2 ^ 31
      then Inl (Other ''value is out of range for int4'')
      else Inr ((), d\<lparr>t_path := t_path d @ [\<lparr>rp_building_id = b, rp_shift_id = sh, rp_path_id = pp_PathId line,
             rp_planned_heads = pp_PlannedHeads line, rp_planned_rate = pp_PlannedRate line,
             rp_planned_hours = pp_PlannedHours line\<rparr>]\<rparr>))"

definition pg_Save_plan :: "ShiftPlan \<Rightarrow> (pg, unit) op" where
  "pg_Save_plan sp = beginOrJoin (
     obind (pg_stmt (insert_plan sp)) (\<lambda>_.
     obind (pg_stmt (delete_paths (sp_buildingId sp) (sp_shiftId sp))) (\<lambda>_.
     pg_each (insert_path (sp_buildingId sp) (sp_shiftId sp)) (sp_lines sp))))"

definition row_line :: "path_row \<Rightarrow> PathPlan" where
  "row_line r = \<lparr>pp_PathId = rp_path_id r, pp_PlannedHeads = rp_planned_heads r,
     pp_PlannedRate = rp_planned_rate r, pp_PlannedHours = rp_planned_hours r\<rparr>"

text \<open>The query has no \<open>ORDER BY\<close>: \<open>ord\<close> is the order in which the server returns the rows.\<close>

definition pg_FindByBuildingAndShift ::
  "(path_row list \<Rightarrow> path_row list) \<Rightarrow> string \<Rightarrow> string \<Rightarrow> (pg, ShiftPlan) op" where
  "pg_FindByBuildingAndShift ord b sh =
     obind (pg_query (\<lambda>d. (b, sh) \<in> set (t_plan d))) (\<lambda>exist.
     if \<not> exist then ofail (Sentinel ErrNotFound)
     else obind (pg_query (\<lambda>d. map row_line (ord (filter (plan_rows b sh) (t_path d))))) (\<lambda>lines.
       oret (RehydratePlan b sh lines)))"

section \<open>The outbox publisher\<close>

definition marshalHeaders :: "headers \<Rightarrow> json" where
  "marshalHeaders hs = JArr (map (\<lambda>(k, v). JObj [(''key'', JStr k), (''value'', JStr v)]) hs)"

fun header_of :: "json \<Rightarrow> (string \<times> string) option" where
  "header_of (JObj kvs) =
     (let str = (\<lambda>f. case map_of kvs f of None \<Rightarrow> Some '''' | Some (JStr x) \<Rightarrow> Some x | Some JNull \<Rightarrow> Some ''''
                    | Some _ \<Rightarrow> None)
      in case (str ''key'', str ''value'') of (Some k, Some v) \<Rightarrow> Some (k, v) | _ \<Rightarrow> None)"
| "header_of JNull = Some ('''', '''')"
| "header_of _ = None"

fun unmarshalHeaders :: "json \<Rightarrow> err + headers" where
  "unmarshalHeaders (JArr js) =
     (if list_all (\<lambda>j. header_of j \<noteq> None) js then Inr (map (\<lambda>j. the (header_of j)) js)
      else Inl (Other ''json: cannot unmarshal''))"
| "unmarshalHeaders JNull = Inr []"
| "unmarshalHeaders _ = Inl (Other ''json: cannot unmarshal'')"

text \<open>The serial id is drawn outside the transaction: a rolled-back insert leaves a gap.\<close>

definition outbox_insert :: "Encoded \<Rightarrow> (pg, unit) op" where
  "outbox_insert m s =
     pg_stmt (\<lambda>d. Inr ((), d\<lparr>t_outbox := t_outbox d @ [\<lparr>ob_id = pg_seq s, ob_topic = en_Topic m,
         ob_event_type = en_EventType m, ob_key = en_Key m, ob_value = en_Value m,
         ob_headers = marshalHeaders (en_Headers m), ob_created_at = pg_now s, ob_published_at = None,
         ob_attempts = 0, ob_last_error = None\<rparr>]\<rparr>)) (s\<lparr>pg_seq := pg_seq s + 1\<rparr>)"

fun outbox_insert_all :: "Encoded list \<Rightarrow> (pg, unit) op" where
  "outbox_insert_all [] = oret ()"
| "outbox_insert_all (m # ms) = ocatch (outbox_insert m) (\<lambda>r. case r of
       Inl e \<Rightarrow> ofail (Wrap (''postgres: enqueue outbox event '' @ en_EventType m @ '' for '' @ en_Topic m) e)
     | Inr _ \<Rightarrow> outbox_insert_all ms)"

fun outbox_encoders :: "(DomainEvent list \<Rightarrow> (pg, Encoded list) op) list \<Rightarrow> DomainEvent list \<Rightarrow> (pg, unit) op" where
  "outbox_encoders [] es = oret ()"
| "outbox_encoders (enc # encs) es = ocatch (enc es) (\<lambda>r. case r of
       Inl e \<Rightarrow> ofail (if is_panic e then e else Wrap ''postgres: encode outbox events'' e)
     | Inr ms \<Rightarrow> obind (outbox_insert_all ms) (\<lambda>_. outbox_encoders encs es))"

definition OutboxPublisher_Publish ::
  "(DomainEvent list \<Rightarrow> (pg, Encoded list) op) list \<Rightarrow> DomainEvent list \<Rightarrow> (pg, unit) op" where
  "OutboxPublisher_Publish encoders es = (if es = [] then oret () else outbox_encoders encoders es)"

section \<open>The wiring of the service on Postgres\<close>

definition pg_Now :: "pg \<Rightarrow> time \<times> pg" where
  "pg_Now s = (case pg_clock s of [] \<Rightarrow> (0, s) | t # ts \<Rightarrow> (t, s\<lparr>pg_clock := ts\<rparr>))"

definition pg_mint :: "pg mint" where
  "pg_mint s = (case pg_ids s of [] \<Rightarrow> ('''', s) | i # is \<Rightarrow> (i, s\<lparr>pg_ids := is\<rparr>))"

definition pg_encoders ::
  "sdk \<Rightarrow> (string \<times> string) list \<Rightarrow> (path_row list \<Rightarrow> path_row list) \<Rightarrow> (DomainEvent list \<Rightarrow> (pg, Encoded list) op) list" where
  "pg_encoders k trace ord =
     [Publisher_Encode k pg_mint trace (pg_FindByBuildingAndShift ord), Analytics_Encode k pg_mint trace]"

definition pg_ports :: "sdk \<Rightarrow> (string \<times> string) list \<Rightarrow> (path_row list \<Rightarrow> path_row list) \<Rightarrow> pg ports" where
  "pg_ports k trace ord = \<lparr>FindByID = pg_FindByID, SaveAssociate = pg_Save_assoc,
     FindByAssociateID = pg_FindByAssociateID, SaveAssignment = pg_Save_asg,
     CountActiveByPath = pg_CountActiveByPath, SaveShiftPlan = pg_Save_plan,
     FindByBuildingAndShift = pg_FindByBuildingAndShift ord,
     Publish = OutboxPublisher_Publish (pg_encoders k trace ord),
     Now = pg_Now, UnitOfWork = Some UnitOfWork_Execute\<rparr>"

section \<open>What a statement does\<close>

text \<open>The database as the current context sees it.\<close>

definition cur :: "pg \<Rightarrow> db" where
  "cur s = (case pg_tx s of None \<Rightarrow> pg_db s | Some d \<Rightarrow> d)"

text \<open>Everything a statement may touch besides the tables it sees.\<close>

definition same_conn :: "pg \<Rightarrow> pg \<Rightarrow> bool" where
  "same_conn s s' \<longleftrightarrow> (pg_tx s' = None \<longleftrightarrow> pg_tx s = None) \<and> (pg_tx s \<noteq> None \<longrightarrow> pg_db s' = pg_db s)"

lemma same_conn_refl [simp]: "same_conn s s"
  by (simp add: same_conn_def)

lemma same_conn_trans: "same_conn s t \<Longrightarrow> same_conn t u \<Longrightarrow> same_conn s u"
  by (auto simp: same_conn_def)

lemma pg_fault_cases:
  assumes "pg_fault s = (r, s')"
  shows "pg_db s' = pg_db s \<and> pg_tx s' = pg_tx s \<and> pg_aborted s' = pg_aborted s
    \<and> (\<forall>e t. r = Inl e \<longrightarrow> \<not> errors_is e t)"
  using assms by (auto simp: pg_fault_def split: list.splits option.splits)

lemma pg_stmt_cases:
  assumes "pg_stmt q s = (r, s')"
  shows "same_conn s s' \<and> (case r of
      Inl e \<Rightarrow> cur s' = cur s \<and> ((\<forall>t. \<not> errors_is e t) \<or> q (cur s) = Inl e)
    | Inr a \<Rightarrow> q (cur s) = Inr (a, cur s'))"
proof (cases "pg_tx s")
  case None
  then show ?thesis
    using assms by (auto simp: pg_stmt_def cur_def same_conn_def dest!: pg_fault_cases
        split: prod.splits sum.splits)
next
  case (Some d)
  then show ?thesis
    using assms by (auto simp: pg_stmt_def cur_def same_conn_def dest!: pg_fault_cases
        split: prod.splits sum.splits if_splits)
qed

lemma pg_query_cases:
  assumes "pg_query q s = (r, s')"
  shows "same_conn s s' \<and> cur s' = cur s \<and> (case r of Inl e \<Rightarrow> \<forall>t. \<not> errors_is e t | Inr a \<Rightarrow> a = q (cur s))"
  using pg_stmt_cases [OF assms [unfolded pg_query_def]] by (auto split: sum.splits)

section \<open>Operations that keep a property of the database\<close>

definition pg_keeps :: "(db \<Rightarrow> bool) \<Rightarrow> (pg, 'a) op \<Rightarrow> bool" where
  "pg_keeps Q m \<longleftrightarrow> (\<forall>s r s'. m s = (r, s') \<longrightarrow> same_conn s s' \<and> (Q (cur s) \<longrightarrow> Q (cur s')))"

lemma pg_keepsD: "pg_keeps Q m \<Longrightarrow> m s = (r, s') \<Longrightarrow> same_conn s s' \<and> (Q (cur s) \<longrightarrow> Q (cur s'))"
  by (simp add: pg_keeps_def)

lemma pg_keeps_pure: "pg_keeps Q (oret a)" "pg_keeps Q (ofail e)" "pg_keeps Q (olift r)" "pg_keeps Q (Pair r)"
  by (simp_all add: pg_keeps_def)

lemma pg_keeps_stmt: "(\<And>d a d'. Q d \<Longrightarrow> q d = Inr (a, d') \<Longrightarrow> Q d') \<Longrightarrow> pg_keeps Q (pg_stmt q)"
  unfolding pg_keeps_def by (auto dest!: pg_stmt_cases split: sum.splits)

lemma pg_keeps_query: "pg_keeps Q (pg_query q)"
  unfolding pg_query_def by (rule pg_keeps_stmt) auto

lemma pg_keeps_obind: "pg_keeps Q m \<Longrightarrow> (\<And>a. pg_keeps Q (f a)) \<Longrightarrow> pg_keeps Q (obind m f)"
  unfolding pg_keeps_def by (blast elim!: obind_cases intro: same_conn_trans)

lemma pg_keeps_ocatch: "pg_keeps Q m \<Longrightarrow> (\<And>a. pg_keeps Q (f a)) \<Longrightarrow> pg_keeps Q (ocatch m f)"
  unfolding pg_keeps_def ocatch_def
  by (auto split: prod.splits) (blast intro: same_conn_trans)+

lemma pg_keeps_each: "(\<And>x d a d'. Q d \<Longrightarrow> q x d = Inr (a, d') \<Longrightarrow> Q d') \<Longrightarrow> pg_keeps Q (pg_each q xs)"
  by (induction xs) (auto intro!: pg_keeps_pure pg_keeps_obind pg_keeps_stmt)

lemma pg_Begin_cases:
  assumes "pg_Begin s = (r, s')" "pg_tx s = None"
  shows "pg_db s' = pg_db s \<and> (case r of Inl e \<Rightarrow> pg_tx s' = None \<and> (\<forall>t. \<not> errors_is e t)
    | Inr _ \<Rightarrow> pg_tx s' = Some (pg_db s) \<and> \<not> pg_aborted s')"
  using assms by (auto simp: pg_Begin_def elim!: obind_cases dest!: pg_fault_cases)

lemma pg_Commit_cases:
  assumes "pg_Commit s = (r, s')" "pg_tx s = Some d"
  shows "pg_tx s' = None \<and> (case r of Inl e \<Rightarrow> pg_db s' = pg_db s | Inr _ \<Rightarrow> pg_db s' = d)"
  using assms by (auto simp: pg_Commit_def pg_closed_def dest!: pg_fault_cases split: prod.splits sum.splits if_splits)

lemma pg_Rollback_cases:
  assumes "pg_Rollback s = (r, s')"
  shows "pg_tx s' = None \<and> pg_db s' = pg_db s"
  using assms by (auto simp: pg_Rollback_def pg_closed_def dest!: pg_fault_cases split: prod.splits option.splits)

lemma beginOrJoin_own:
  assumes "beginOrJoin body s = (r, s')" "pg_tx s = None" "pg_keeps Q body"
  shows "pg_tx s' = None \<and> (case r of Inl e \<Rightarrow> pg_db s' = pg_db s
    | Inr _ \<Rightarrow> \<exists>s0 s1. cur s0 = pg_db s \<and> body s0 = (Inr (), s1) \<and> pg_db s' = cur s1)"
proof -
  from assms(1,2) consider (nobegin) e where "pg_Begin s = (Inl e, s')" "r = Inl e"
    | (begun) s0 r1 s1 where "pg_Begin s = (Inr (), s0)" "body s0 = (r1, s1)"
      "(case r1 of Inl e \<Rightarrow> (Inl e, snd (pg_Rollback s1))
        | Inr _ \<Rightarrow> (case pg_Commit s1 of (r, s) \<Rightarrow> (r, snd (pg_Rollback s)))) = (r, s')"
    by (auto simp: beginOrJoin_def elim!: obind_cases split: prod.splits sum.splits)
  then show ?thesis
  proof cases
    case nobegin
    then show ?thesis using pg_Begin_cases [OF nobegin(1) assms(2)] by simp
  next
    case begun
    have b: "pg_db s0 = pg_db s" "pg_tx s0 = Some (pg_db s)" using pg_Begin_cases [OF begun(1) assms(2)] by auto
    have k: "pg_db s1 = pg_db s" "pg_tx s1 \<noteq> None"
      using pg_keepsD [OF assms(3) begun(2)] b by (auto simp: same_conn_def)
    then obtain d where d: "pg_tx s1 = Some d" by auto
    show ?thesis
    proof (cases r1)
      case (Inl e)
      obtain rr s2 where "pg_Rollback s1 = (rr, s2)" by fastforce
      then show ?thesis using begun(3) Inl pg_Rollback_cases [of s1 rr s2] k by auto
    next
      case (Inr u)
      obtain rc s2 where c: "pg_Commit s1 = (rc, s2)" by fastforce
      obtain rr s3 where rb: "pg_Rollback s2 = (rr, s3)" by fastforce
      have "s' = s3" "r = rc" using begun(3) Inr c rb by auto
      moreover have "pg_tx s3 = None" "pg_db s3 = pg_db s2" using pg_Rollback_cases [OF rb] by auto
      moreover have "case rc of Inl e \<Rightarrow> pg_db s2 = pg_db s1 | Inr _ \<Rightarrow> pg_db s2 = d"
        using pg_Commit_cases [OF c d] by auto
      moreover have "cur s0 = pg_db s" "cur s1 = d" using b d by (simp_all add: cur_def)
      moreover have "body s0 = (Inr (), s1)" using begun(2) Inr by simp
      ultimately show ?thesis using k(1) by (cases rc) auto
    qed
  qed
qed

lemma beginOrJoin_Inr:
  assumes "beginOrJoin body s = (Inr (), s')" "pg_keeps Q body"
  shows "\<exists>s0 s1. cur s0 = cur s \<and> body s0 = (Inr (), s1) \<and> cur s' = cur s1"
proof (cases "pg_tx s")
  case None
  then show ?thesis using beginOrJoin_own [OF assms(1) None assms(2)] by (auto simp: cur_def)
next
  case (Some d)
  then have "body s = (Inr (), s')" using assms(1) by (simp add: beginOrJoin_def)
  then show ?thesis by blast
qed

lemma pg_keeps_beginOrJoin:
  assumes "pg_keeps Q body"
  shows "pg_keeps Q (beginOrJoin body)"
  unfolding pg_keeps_def
proof (intro allI impI)
  fix s r s' assume a: "beginOrJoin body s = (r, s')"
  show "same_conn s s' \<and> (Q (cur s) \<longrightarrow> Q (cur s'))"
  proof (cases "pg_tx s")
    case None
    show ?thesis
    proof (cases r)
      case (Inl e)
      then show ?thesis using beginOrJoin_own [OF a None assms] None by (simp add: same_conn_def cur_def)
    next
      case (Inr u)
      then obtain s0 s1 where "cur s0 = pg_db s" "body s0 = (Inr (), s1)" "pg_db s' = cur s1" "pg_tx s' = None"
        using beginOrJoin_own [OF a None assms] by auto
      then show ?thesis using pg_keepsD [OF assms, of s0] None by (simp add: same_conn_def cur_def)
    qed
  next
    case (Some d)
    then have "body s = (r, s')" using a by (simp add: beginOrJoin_def)
    then show ?thesis using pg_keepsD [OF assms] by blast
  qed
qed

lemmas pg_keeps_intros = pg_keeps_pure pg_keeps_obind pg_keeps_ocatch pg_keeps_query pg_keeps_beginOrJoin

section \<open>The abstract view and the invariant\<close>

definition row_ok :: "asg_row \<Rightarrow> bool" where
  "row_ok r \<longleftrightarrow> (rl_active_path_id r = None \<longleftrightarrow> rl_active_start r = None)"

definition db_inv :: "db \<Rightarrow> bool" where
  "db_inv d \<longleftrightarrow> gwf (t_assoc d) \<and> gwf (t_asg d) \<and> (\<forall>i r. map_of (t_asg d) i = Some r \<longrightarrow> row_ok r)"

definition pg_body_inv :: "pg \<Rightarrow> bool" where
  "pg_body_inv s \<longleftrightarrow> db_inv (cur s) \<and> db_inv (pg_db s)"

definition pg_inv :: "pg \<Rightarrow> bool" where
  "pg_inv s \<longleftrightarrow> db_inv (pg_db s) \<and> pg_tx s = None"

definition active_of :: "asg_row \<Rightarrow> Interval option" where
  "active_of r = (case (rl_active_path_id r, rl_active_start r) of
     (Some p, Some t) \<Rightarrow> Some \<lparr>iv_PathId = p, iv_Start = t, iv_End = None\<rparr> | _ \<Rightarrow> None)"

definition hist_of :: "AssociateId \<Rightarrow> db \<Rightarrow> Interval list" where
  "hist_of i d = map hist_interval (filter (\<lambda>h. rh_associate_id h = i) (t_hist d))"

definition db_view :: "(path_row list \<Rightarrow> path_row list) \<Rightarrow> db \<Rightarrow> wf_view" where
  "db_view ord d = \<lparr>
     v_assoc = (\<lambda>i. map_option (\<lambda>r. RehydrateAssociate i (ra_certifications r) (ra_on_break r)
        (ra_hours_logged r) (ra_ended r) (ra_version r)) (map_of (t_assoc d) i)),
     v_asg = (\<lambda>i. map_option (\<lambda>r. RehydrateAssignment i (active_of r) (hist_of i d) (rl_version r)) (map_of (t_asg d) i)),
     v_plan = (\<lambda>(b, sh). if (b, sh) \<in> set (t_plan d)
        then Some (RehydratePlan b sh (map row_line (ord (filter (plan_rows b sh) (t_path d))))) else None)\<rparr>"

definition pg_view :: "(path_row list \<Rightarrow> path_row list) \<Rightarrow> pg \<Rightarrow> wf_view" where
  "pg_view ord s = db_view ord (cur s)"

lemma pg_inv_body: "pg_inv s \<Longrightarrow> pg_body_inv s"
  by (simp add: pg_inv_def pg_body_inv_def cur_def)

lemma keeps_body_inv: "pg_keeps db_inv m \<Longrightarrow> m s = (r, s') \<Longrightarrow> pg_body_inv s \<Longrightarrow> pg_body_inv s'"
  by (cases "pg_tx s") (auto simp: pg_body_inv_def same_conn_def cur_def dest!: pg_keepsD split: option.splits)

lemma keeps_inv: "pg_keeps db_inv m \<Longrightarrow> m s = (r, s') \<Longrightarrow> pg_inv s \<Longrightarrow> pg_inv s'"
  by (auto simp: pg_inv_def same_conn_def cur_def dest!: pg_keepsD)

section \<open>The contracts hold\<close>

lemma keeps_reads:
  "pg_keeps Q (pg_FindByID i)" "pg_keeps Q (pg_FindByAssociateID i)" "pg_keeps Q (pg_CountActiveByPath p)"
  "pg_keeps Q (pg_FindByBuildingAndShift ord b sh)"
  unfolding pg_FindByID_def pg_FindByAssociateID_def pg_CountActiveByPath_def pg_FindByBuildingAndShift_def
  by (auto intro!: pg_keeps_intros simp: Let_def split: option.splits)

lemma reads_cur: "(\<And>Q. pg_keeps Q m) \<Longrightarrow> m s = (r, s') \<Longrightarrow> cur s' = cur s"
  using pg_keepsD [of "\<lambda>d. d = cur s" m s r s'] by simp

lemma reads_frame: "(\<And>Q. pg_keeps Q m) \<Longrightarrow> m s = (r, s') \<Longrightarrow> pg_view ord s' = pg_view ord s"
  using reads_cur [of m s r s'] by (simp add: pg_view_def)

lemma db_inv_asg_row_of: "row_ok (asg_row_of l v)"
  by (cases "la_active l") (simp_all add: row_ok_def asg_row_of_def domain_simps)

lemma keeps_Save_assoc: "pg_keeps db_inv (pg_Save_assoc a)"
  unfolding pg_Save_assoc_def
  by (auto intro!: pg_keeps_intros pg_keeps_stmt simp: upsert_assoc_def db_inv_def split: option.splits if_splits)

lemma keeps_Save_asg: "pg_keeps db_inv (pg_Save_asg l)"
  unfolding pg_Save_asg_def
  by (auto intro!: pg_keeps_intros pg_keeps_stmt pg_keeps_each
      simp: upsert_asg_def delete_hist_def insert_hist_def db_inv_def db_inv_asg_row_of
      split: option.splits if_splits)

lemma keeps_Save_plan: "pg_keeps db_inv (pg_Save_plan sp)"
  unfolding pg_Save_plan_def
  by (auto intro!: pg_keeps_intros pg_keeps_stmt pg_keeps_each
      simp: insert_plan_def delete_paths_def insert_path_def db_inv_def split: if_splits)

text \<open>The outbox is no part of the view: publishing keeps it, and the invariant.\<close>

definition outbox_free :: "(db \<Rightarrow> bool) \<Rightarrow> bool" where
  "outbox_free Q \<longleftrightarrow> (\<forall>d x. Q (d\<lparr>t_outbox := x\<rparr>) = Q d)"

lemma outbox_free_view: "outbox_free (\<lambda>d. db_inv d \<and> db_view ord d = V)" "outbox_free db_inv"
  by (simp_all add: outbox_free_def db_inv_def db_view_def hist_of_def case_prod_unfold cong: if_cong)

lemma keeps_outbox_insert: "outbox_free Q \<Longrightarrow> pg_keeps Q (outbox_insert m)"
  unfolding pg_keeps_def outbox_insert_def
proof (intro allI impI)
  fix s :: pg and r s'
  let ?row = "\<lparr>ob_id = pg_seq s, ob_topic = en_Topic m, ob_event_type = en_EventType m, ob_key = en_Key m,
    ob_value = en_Value m, ob_headers = marshalHeaders (en_Headers m), ob_created_at = pg_now s,
    ob_published_at = None, ob_attempts = 0, ob_last_error = None\<rparr>"
  assume Q: "outbox_free Q" and
    st: "pg_stmt (\<lambda>d. Inr ((), d\<lparr>t_outbox := t_outbox d @ [?row]\<rparr>)) (s\<lparr>pg_seq := pg_seq s + 1\<rparr>) = (r, s')"
  have c: "cur (s\<lparr>pg_seq := pg_seq s + 1\<rparr>) = cur s" by (simp add: cur_def cong: option.case_cong)
  have "same_conn s s'" using pg_stmt_cases [OF st] by (simp add: same_conn_def)
  moreover have "cur s' = cur s \<or> (\<exists>x. cur s' = (cur s)\<lparr>t_outbox := x\<rparr>)"
    using pg_stmt_cases [OF st] c by (auto split: sum.splits) metis
  ultimately show "same_conn s s' \<and> (Q (cur s) \<longrightarrow> Q (cur s'))" using Q by (auto simp: outbox_free_def)
qed

lemma keeps_outbox_insert_all: "outbox_free Q \<Longrightarrow> pg_keeps Q (outbox_insert_all ms)"
  by (induction ms) (auto intro!: pg_keeps_intros keeps_outbox_insert split: sum.splits)

lemma keeps_outbox_encoders:
  "outbox_free Q \<Longrightarrow> (\<And>enc. enc \<in> set encs \<Longrightarrow> pg_keeps Q (enc es)) \<Longrightarrow> pg_keeps Q (outbox_encoders encs es)"
  by (induction encs) (auto intro!: pg_keeps_intros keeps_outbox_insert_all split: sum.splits)

lemma keeps_mint: "pg_keeps Q (omint pg_mint)"
  by (auto simp: pg_keeps_def omint_def pg_mint_def same_conn_def cur_def split: prod.splits list.splits option.splits)

lemma keeps_encode_lines: "pg_keeps Q (encode_lines k pg_mint trace t b sh lines)"
  by (induction lines) (auto intro!: pg_keeps_intros keeps_mint split: sum.splits)

lemma keeps_Publisher_Encode:
  "pg_keeps Q (Publisher_Encode k pg_mint trace (pg_FindByBuildingAndShift ord) es)"
proof (induction es)
  case (Cons e es)
  then show ?case
    by (cases e) (auto intro!: pg_keeps_intros keeps_reads keeps_encode_lines split: sum.splits)
qed (simp add: pg_keeps_pure)

lemma keeps_Analytics_Encode: "pg_keeps Q (Analytics_Encode k pg_mint trace es)"
  by (induction es) (auto intro!: pg_keeps_intros keeps_mint simp: Let_def split: sum.splits)

lemma keeps_Publish:
  "outbox_free Q \<Longrightarrow> pg_keeps Q (OutboxPublisher_Publish (pg_encoders k trace ord) es)"
  unfolding OutboxPublisher_Publish_def
  by (simp only: pg_keeps_pure if_split, intro conjI impI keeps_outbox_encoders)
    (auto simp: pg_encoders_def keeps_Publisher_Encode keeps_Analytics_Encode pg_keeps_pure)

lemma keeps_Now: "onow P = (\<lambda>s. case pg_Now s of (t, s') \<Rightarrow> (Inr t, s')) \<Longrightarrow> pg_keeps Q (onow P)"
  by (auto simp: pg_keeps_def pg_Now_def same_conn_def cur_def split: list.splits option.splits)

text \<open>What a successful save leaves in the tables.\<close>

lemma pg_Save_assoc_Inr:
  assumes "pg_Save_assoc a s = (Inr (), s')"
  shows "\<exists>v. cur s' = (cur s)\<lparr>t_assoc := gput (as_associateId a) (assoc_row_of a v) (t_assoc (cur s))\<rparr>"
  using assms
  by (auto simp: pg_Save_assoc_def upsert_assoc_def elim!: obind_InrE dest!: pg_stmt_cases
      split: option.splits if_splits) (metis+)

lemma assoc_row_stored:
  "stored_assoc a (RehydrateAssociate (as_associateId a) (ra_certifications (assoc_row_of a v))
     (ra_on_break (assoc_row_of a v)) (ra_hours_logged (assoc_row_of a v)) (ra_ended (assoc_row_of a v))
     (ra_version (assoc_row_of a v)))"
  using stored_Rehydrate [of a v] by (simp add: assoc_row_of_def)

lemma pg_Save_assoc_view:
  assumes "pg_Save_assoc a s = (Inr (), s')"
  shows "\<exists>b. stored_assoc a b \<and>
    pg_view ord s' = (pg_view ord s)\<lparr>v_assoc := (v_assoc (pg_view ord s))(as_associateId a \<mapsto> b)\<rparr>"
proof -
  obtain v where v: "cur s' = (cur s)\<lparr>t_assoc := gput (as_associateId a) (assoc_row_of a v) (t_assoc (cur s))\<rparr>"
    using pg_Save_assoc_Inr [OF assms] by blast
  show ?thesis
    by (rule exI, rule conjI [OF assoc_row_stored [of a v]])
      (simp add: v pg_view_def db_view_def hist_of_def fun_eq_iff)
qed

fun run_each :: "('x \<Rightarrow> db \<Rightarrow> err + unit \<times> db) \<Rightarrow> 'x list \<Rightarrow> db \<Rightarrow> err + db" where
  "run_each q [] d = Inr d"
| "run_each q (x # xs) d = (case q x d of Inl e \<Rightarrow> Inl e | Inr (_, d) \<Rightarrow> run_each q xs d)"

lemma pg_each_Inr: "pg_each q xs s = (Inr (), s') \<Longrightarrow> run_each q xs (cur s) = Inr (cur s')"
  by (induction xs arbitrary: s) (auto elim!: obind_InrE dest!: pg_stmt_cases)

definition hist_row_of :: "AssociateId \<Rightarrow> Interval \<Rightarrow> hist_row" where
  "hist_row_of i iv = \<lparr>rh_associate_id = i, rh_path_id = iv_PathId iv, rh_interval_start = trunc_us (iv_Start iv),
     rh_interval_end = trunc_us (the (iv_End iv))\<rparr>"

lemma run_insert_hist:
  "run_each (insert_hist i) ivs d = Inr d' \<Longrightarrow>
     d' = d\<lparr>t_hist := t_hist d @ map (hist_row_of i) ivs\<rparr> \<and> (\<forall>iv \<in> set ivs. iv_End iv \<noteq> None)"
  by (induction ivs arbitrary: d) (fastforce simp: insert_hist_def hist_row_of_def split: option.splits sum.splits)+

lemma near_trunc: "near t (trunc_us t)"
  by (simp add: near_def trunc_us_def)

lemma trunc_us_rounds: "rounds_down trunc_us"
  using demo_us_rounds by (simp add: rounds_down_def demo_us_def trunc_us_def)

lemma hist_row_same: "iv_End iv \<noteq> None \<Longrightarrow> same_interval iv (hist_interval (hist_row_of i iv))"
  by (auto simp: same_interval_def same_start_def hist_interval_def hist_row_of_def near_trunc)

lemma asg_row_same: "rel_option same_start (la_active l) (active_of (asg_row_of l v))"
  by (cases "la_active l") (simp_all add: asg_row_of_def active_of_def domain_simps same_start_def near_trunc)

lemma pg_Save_asg_Inr:
  assumes "pg_Save_asg l s = (Inr (), s')"
  shows "\<exists>v. cur s' = (cur s)\<lparr>t_asg := gput (la_associateId l) (asg_row_of l v) (t_asg (cur s)),
      t_hist := filter (\<lambda>h. rh_associate_id h \<noteq> la_associateId l) (t_hist (cur s))
        @ map (hist_row_of (la_associateId l)) (la_history l)\<rparr>
    \<and> (\<forall>iv \<in> set (la_history l). iv_End iv \<noteq> None)"
proof -
  have k: "pg_keeps (\<lambda>_. True) (obind (pg_stmt (upsert_asg l)) (\<lambda>rowsAffected.
     if rowsAffected = 0 then ofail (Sentinel ErrConcurrentModification)
     else obind (pg_stmt (delete_hist (la_associateId l))) (\<lambda>_.
       pg_each (insert_hist (la_associateId l)) (la_history l))))"
    by (auto intro!: pg_keeps_intros pg_keeps_stmt pg_keeps_each)
  from beginOrJoin_Inr [OF assms [unfolded pg_Save_asg_def] k]
  obtain s0 s1 s2 s3 n where *: "cur s0 = cur s" "upsert_asg l (cur s0) = Inr (n, cur s1)" "n \<noteq> 0"
    "delete_hist (la_associateId l) (cur s1) = Inr ((), cur s2)"
    "run_each (insert_hist (la_associateId l)) (la_history l) (cur s2) = Inr (cur s3)" "cur s' = cur s3"
    by (fastforce elim!: obind_InrE dest!: pg_stmt_cases pg_each_Inr split: if_splits)
  obtain v where "cur s1 = (cur s)\<lparr>t_asg := gput (la_associateId l) (asg_row_of l v) (t_asg (cur s))\<rparr>"
    using *(1-3) by (auto simp: upsert_asg_def split: option.splits if_splits) (metis+)
  moreover have "cur s2 = (cur s1)\<lparr>t_hist := filter (\<lambda>h. rh_associate_id h \<noteq> la_associateId l) (t_hist (cur s1))\<rparr>"
    using *(4) by (simp add: delete_hist_def)
  ultimately show ?thesis using *(6) run_insert_hist [OF *(5)] by (auto intro: exI [of _ v])
qed

lemma pg_Save_asg_view:
  assumes "pg_Save_asg l s = (Inr (), s')"
  shows "\<exists>m. stored_asg l m \<and>
    pg_view ord s' = (pg_view ord s)\<lparr>v_asg := (v_asg (pg_view ord s))(la_associateId l \<mapsto> m)\<rparr>"
proof -
  let ?i = "la_associateId l" and ?h = "map hist_interval (map (hist_row_of (la_associateId l)) (la_history l))"
  obtain v where v: "cur s' = (cur s)\<lparr>t_asg := gput ?i (asg_row_of l v) (t_asg (cur s)),
      t_hist := filter (\<lambda>h. rh_associate_id h \<noteq> ?i) (t_hist (cur s)) @ map (hist_row_of ?i) (la_history l)\<rparr>"
    and e: "\<forall>iv \<in> set (la_history l). iv_End iv \<noteq> None"
    using pg_Save_asg_Inr [OF assms] by blast
  have h: "hist_of j (cur s') = (if j = ?i then ?h else hist_of j (cur s))" for j
    by (auto simp: v hist_of_def hist_row_of_def filter_map o_def intro!: arg_cong [where f = "map hist_interval"]
        intro: filter_cong)
  have "list_all2 same_interval (la_history l) ?h"
    using e by (induction "la_history l") (auto simp: list_all2_conv_all_nth hist_row_same)
  then have "stored_asg l (RehydrateAssignment ?i (active_of (asg_row_of l v)) ?h (rl_version (asg_row_of l v)))"
    by (simp add: stored_asg_def RehydrateAssignment_def asg_row_same)
  moreover have "pg_view ord s' = (pg_view ord s)\<lparr>v_asg := (v_asg (pg_view ord s))(?i \<mapsto>
      RehydrateAssignment ?i (active_of (asg_row_of l v)) ?h (rl_version (asg_row_of l v)))\<rparr>"
    unfolding pg_view_def db_view_def by (auto simp: h fun_eq_iff) (auto simp: v)
  ultimately show ?thesis by blast
qed

text \<open>A saved assignment is loaded as \<open>reload\<close> says, its times to the microsecond.\<close>

lemma pg_Save_asg_reload:
  assumes "pg_Save_asg l s = (Inr (), s')" "\<forall>iv. la_active l = Some iv \<longrightarrow> iv_End iv = None"
  shows "\<exists>v. v_asg (pg_view ord s') (la_associateId l) = Some (reload trunc_us v l)"
proof -
  let ?i = "la_associateId l"
  obtain v where v: "cur s' = (cur s)\<lparr>t_asg := gput ?i (asg_row_of l v) (t_asg (cur s)),
      t_hist := filter (\<lambda>h. rh_associate_id h \<noteq> ?i) (t_hist (cur s)) @ map (hist_row_of ?i) (la_history l)\<rparr>"
    and e: "\<forall>iv \<in> set (la_history l). iv_End iv \<noteq> None"
    using pg_Save_asg_Inr [OF assms(1)] by blast
  have "hist_of ?i (cur s') = map (\<lambda>iv. hist_interval (hist_row_of ?i iv)) (la_history l)"
    by (simp add: v hist_of_def hist_row_of_def filter_map o_def)
  also have "\<dots> = map (reload_interval trunc_us) (la_history l)"
    using e by (auto simp: hist_interval_def hist_row_of_def reload_interval_def)
  finally have "hist_of ?i (cur s') = map (reload_interval trunc_us) (la_history l)" .
  moreover have "active_of (asg_row_of l v) = map_option (reload_interval trunc_us) (la_active l)"
    using assms(2) by (cases "la_active l") (simp_all add: asg_row_of_def active_of_def domain_simps reload_interval_def)
  moreover have "rl_version (asg_row_of l v) = v" by (cases "la_active l") (simp_all add: asg_row_of_def domain_simps)
  ultimately show ?thesis
    by (intro exI [of _ v]) (simp add: pg_view_def db_view_def reload_def, simp add: v)
qed

definition path_row_of :: "string \<Rightarrow> string \<Rightarrow> PathPlan \<Rightarrow> path_row" where
  "path_row_of b sh line = \<lparr>rp_building_id = b, rp_shift_id = sh, rp_path_id = pp_PathId line,
     rp_planned_heads = pp_PlannedHeads line, rp_planned_rate = pp_PlannedRate line,
     rp_planned_hours = pp_PlannedHours line\<rparr>"

lemma row_line_path_row: "row_line (path_row_of b sh line) = line"
  by (simp add: row_line_def path_row_of_def)

lemma run_insert_path:
  "run_each (insert_path b sh) lines d = Inr d' \<Longrightarrow>
     d' = d\<lparr>t_path := t_path d @ map (path_row_of b sh) lines\<rparr> \<and> distinct (map pp_PathId lines)
     \<and> (\<forall>line \<in> set lines. \<forall>r \<in> set (t_path d). \<not> (plan_rows b sh r \<and> rp_path_id r = pp_PathId line))"
  by (induction lines arbitrary: d)
    (fastforce simp: insert_path_def path_row_of_def list_ex_iff plan_rows_def split: if_splits sum.splits)+

lemma pg_Save_plan_Inr:
  assumes "pg_Save_plan sp s = (Inr (), s')"
  shows "t_assoc (cur s') = t_assoc (cur s) \<and> t_asg (cur s') = t_asg (cur s) \<and> t_hist (cur s') = t_hist (cur s)
    \<and> set (t_plan (cur s')) = insert (sp_buildingId sp, sp_shiftId sp) (set (t_plan (cur s)))
    \<and> t_path (cur s') = filter (\<lambda>r. \<not> plan_rows (sp_buildingId sp) (sp_shiftId sp) r) (t_path (cur s))
        @ map (path_row_of (sp_buildingId sp) (sp_shiftId sp)) (sp_lines sp)
    \<and> distinct (map pp_PathId (sp_lines sp))"
proof -
  let ?b = "sp_buildingId sp" and ?sh = "sp_shiftId sp"
  have k: "pg_keeps (\<lambda>_. True) (obind (pg_stmt (insert_plan sp)) (\<lambda>_.
     obind (pg_stmt (delete_paths ?b ?sh)) (\<lambda>_. pg_each (insert_path ?b ?sh) (sp_lines sp))))"
    by (auto intro!: pg_keeps_intros pg_keeps_stmt pg_keeps_each)
  from beginOrJoin_Inr [OF assms [unfolded pg_Save_plan_def] k]
  obtain s0 s1 s2 s3 where *: "cur s0 = cur s" "insert_plan sp (cur s0) = Inr ((), cur s1)"
    "delete_paths ?b ?sh (cur s1) = Inr ((), cur s2)"
    "run_each (insert_path ?b ?sh) (sp_lines sp) (cur s2) = Inr (cur s3)" "cur s' = cur s3"
    by (fastforce elim!: obind_InrE dest!: pg_stmt_cases pg_each_Inr)
  have 1: "cur s1 = (if (?b, ?sh) \<in> set (t_plan (cur s)) then cur s
      else (cur s)\<lparr>t_plan := (?b, ?sh) # t_plan (cur s)\<rparr>)"
    using *(1,2) by (simp add: insert_plan_def)
  have 2: "cur s2 = (cur s1)\<lparr>t_path := filter (\<lambda>r. \<not> plan_rows ?b ?sh r) (t_path (cur s1))\<rparr>"
    using *(3) by (simp add: delete_paths_def)
  show ?thesis using 1 2 *(5) run_insert_path [OF *(4)] by auto
qed

lemma pg_Save_plan_view:
  assumes "pg_Save_plan sp s = (Inr (), s')" "\<And>rs. mset (ord rs) = mset rs"
  shows "\<exists>q. stored_plan sp q \<and> pg_view ord s' = (pg_view ord s)\<lparr>v_plan :=
    (v_plan (pg_view ord s))((sp_buildingId sp, sp_shiftId sp) \<mapsto> q)\<rparr>"
proof -
  let ?b = "sp_buildingId sp" and ?sh = "sp_shiftId sp"
  let ?rows = "map (path_row_of ?b ?sh) (sp_lines sp)"
  let ?q = "RehydratePlan ?b ?sh (map row_line (ord ?rows))"
  note I = pg_Save_plan_Inr [OF assms(1)]
  have f: "filter (plan_rows c th) (t_path (cur s')) =
      (if (c, th) = (?b, ?sh) then ?rows else filter (plan_rows c th) (t_path (cur s)))" for c th
    using I by (auto simp: filter_map o_def plan_rows_def path_row_of_def intro!: filter_cong)
  have I': "t_assoc (cur s') = t_assoc (cur s)" "t_asg (cur s') = t_asg (cur s)" "t_hist (cur s') = t_hist (cur s)"
    "set (t_plan (cur s')) = insert (?b, ?sh) (set (t_plan (cur s)))"
    using I by auto
  have "mset (map row_line (ord ?rows)) = mset (sp_lines sp)"
    unfolding mset_map assms(2) by (simp add: multiset.map_comp o_def row_line_path_row)
  then have "stored_plan sp ?q" by (simp add: stored_plan_def RehydratePlan_def)
  moreover have "pg_view ord s' = (pg_view ord s)\<lparr>v_plan := (v_plan (pg_view ord s))((?b, ?sh) \<mapsto> ?q)\<rparr>"
    unfolding pg_view_def db_view_def using I' by (auto simp: f hist_of_def fun_eq_iff)
  ultimately show ?thesis by blast
qed

section \<open>The interpretations\<close>

lemma reads_body:
  assumes "\<And>Q. pg_keeps Q m" "m s = (r, s')"
  shows "pg_body_inv s \<Longrightarrow> pg_view ord s' = pg_view ord s \<and> pg_body_inv s'"
    and "pg_inv s \<Longrightarrow> pg_view ord s' = pg_view ord s \<and> pg_inv s'"
  using keeps_body_inv [OF assms(1) assms(2)] keeps_inv [OF assms(1) assms(2)] reads_frame [OF assms] by blast+

lemma pg_FindByID_Inr:
  "pg_FindByID i s = (Inr a, s') \<Longrightarrow> v_assoc (pg_view ord s) i = Some a \<and> as_associateId a = i \<and> as_events a = []"
  by (auto simp: pg_FindByID_def pg_view_def db_view_def RehydrateAssociate_def elim!: obind_InrE
      dest!: pg_query_cases split: option.splits)

lemma pg_FindByID_Inl:
  "pg_FindByID i s = (Inl e, s') \<Longrightarrow> errors_is e ErrNotFound \<Longrightarrow> v_assoc (pg_view ord s) i = None"
  by (auto simp: pg_FindByID_def pg_view_def db_view_def elim!: obind_cases
      dest!: pg_query_cases split: option.splits)

lemma pg_FindByAssociateID_Inr:
  "pg_FindByAssociateID i s = (Inr l, s') \<Longrightarrow> v_asg (pg_view ord s) i = Some l \<and> la_associateId l = i \<and> la_events l = []"
  unfolding pg_FindByAssociateID_def active_of_def [symmetric] Let_def
  by (auto simp: pg_view_def db_view_def RehydrateAssignment_def hist_of_def
      elim!: obind_InrE dest!: pg_query_cases split: option.splits)

lemma pg_FindByAssociateID_Inl:
  "pg_FindByAssociateID i s = (Inl e, s') \<Longrightarrow> errors_is e ErrNotFound \<Longrightarrow> v_asg (pg_view ord s) i = None"
  by (auto simp: pg_FindByAssociateID_def Let_def pg_view_def db_view_def
      elim!: obind_cases dest!: pg_query_cases split: option.splits)

lemma pg_FindPlan_Inr:
  "pg_FindByBuildingAndShift ord b sh s = (Inr sp, s') \<Longrightarrow>
     v_plan (pg_view ord s) (b, sh) = Some sp \<and> sp_buildingId sp = b \<and> sp_shiftId sp = sh \<and> sp_events sp = []"
  by (auto simp: pg_FindByBuildingAndShift_def pg_view_def db_view_def RehydratePlan_def
      elim!: obind_InrE dest!: pg_query_cases split: if_splits)

lemma pg_FindPlan_Inl:
  "pg_FindByBuildingAndShift ord b sh s = (Inl e, s') \<Longrightarrow> errors_is e ErrNotFound \<Longrightarrow>
     v_plan (pg_view ord s) (b, sh) = None"
  by (auto simp: pg_FindByBuildingAndShift_def pg_view_def db_view_def
      elim!: obind_cases dest!: pg_query_cases split: if_splits)

lemma active_on_row:
  "row_ok r \<Longrightarrow> active_on p (RehydrateAssignment i (active_of r) h v) \<longleftrightarrow> rl_active_path_id r = Some p"
  by (auto simp: active_on_def RehydrateAssignment_def active_of_def row_ok_def split: option.splits)

lemma pg_Count_Inr:
  assumes "pg_CountActiveByPath p s = (Inr n, s')" "pg_body_inv s"
  shows "n = int (card {i. \<exists>l. v_asg (pg_view ord s) i = Some l \<and> active_on p l})"
proof -
  have wf: "gwf (t_asg (cur s))" and ok: "\<And>i r. map_of (t_asg (cur s)) i = Some r \<Longrightarrow> row_ok r"
    using assms(2) by (auto simp: pg_body_inv_def db_inv_def)
  have "n = int (length (filter (\<lambda>(_, r). rl_active_path_id r = Some p) (t_asg (cur s))))"
    using assms(1) by (auto simp: pg_CountActiveByPath_def dest!: pg_query_cases)
  also have "\<dots> = int (card {i. \<exists>r. map_of (t_asg (cur s)) i = Some r \<and> rl_active_path_id r = Some p})"
    by (simp add: gwf_count [OF wf])
  also have "{i. \<exists>r. map_of (t_asg (cur s)) i = Some r \<and> rl_active_path_id r = Some p}
      = {i. \<exists>l. v_asg (pg_view ord s) i = Some l \<and> active_on p l}"
    using ok by (auto simp: pg_view_def db_view_def active_on_row)
  finally show ?thesis .
qed

interpretation pg_associates: associate_repo "pg_view ord" pg_body_inv pg_FindByID pg_Save_assoc for ord
  by unfold_locales
    (rule reads_body(1) [OF keeps_reads(1)], assumption+, rule pg_FindByID_Inr, assumption,
      rule pg_FindByID_Inl, assumption+, rule keeps_body_inv [OF keeps_Save_assoc], assumption+,
      rule pg_Save_assoc_view, assumption)

interpretation pg_assignments: assignment_repo "pg_view ord" pg_body_inv pg_FindByAssociateID pg_Save_asg
  pg_CountActiveByPath for ord
  by unfold_locales
    (rule reads_body(1) [OF keeps_reads(2)], assumption+, rule pg_FindByAssociateID_Inr, assumption,
      rule pg_FindByAssociateID_Inl, assumption+, rule keeps_body_inv [OF keeps_Save_asg], assumption+,
      rule pg_Save_asg_view, assumption, rule reads_body(1) [OF keeps_reads(3)], assumption+,
      rule pg_Count_Inr, assumption+)

lemma pg_plans_body: "(\<And>rs. mset (ord rs) = mset rs) \<Longrightarrow>
    shift_plan_repo (pg_view ord) pg_body_inv (pg_FindByBuildingAndShift ord) pg_Save_plan"
  by unfold_locales
    (rule reads_body(1) [OF keeps_reads(4)], assumption+, rule pg_FindPlan_Inr, assumption,
      rule pg_FindPlan_Inl, assumption+, rule keeps_body_inv [OF keeps_Save_plan], assumption+,
      rule pg_Save_plan_view, assumption, simp)

interpretation pg_plans: shift_plan_repo "pg_view (\<lambda>rs. rs)" pg_body_inv "pg_FindByBuildingAndShift (\<lambda>rs. rs)" pg_Save_plan
  by (rule pg_plans_body) simp

text \<open>Between requests (no open transaction) and inside a scope, over any order of the rows.\<close>

lemma pg_associates_inv: "associate_repo (pg_view ord) pg_inv pg_FindByID pg_Save_assoc"
  by unfold_locales
    (rule reads_body(2) [OF keeps_reads(1)], assumption+, rule pg_FindByID_Inr, assumption,
      rule pg_FindByID_Inl, assumption+, rule keeps_inv [OF keeps_Save_assoc], assumption+,
      rule pg_Save_assoc_view, assumption)

lemma pg_assignments_inv:
  "assignment_repo (pg_view ord) pg_inv pg_FindByAssociateID pg_Save_asg pg_CountActiveByPath"
  by unfold_locales
    (rule reads_body(2) [OF keeps_reads(2)], assumption+, rule pg_FindByAssociateID_Inr, assumption,
      rule pg_FindByAssociateID_Inl, assumption+, rule keeps_inv [OF keeps_Save_asg], assumption+,
      rule pg_Save_asg_view, assumption, rule reads_body(2) [OF keeps_reads(3)], assumption+,
      rule pg_Count_Inr, assumption, rule pg_inv_body, assumption)

lemma pg_plans_inv: "(\<And>rs. mset (ord rs) = mset rs) \<Longrightarrow>
    shift_plan_repo (pg_view ord) pg_inv (pg_FindByBuildingAndShift ord) pg_Save_plan"
  by unfold_locales
    (rule reads_body(2) [OF keeps_reads(4)], assumption+, rule pg_FindPlan_Inr, assumption,
      rule pg_FindPlan_Inl, assumption+, rule keeps_inv [OF keeps_Save_plan], assumption+,
      rule pg_Save_plan_view, assumption, simp)

lemma publish_view:
  assumes "OutboxPublisher_Publish (pg_encoders k trace ord) es s = (r, s')" "db_inv (cur s)"
  shows "pg_view ord s' = pg_view ord s"
  using pg_keepsD [OF keeps_Publish [OF outbox_free_view(1)] assms(1), of ord "pg_view ord s"] assms(2)
  by (simp add: pg_view_def)

lemma pg_publisher:
  "event_publisher (pg_view ord) pg_body_inv (OutboxPublisher_Publish (pg_encoders k trace ord))"
  "event_publisher (pg_view ord) pg_inv (OutboxPublisher_Publish (pg_encoders k trace ord))"
proof -
  show "event_publisher (pg_view ord) pg_body_inv (OutboxPublisher_Publish (pg_encoders k trace ord))"
    by unfold_locales (rule keeps_body_inv [OF keeps_Publish [OF outbox_free_view(2)]], assumption+,
      rule publish_view, assumption, simp add: pg_body_inv_def)
  show "event_publisher (pg_view ord) pg_inv (OutboxPublisher_Publish (pg_encoders k trace ord))"
    by unfold_locales (rule keeps_inv [OF keeps_Publish [OF outbox_free_view(2)]], assumption+,
      rule publish_view, assumption, simp add: pg_inv_def cur_def)
qed

interpretation pg_outbox: event_publisher "pg_view ord" pg_body_inv "OutboxPublisher_Publish (pg_encoders k trace ord)"
  for ord k trace
  by (rule pg_publisher(1))

interpretation pg_now: clock_port "pg_view ord" pg_inv pg_Now for ord
  by unfold_locales (auto simp: pg_Now_def pg_inv_def pg_view_def cur_def split: list.splits)

definition pg_inner :: "(pg, unit) op \<Rightarrow> bool" where
  "pg_inner f \<longleftrightarrow> pg_keeps db_inv f"

text \<open>The law of the unit of work: commit all of it or leave the committed database alone.\<close>

lemma uow_cases:
  assumes "UnitOfWork_Execute f s = (r, s')" "pg_tx s = None" "pg_inner f"
  shows "pg_tx s' = None \<and> (case r of
      Inl e \<Rightarrow> pg_db s' = pg_db s
    | Inr _ \<Rightarrow> \<exists>s0 s1. cur s0 = pg_db s \<and> pg_db s0 = pg_db s \<and> f s0 = (Inr (), s1) \<and> pg_db s' = cur s1)"
proof -
  from assms(1,2) consider (nobegin) e e' where "pg_Begin s = (Inl e, s')" "r = Inl e'"
    | (fails) s0 e s1 rr e' where "pg_Begin s = (Inr (), s0)" "f s0 = (Inl e, s1)"
        "pg_Rollback s1 = (rr, s')" "r = Inl e'"
    | (nocommit) s0 s1 e s2 rr e' where "pg_Begin s = (Inr (), s0)" "f s0 = (Inr (), s1)"
        "pg_Commit s1 = (Inl e, s2)" "pg_Rollback s2 = (rr, s')" "r = Inl e'"
    | (commit) s0 s1 where "pg_Begin s = (Inr (), s0)" "f s0 = (Inr (), s1)" "pg_Commit s1 = (Inr (), s')" "r = Inr ()"
  proof -
    obtain rb s0 where b: "pg_Begin s = (rb, s0)" by fastforce
    obtain rf s1 where f: "f s0 = (rf, s1)" by fastforce
    obtain rc s2 where c: "pg_Commit s1 = (rc, s2)" by fastforce
    obtain rr1 t1 where r1: "pg_Rollback s1 = (rr1, t1)" by fastforce
    obtain rr2 t2 where r2: "pg_Rollback s2 = (rr2, t2)" by fastforce
    note U = assms(1) [unfolded UnitOfWork_Execute_def b prod.case f c]
    show thesis
    proof (cases rb)
      case (Inl e)
      then show thesis using U assms(2) b nobegin [of e "Wrap ''postgres: begin unit of work'' e"] by auto
    next
      case rb: (Inr u)
      show thesis
      proof (cases rf)
        case (Inl e)
        then show thesis using U assms(2) b f r1 rb fails [of s0 e s1 rr1]
          by (cases rr1) (auto split: if_splits)
      next
        case rf: (Inr u')
        show thesis
        proof (cases rc)
          case (Inl e)
          then show thesis using U assms(2) b f c r2 rb rf nocommit [of s0 s1 e s2 rr2]
            by (cases rr2) (auto split: if_splits)
        next
          case (Inr u'')
          then have "r = Inr ()" "s2 = s'" using U assms(2) rb rf by auto
          then show thesis using b f c rb rf Inr commit by simp
        qed
      qed
    qed
  qed
  then show ?thesis
  proof cases
    case nobegin
    then show ?thesis using pg_Begin_cases [OF nobegin(1) assms(2)] by simp
  next
    case fails
    have "pg_db s0 = pg_db s" "pg_tx s0 = Some (pg_db s)" using pg_Begin_cases [OF fails(1) assms(2)] by auto
    then have "pg_db s1 = pg_db s"
      using pg_keepsD [OF assms(3) [unfolded pg_inner_def] fails(2)] by (auto simp: same_conn_def)
    then show ?thesis using pg_Rollback_cases [OF fails(3)] fails(4) by simp
  next
    case nocommit
    have b: "pg_db s0 = pg_db s" "pg_tx s0 = Some (pg_db s)" using pg_Begin_cases [OF nocommit(1) assms(2)] by auto
    then have "pg_db s1 = pg_db s" "pg_tx s1 \<noteq> None"
      using pg_keepsD [OF assms(3) [unfolded pg_inner_def] nocommit(2)] by (auto simp: same_conn_def)
    then have "pg_db s2 = pg_db s" using pg_Commit_cases [OF nocommit(3)] by auto
    then show ?thesis using pg_Rollback_cases [OF nocommit(4)] nocommit(5) by simp
  next
    case commit
    have b: "pg_db s0 = pg_db s" "pg_tx s0 = Some (pg_db s)" using pg_Begin_cases [OF commit(1) assms(2)] by auto
    then obtain d where d: "pg_tx s1 = Some d"
      using pg_keepsD [OF assms(3) [unfolded pg_inner_def] commit(2)] by (auto simp: same_conn_def)
    have "cur s0 = pg_db s" "cur s1 = d" using b d by (simp_all add: cur_def)
    then show ?thesis using pg_Commit_cases [OF commit(3) d] commit(2,4) b(1) by auto
  qed
qed

lemma pg_uow: "unit_of_work (pg_view ord) pg_inv pg_body_inv pg_inner UnitOfWork_Execute"
proof unfold_locales
  fix f s u s'
  assume a: "UnitOfWork_Execute f s = (u, s')" "pg_inv s" "pg_inner f"
  have t: "pg_tx s = None" "db_inv (pg_db s)" using a(2) by (auto simp: pg_inv_def)
  note c = uow_cases [OF a(1) t(1) a(3)]
  show "pg_inv s'"
  proof (cases u)
    case (Inl e)
    then show ?thesis using c t by (simp add: pg_inv_def)
  next
    case (Inr x)
    then obtain s0 s1 where *: "cur s0 = pg_db s" "f s0 = (Inr (), s1)" "pg_db s' = cur s1" "pg_tx s' = None"
      using c by auto
    have "db_inv (cur s1)" using pg_keepsD [OF a(3) [unfolded pg_inner_def] *(2)] *(1) t by simp
    then show ?thesis using * by (simp add: pg_inv_def)
  qed
next
  fix f s s'
  assume a: "UnitOfWork_Execute f s = (Inr (), s')" "pg_inv s" "pg_inner f"
  have t: "pg_tx s = None" "db_inv (pg_db s)" using a(2) by (auto simp: pg_inv_def)
  obtain s0 s1 where *: "cur s0 = pg_db s" "pg_db s0 = pg_db s" "f s0 = (Inr (), s1)" "pg_db s' = cur s1" "pg_tx s' = None"
    using uow_cases [OF a(1) t(1) a(3)] by auto
  show "\<exists>s0 s1. pg_view ord s0 = pg_view ord s \<and> pg_body_inv s0 \<and> f s0 = (Inr (), s1) \<and> pg_view ord s' = pg_view ord s1"
    by (rule exI [of _ s0], rule exI [of _ s1])
      (use * t in \<open>simp add: pg_view_def pg_body_inv_def cur_def\<close>)
next
  fix f s e s'
  assume a: "UnitOfWork_Execute f s = (Inl e, s')" "pg_inv s" "pg_inner f"
  then have t: "pg_tx s = None" by (simp add: pg_inv_def)
  show "pg_view ord s' = pg_view ord s"
    using uow_cases [OF a(1) t a(3)] t by (simp add: pg_view_def cur_def)
qed

interpretation pg_atomic: unit_of_work "pg_view ord" pg_inv pg_body_inv pg_inner UnitOfWork_Execute for ord
  by (rule pg_uow)

section \<open>The service on Postgres\<close>

lemma pg_inner_intros:
  "pg_inner (oret ())" "pg_inner f \<Longrightarrow> pg_inner g \<Longrightarrow> pg_inner (obind f (\<lambda>_. g))"
  "pg_inner (pg_Save_assoc a)" "pg_inner (pg_Save_asg l)" "pg_inner (pg_Save_plan sp)"
  "pg_inner (OutboxPublisher_Publish (pg_encoders k trace ord) es)"
  by (auto simp: pg_inner_def keeps_Save_assoc keeps_Save_asg keeps_Save_plan keeps_Publish [OF outbox_free_view(2)]
      intro!: pg_keeps_pure pg_keeps_obind)

lemma pg_ports_sel [simp]:
  "FindByID (pg_ports k trace ord) = pg_FindByID" "SaveAssociate (pg_ports k trace ord) = pg_Save_assoc"
  "FindByAssociateID (pg_ports k trace ord) = pg_FindByAssociateID"
  "SaveAssignment (pg_ports k trace ord) = pg_Save_asg"
  "CountActiveByPath (pg_ports k trace ord) = pg_CountActiveByPath"
  "SaveShiftPlan (pg_ports k trace ord) = pg_Save_plan"
  "FindByBuildingAndShift (pg_ports k trace ord) = pg_FindByBuildingAndShift ord"
  "Publish (pg_ports k trace ord) = OutboxPublisher_Publish (pg_encoders k trace ord)"
  "Now (pg_ports k trace ord) = pg_Now" "UnitOfWork (pg_ports k trace ord) = Some UnitOfWork_Execute"
  by (simp_all add: pg_ports_def)

lemma pg_workforce:
  assumes "\<And>rs. mset (ord rs) = mset rs"
  shows "workforce (pg_view ord) pg_inv pg_body_inv (pg_ports k trace ord) pg_inner"
proof (rule workforce.intro)
  show "workforce_axioms (pg_view ord) pg_inv pg_body_inv (pg_ports k trace ord) pg_inner"
  proof (rule workforce_axioms.intro)
    show "pg_inner f \<Longrightarrow> pg_inv s \<Longrightarrow> f s = (u, s') \<Longrightarrow> pg_inv s'" for f s u s'
      using keeps_inv [of f] by (simp add: pg_inner_def)
  qed (simp_all add: pg_inner_intros pg_inv_body pg_uow)
qed (simp_all add: pg_associates_inv pg_assignments_inv pg_plans_inv [OF assms] pg_publisher
    pg_now.clock_port_axioms pg_associates.associate_repo_axioms pg_assignments.assignment_repo_axioms
    pg_plans_body [OF assms])

definition pg_deps ::
  "sdk \<Rightarrow> (string \<times> string) list \<Rightarrow> (path_row list \<Rightarrow> path_row list) \<Rightarrow>
   (string \<Rightarrow> err + PathDefinition) option \<Rightarrow> (Capability \<Rightarrow> err + int) \<Rightarrow> (PathId \<Rightarrow> err + f64) option \<Rightarrow>
     (PathId \<Rightarrow> err + f64) option \<Rightarrow> f64 \<Rightarrow> f64 \<Rightarrow> (f64 \<Rightarrow> int) \<Rightarrow> pg wf_deps" where
  "pg_deps k trace ord lk cap mr idle th mx plat =
     \<lparr>dp_ports = pg_ports k trace ord, dp_lookup = map_option (\<lambda>f p. olift (f p)) lk,
      dp_capacity = (\<lambda>c. olift (cap c)), dp_measured = map_option (\<lambda>f p. olift (f p)) mr,
      dp_idle = map_option (\<lambda>f p. olift (f p)) idle, dp_threshold = th, dp_maxHours = mx, dp_plat = plat\<rparr>"

lemma pg_service:
  assumes "\<And>rs. mset (ord rs) = mset rs" "\<not> flt mx (Fin 0)"
  shows "service (pg_view ord) pg_inv pg_body_inv (pg_ports k trace ord) pg_inner
    (pg_deps k trace ord lk cap mr idle th mx plat)"
proof -
  have t: "transactional (pg_view ord) pg_inv (pg_ports k trace ord) pg_inner"
    by (rule workforce.all_or_nothing_view [OF pg_workforce [OF assms(1)]])
  show ?thesis
    by (auto intro!: service.intro service_axioms.intro tx_service.intro tx_service_axioms.intro t
        pg_workforce [OF assms(1)] transactional.quiet_pure(3) [OF t] simp: assms(2) pg_deps_def)
qed

text \<open>
  With the whole committed database, outbox included, as the part of the state a failing
  command leaves alone.
\<close>

lemma reads_db:
  assumes "\<And>Q. pg_keeps Q m" "m s = (r, s')" "pg_inv s"
  shows "pg_db s' = pg_db s \<and> pg_inv s'"
  using reads_cur [OF assms(1,2)] keeps_inv [OF assms(1,2,3)] assms(3) by (simp add: pg_inv_def cur_def)

lemma pg_transactional: "transactional pg_db pg_inv (pg_ports k trace ord) pg_inner"
proof (rule transactional.intro)
  fix f s e s'
  assume "atomically (pg_ports k trace ord) f s = (Inl e, s')" "pg_inner f" "pg_inv s"
  then show "pg_db s' = pg_db s" using uow_cases [of f s "Inl e" s'] by (simp add: atomically_def pg_inv_def)
next
  fix s t s'
  assume "Now (pg_ports k trace ord) s = (t, s')" "pg_inv s"
  then show "pg_db s' = pg_db s \<and> pg_inv s'" by (auto simp: pg_Now_def pg_inv_def split: list.splits)
qed (simp_all add: pg_inner_intros reads_db [OF keeps_reads(1)] reads_db [OF keeps_reads(2)]
    reads_db [OF keeps_reads(3)] reads_db [OF keeps_reads(4)])

lemma pg_tx_service: "tx_service pg_db pg_inv (pg_ports k trace ord) pg_inner (pg_deps k trace ord lk cap mr idle th mx plat)"
  by (auto intro!: tx_service.intro tx_service_axioms.intro pg_transactional
      transactional.quiet_pure(3) [OF pg_transactional] simp: pg_deps_def)

interpretation pg_tables: tx_service pg_db pg_inv "pg_ports k trace ord" pg_inner
  "pg_deps k trace ord lk cap mr idle th mx plat" for k trace ord lk cap mr idle th mx plat
  by (rule pg_tx_service)

text \<open>
  The service on Postgres as it is wired, with an eight-hour limit and the rows in insertion
  order; \<open>pg_service\<close> is the same for any order and any limit.
\<close>

interpretation pg_wf: workforce "pg_view (\<lambda>rs. rs)" pg_inv pg_body_inv "pg_ports k trace (\<lambda>rs. rs)" pg_inner
  for k trace
  by (rule pg_workforce) simp

interpretation pg_svc: service "pg_view (\<lambda>rs. rs)" pg_inv pg_body_inv "pg_ports k trace (\<lambda>rs. rs)" pg_inner
  "pg_deps k trace (\<lambda>rs. rs) lk cap mr idle th (Fin 8) plat" for k trace lk cap mr idle th plat
  by (rule pg_service) simp_all

end
