(* ===== verification/PgProperties.thy ===== *)
theory PgProperties
  imports Postgres
begin

text \<open>
  What the service promises on Postgres: one request after another under arbitrary database
  failures, atomicity of every request, the version guard, and where concurrent requests
  escape it.
\<close>

section \<open>A small service to evaluate\<close>

definition demo_sdk :: sdk where
  "demo_sdk = \<lparr>sdk_validate = (\<lambda>e. if ce_id e = '''' then Some (Other ''id'') else None),
     sdk_marshal = (\<lambda>e. Inr (ce_id e)), sdk_unmarshal = (\<lambda>_. Inl (Other ''demo''))\<rparr>"

definition empty_db :: db where
  "empty_db = \<lparr>t_assoc = [], t_asg = [], t_hist = [], t_plan = [], t_path = [], t_outbox = []\<rparr>"

definition demo_pg :: "string option list \<Rightarrow> time list \<Rightarrow> db \<Rightarrow> pg" where
  "demo_pg faults clock d = \<lparr>pg_db = d, pg_tx = None, pg_aborted = False, pg_seq = 1, pg_faults = faults,
     pg_clock = clock, pg_ids = [''e1'', ''e2'', ''e3'', ''e4''], pg_now = 0\<rparr>"

abbreviation demo_deps :: "pg wf_deps" where
  "demo_deps \<equiv> pg_deps demo_sdk [] (\<lambda>rs. rs) None (\<lambda>_. Inr 0) None None (Fin 0) (Fin 8) (\<lambda>_. 0)"

abbreviation demo_ports :: "pg ports" where
  "demo_ports \<equiv> pg_ports demo_sdk [] (\<lambda>rs. rs)"

lemmas demo_eval =
  demo_pg_def empty_db_def demo_sdk_def pg_deps_def done_with_def
  StartAssociateShift_Execute_def StartBreak_Execute_def AssignLabor_Execute_def assign_prepare_def
  EndAssociateShift_Execute_def assign_body_def end_body_def save_and_publish_def find_or_new_assignment_def
  log_closed_def close_assignment_def atomically_def onow_def ocatch_def obind_def
  pg_FindByID_def pg_FindByAssociateID_def pg_Save_assoc_def pg_Save_asg_def pg_query_def pg_stmt_def pg_fault_def
  pg_Begin_def pg_Commit_def pg_Rollback_def pg_closed_def beginOrJoin_def UnitOfWork_Execute_def
  upsert_assoc_def upsert_asg_def delete_hist_def insert_hist_def assoc_row_of_def asg_row_of_def gput_def
  OutboxPublisher_Publish_def pg_encoders_def outbox_insert_def pg_Now_def pg_mint_def omint_def
  mustMarshal_def ce_New_def associateEvent_def Let_def

section \<open>Sequential soundness\<close>

text \<open>
  C1: the service keeps its invariant over any sequence of requests, whichever database
  statements fail underneath: no shift has logged more than the limit, nobody whose shift has
  ended is active on a path, and everybody active on a path is on the roster.
\<close>

theorem pg_service_sound:
  assumes "\<And>rs. mset (ord rs) = mset rs" "\<not> flt mx (Fin 0)"
    and "pg_inv s" "sys_inv mx (pg_view ord s)"
  shows "sys_inv mx (pg_view ord (run_cmds (pg_deps k trace ord lk cap mr idle th mx plat) cs s))"
proof -
  let ?D = "pg_deps k trace ord lk cap mr idle th mx plat"
  have m: "dp_maxHours ?D = mx" by (simp add: pg_deps_def)
  have "sys_inv (dp_maxHours ?D) (pg_view ord (run_cmds ?D cs s))"
    by (rule conjunct2 [OF service.run_cmds_sys_inv [OF pg_service [OF assms(1,2)]]]) (use assms(3,4) m in simp_all)
  then show ?thesis by (simp add: m)
qed

lemma demo_start_ok:
  "pg_inv (demo_pg fs ts empty_db)" "sys_inv mx (pg_view ord (demo_pg fs ts empty_db))"
  by (simp_all add: demo_pg_def empty_db_def pg_inv_def db_inv_def sys_inv_def pg_view_def db_view_def cur_def)

theorem pg_service_sound_witness:
  "sys_inv (Fin 8) (pg_view (\<lambda>rs. rs) (run_cmds demo_deps
     [CmdStart ''a'' [''pack''], CmdAssign ''a'' ''pack'', CmdEndShift ''a''] (demo_pg [] [0, 1, 2, 3] empty_db)))"
  by (rule pg_service_sound [where mx = "Fin 8"]) (simp_all add: demo_start_ok)

text \<open>
  C2: every request is all or nothing. One that returns an error, whatever statement or check
  failed, has left the committed database exactly as it was, the aggregates and the outbox both:
  no event is announced for a change that was not made.
\<close>

theorem pg_request_atomic:
  assumes "run_cmd (pg_deps k trace ord lk cap mr idle th mx plat) c s = (Inl e, s')" "pg_inv s"
  shows "pg_db s' = pg_db s"
  by (rule pg_tables.run_cmd_fails [OF assms])

theorem pg_request_atomic_witness:
  "pg_db (snd (run_cmd demo_deps (CmdStart ''a'' []) (demo_pg [None, None, None, Some ''disk full''] [0] empty_db))) = empty_db"
proof -
  obtain r s' where r: "run_cmd demo_deps (CmdStart ''a'' []) (demo_pg [None, None, None, Some ''disk full''] [0] empty_db) = (r, s')"
    by fastforce
  moreover have "\<exists>e. r = Inl e"
    using r by (auto simp: demo_eval domain_simps)
  ultimately show ?thesis
    using pg_request_atomic [of demo_sdk "[]" "\<lambda>rs. rs" None "\<lambda>_. Inr 0" None None "Fin 0" "Fin 8" "\<lambda>_. 0"
        "CmdStart ''a'' []" "demo_pg [None, None, None, Some ''disk full''] [0] empty_db" _ s'] demo_start_ok(1)
    by (auto simp: demo_pg_def)
qed

section \<open>The version guard\<close>

lemma pg_Save_assoc_verdict:
  assumes "pg_Save_assoc a s = (r, s')"
  shows "case r of
      Inr _ \<Rightarrow> (case map_of (t_assoc (cur s)) (as_associateId a) of
          None \<Rightarrow> cur s' = (cur s)\<lparr>t_assoc := gput (as_associateId a) (assoc_row_of a 1) (t_assoc (cur s))\<rparr>
        | Some row \<Rightarrow> ra_version row = as_version a
            \<and> cur s' = (cur s)\<lparr>t_assoc := gput (as_associateId a) (assoc_row_of a (ra_version row + 1)) (t_assoc (cur s))\<rparr>)
    | Inl e \<Rightarrow> cur s' = cur s"
proof (cases r)
  case (Inl e)
  then show ?thesis using assms
    by (auto simp: pg_Save_assoc_def upsert_assoc_def elim!: obind_cases dest!: pg_stmt_cases
        split: option.splits if_splits)
next
  case (Inr u)
  then obtain n s1 where "pg_stmt (upsert_assoc a) s = (Inr n, s1)" "n \<noteq> 0" "s1 = s'"
    using assms by (auto simp: pg_Save_assoc_def elim!: obind_InrE split: if_splits)
  then have "upsert_assoc a (cur s) = Inr (n, cur s')" "n \<noteq> 0" using pg_stmt_cases by fastforce+
  then show ?thesis using Inr by (auto simp: upsert_assoc_def split: option.splits if_splits)
qed

lemma pg_Save_asg_version:
  assumes "pg_Save_asg l s = (Inr (), s')" "map_of (t_asg (cur s)) (la_associateId l) = Some row"
  shows "rl_version row = la_version l
    \<and> (\<exists>row'. map_of (t_asg (cur s')) (la_associateId l) = Some row' \<and> rl_version row' = rl_version row + 1)"
proof -
  have k: "pg_keeps (\<lambda>_. True) (obind (pg_stmt (upsert_asg l)) (\<lambda>rowsAffected.
     if rowsAffected = 0 then ofail (Sentinel ErrConcurrentModification)
     else obind (pg_stmt (delete_hist (la_associateId l))) (\<lambda>_.
       pg_each (insert_hist (la_associateId l)) (la_history l))))"
    by (auto intro!: pg_keeps_intros pg_keeps_stmt pg_keeps_each)
  from beginOrJoin_Inr [OF assms(1) [unfolded pg_Save_asg_def] k]
  obtain s0 s1 s2 s3 n where *: "cur s0 = cur s" "upsert_asg l (cur s0) = Inr (n, cur s1)" "n \<noteq> 0"
    "delete_hist (la_associateId l) (cur s1) = Inr ((), cur s2)"
    "run_each (insert_hist (la_associateId l)) (la_history l) (cur s2) = Inr (cur s3)" "cur s' = cur s3"
    by (fastforce elim!: obind_InrE dest!: pg_stmt_cases pg_each_Inr split: if_splits)
  have v: "rl_version row = la_version l"
    "cur s1 = (cur s)\<lparr>t_asg := gput (la_associateId l) (asg_row_of l (rl_version row + 1)) (t_asg (cur s))\<rparr>"
    using *(1-3) assms(2) by (auto simp: upsert_asg_def split: if_splits)
  have "cur s2 = (cur s1)\<lparr>t_hist := filter (\<lambda>h. rh_associate_id h \<noteq> la_associateId l) (t_hist (cur s1))\<rparr>"
    using *(4) by (simp add: delete_hist_def)
  then have "t_asg (cur s2) = t_asg (cur s1)" by simp
  then have "t_asg (cur s') = t_asg (cur s1)" using run_insert_hist [OF *(5)] *(6) by simp
  moreover have "rl_version (asg_row_of l k) = k" for k
    by (cases "la_active l") (simp_all add: asg_row_of_def domain_simps)
  ultimately show ?thesis using v by simp
qed

text \<open>A whole request keeps of the committed database what its saves keep and the outbox does not touch.\<close>

lemma keeps_now: "pg_keeps Q (onow (pg_ports k trace ord))"
  by (auto simp: pg_keeps_def onow_def pg_Now_def same_conn_def cur_def split: prod.splits list.splits option.splits)

lemma keeps_uow:
  assumes "pg_keeps Q f" "pg_inner f"
  shows "pg_keeps Q (atomically (pg_ports k trace ord) f)"
  unfolding pg_keeps_def
proof (intro allI impI)
  fix s r s' assume "atomically (pg_ports k trace ord) f s = (r, s')"
  then have u: "UnitOfWork_Execute f s = (r, s')" by (simp add: atomically_def)
  show "same_conn s s' \<and> (Q (cur s) \<longrightarrow> Q (cur s'))"
  proof (cases "pg_tx s")
    case (Some d)
    then show ?thesis using u pg_keepsD [OF assms(1)] by (simp add: UnitOfWork_Execute_def)
  next
    case None
    note c = uow_cases [OF u None assms(2)]
    show ?thesis
    proof (cases r)
      case (Inl e)
      then show ?thesis using c None by (simp add: same_conn_def cur_def)
    next
      case (Inr x)
      then obtain s0 s1 where w: "cur s0 = pg_db s" "f s0 = (Inr (), s1)" "pg_db s' = cur s1" "pg_tx s' = None"
        using c by auto
      then show ?thesis using pg_keepsD [OF assms(1) w(2)] None by (simp add: same_conn_def cur_def)
    qed
  qed
qed

lemma keeps_omapM: "(\<And>x. pg_keeps Q (f x)) \<Longrightarrow> pg_keeps Q (omapM f xs)"
  by (induction xs) (auto intro!: pg_keeps_intros)

lemma keeps_ceiling: "(\<And>c. pg_keeps Q (cap c)) \<Longrightarrow> pg_keeps Q (ceiling_loop cap raws b n memo)"
  by (induction raws arbitrary: b n memo) (auto intro!: pg_keeps_intros split: option.splits)

lemma keeps_capacities:
  "(\<And>c. pg_keeps Q (cap c)) \<Longrightarrow> (\<And>p. pg_keeps Q (lookup p)) \<Longrightarrow> pg_keeps Q (capacities lookup cap lines inst memo)"
  by (induction lines arbitrary: inst memo)
    (auto simp: installedCapacityForPath_def intro!: pg_keeps_intros keeps_ceiling split: option.splits sum.splits)

lemma keeps_cmd:
  assumes "\<And>a. pg_keeps Q (pg_Save_assoc a)" "\<And>l. pg_keeps Q (pg_Save_asg l)" "\<And>sp. pg_keeps Q (pg_Save_plan sp)" "outbox_free Q"
  shows "pg_keeps Q (run_cmd (pg_deps k trace ord lk cap mr idle th mx plat) c)"
proof -
  note ks = assms(1-3) keeps_Publish [OF assms(4)]
  have bodies: "pg_keeps Q (atomically (pg_ports k trace ord) (save_and_publish (pg_ports k trace ord) a))"
    "pg_keeps Q (atomically (pg_ports k trace ord) (assign_body (pg_ports k trace ord) ch l))"
    "pg_keeps Q (atomically (pg_ports k trace ord) (end_body (pg_ports k trace ord) ch' a))"
    "pg_keeps Q (atomically (pg_ports k trace ord) (commit_body (pg_ports k trace ord) sp))"
    "pg_keeps Q (atomically (pg_ports k trace ord) (OutboxPublisher_Publish (pg_encoders k trace ord) es))" for a ch l ch' sp es
    by (rule keeps_uow; auto simp: save_and_publish_def assign_body_def end_body_def commit_body_def
        intro!: pg_keeps_intros ks pg_inner_intros split: option.splits)+
  show ?thesis
    by (cases c)
      (auto simp: pg_deps_def done_with_def StartAssociateShift_Execute_def CertifyAssociate_Execute_def StartBreak_Execute_def
        EndBreak_Execute_def AssignLabor_Execute_def assign_prepare_def find_or_new_assignment_def EndAssociateShift_Execute_def
        CommitShiftPlan_Execute_def ProposePathPlan_Execute_def resolve_rate_def applyIdleShareTrim_def GetStaffingGap_Execute_def
        GetStaffingGap_ExecuteAll_def gapForLine_def observedIdlePct_def Let_def
        intro!: pg_keeps_intros keeps_reads keeps_now bodies keeps_omapM keeps_capacities split: option.splits sum.splits)
qed

lemma keeps_outbox:
  "pg_keeps (\<lambda>d. t_outbox d = X) (pg_Save_assoc a)" "pg_keeps (\<lambda>d. t_outbox d = X) (pg_Save_asg l)"
  "pg_keeps (\<lambda>d. t_outbox d = X) (pg_Save_plan sp)"
  unfolding pg_Save_assoc_def pg_Save_asg_def pg_Save_plan_def
  by (auto intro!: pg_keeps_intros pg_keeps_stmt pg_keeps_each simp: upsert_assoc_def upsert_asg_def delete_hist_def
      insert_hist_def insert_plan_def delete_paths_def insert_path_def split: option.splits if_splits)

text \<open>No request deletes a shift's row, and one that changes it raises its version.\<close>

definition versions_grow :: "db \<Rightarrow> db \<Rightarrow> bool" where
  "versions_grow d0 d \<longleftrightarrow> (\<forall>i row. map_of (t_assoc d0) i = Some row \<longrightarrow>
     (\<exists>row'. map_of (t_assoc d) i = Some row' \<and> (row' = row \<or> ra_version row < ra_version row')))"

lemma version_of_row: "ra_version (assoc_row_of a v) = v"
  by (simp add: assoc_row_of_def)

lemma upsert_versions:
  assumes "versions_grow d0 d" "upsert_assoc a d = Inr (n, d')"
  shows "versions_grow d0 d'"
  unfolding versions_grow_def
proof (intro allI impI)
  fix i row assume r: "map_of (t_assoc d0) i = Some row"
  then obtain row' where d: "map_of (t_assoc d) i = Some row'" "row' = row \<or> ra_version row < ra_version row'"
    using assms(1) unfolding versions_grow_def by blast
  show "\<exists>row'. map_of (t_assoc d') i = Some row' \<and> (row' = row \<or> ra_version row < ra_version row')"
  proof (cases "i = as_associateId a")
    case True
    then show ?thesis using assms(2) d by (auto simp: upsert_assoc_def version_of_row split: if_splits)
  next
    case False
    then show ?thesis using assms(2) d by (auto simp: upsert_assoc_def split: option.splits if_splits)
  qed
qed

lemma keeps_versions: "pg_keeps (versions_grow d0) (run_cmd (pg_deps k trace ord lk cap mr idle th mx plat) c)"
proof (rule keeps_cmd)
  show "pg_keeps (versions_grow d0) (pg_Save_assoc a)" for a
    unfolding pg_Save_assoc_def
    by (auto intro!: pg_keeps_intros pg_keeps_stmt split: if_splits elim: upsert_versions)
  show "pg_keeps (versions_grow d0) (pg_Save_asg l)" for l
    unfolding pg_Save_asg_def
    by (auto intro!: pg_keeps_intros pg_keeps_stmt pg_keeps_each
        simp: upsert_asg_def delete_hist_def insert_hist_def versions_grow_def split: option.splits if_splits)
  show "pg_keeps (versions_grow d0) (pg_Save_plan sp)" for sp
    unfolding pg_Save_plan_def
    by (auto intro!: pg_keeps_intros pg_keeps_stmt pg_keeps_each
        simp: insert_plan_def delete_paths_def insert_path_def versions_grow_def split: if_splits)
qed (simp add: outbox_free_def versions_grow_def)

lemma run_cmds_versions:
  fixes k trace ord lk cap mr idle th mx plat
  defines "D \<equiv> pg_deps k trace ord lk cap mr idle th mx plat"
  shows "pg_tx s = None \<Longrightarrow> versions_grow d0 (pg_db s) \<Longrightarrow>
    pg_tx (run_cmds D cs s) = None \<and> versions_grow d0 (pg_db (run_cmds D cs s))"
proof (induction cs arbitrary: s)
  case (Cons c cs)
  obtain r s1 where r: "run_cmd D c s = (r, s1)" by fastforce
  have "pg_tx s1 = None \<and> versions_grow d0 (pg_db s1)"
    using pg_keepsD [OF keeps_versions r [unfolded D_def], of d0] Cons.prems
    by (auto simp: same_conn_def cur_def split: option.splits)
  then show ?case using Cons.IH r by simp
qed simp

lemma FindByID_row:
  assumes "pg_FindByID i s = (Inr b, s')"
  shows "cur s' = cur s \<and> (pg_tx s' = None) = (pg_tx s = None)
    \<and> (\<exists>row. map_of (t_assoc (cur s)) i = Some row \<and> ra_version row = as_version b)"
proof -
  obtain row s1 where q: "pg_query (\<lambda>d. map_of (t_assoc d) i) s = (Inr (Some row), s1)" "ra_version row = as_version b"
    using assms by (auto simp: pg_FindByID_def RehydrateAssociate_def elim!: obind_InrE split: option.splits)
  then have "map_of (t_assoc (cur s)) i = Some row" by (auto simp: pg_query_def dest!: pg_stmt_cases)
  then show ?thesis using q(2) reads_cur [OF keeps_reads(1) assms] pg_keepsD [OF keeps_reads(1) assms]
    by (simp add: same_conn_def)
qed

text \<open>A save of a shift loaded at another version than the stored one does not succeed, and conflicts if the database works.\<close>

lemma stale_save:
  assumes "map_of (t_assoc (cur t)) (as_associateId a) = Some row" "ra_version row \<noteq> as_version a"
    and "pg_Save_assoc a t = (r, t')"
  shows "r \<noteq> Inr () \<and> (pg_faults t = [] \<and> \<not> pg_aborted t \<longrightarrow> r = Inl (Sentinel ErrConcurrentModification) \<and> pg_faults t' = [])"
proof -
  have "r \<noteq> Inr ()" using pg_Save_assoc_verdict [OF assms(3)] assms(1,2) by auto
  moreover have "r = Inl (Sentinel ErrConcurrentModification) \<and> pg_faults t' = []" if "pg_faults t = []" "\<not> pg_aborted t"
    using that assms by (auto simp: pg_Save_assoc_def obind_def pg_stmt_def pg_fault_def upsert_assoc_def cur_def split: option.splits)
  ultimately show ?thesis by blast
qed


definition demo_shift :: AssociateShift where
  "demo_shift = RehydrateAssociate ''a'' {''pack''} False (Fin 0) False 1"

definition demo_db :: db where
  "demo_db = empty_db\<lparr>t_assoc := [(''a'', assoc_row_of demo_shift 1)]\<rparr>"

definition demo_idle :: LaborAssignment where
  "demo_idle = RehydrateAssignment ''a'' None [] 1"

lemma demo_break:
  "\<exists>s2. run_cmds demo_deps [CmdStartBreak ''a''] (demo_pg [] [5] demo_db) = s2 \<and> pg_faults s2 = []
    \<and> map_of (t_assoc (pg_db s2)) ''a'' \<noteq> map_of (t_assoc demo_db) ''a'' \<and> length (t_outbox (pg_db s2)) = 1"
  by (simp add: demo_eval demo_db_def demo_shift_def domain_simps)


text \<open>
  Two saves of an assignment record with nothing written in between, both carrying the version
  that was stored before the first: the second one fails.
\<close>

theorem no_lost_reassignment:
  assumes "pg_Save_asg l s = (Inr (), s1)" "map_of (t_asg (cur s)) (la_associateId l) \<noteq> None"
    and "la_associateId m = la_associateId l" "la_version m = la_version l"
    and "cur s2 = cur s1" "pg_Save_asg m s2 = (r, s3)"
  shows "r \<noteq> Inr ()"
proof
  assume "r = Inr ()"
  obtain row where row: "map_of (t_asg (cur s)) (la_associateId l) = Some row" using assms(2) by auto
  obtain row' where v: "rl_version row = la_version l" "map_of (t_asg (cur s1)) (la_associateId l) = Some row'"
    "rl_version row' = rl_version row + 1"
    using pg_Save_asg_version [OF assms(1) row] by auto
  show False using pg_Save_asg_version [of m s2 s3 row'] \<open>r = Inr ()\<close> assms(3-6) v by simp
qed

definition demo_idle_db :: db where
  "demo_idle_db = demo_db\<lparr>t_asg := [(''a'', asg_row_of demo_idle 1)]\<rparr>"

text \<open>
  The guard does not cover the first save. A fresh aggregate carries version 1, which is also
  the version its \<open>INSERT\<close> stores, so when two requests both find no row, the second save
  matches the first one's row and overwrites it, both reporting success.
\<close>

theorem first_save_race:
  assumes "map_of (t_assoc (pg_db s)) i = None" "pg_tx s = None" "pg_faults s = []"
  shows "\<exists>s1 s2. pg_Save_assoc (NewAssociateShift i certs1 t1) s = (Inr (), s1)
    \<and> pg_Save_assoc (NewAssociateShift i certs2 t2) s1 = (Inr (), s2)
    \<and> map_of (t_assoc (pg_db s2)) i = Some (assoc_row_of (NewAssociateShift i certs2 t2) 2)"
  using assms
  by (simp add: pg_Save_assoc_def obind_def pg_stmt_def pg_fault_def upsert_assoc_def assoc_row_of_def domain_simps)

text \<open>
  The guard does not relate the two records of an associate. An \<open>AssignLabor\<close> that closes no
  interval saves only the assignment, an \<open>EndAssociateShift\<close> that finds nothing active saves only
  the shift: when the ending commits between the other's loads and its save, both succeed, and
  an ended shift is left with an active assignment.
\<close>

theorem end_assign_skew:
  "\<exists>la s1 s2 s3. assign_prepare demo_ports (Fin 8) ''a'' ''pack'' (demo_pg [] [5, 6] demo_idle_db) = (Inr (la, None), s1)
    \<and> EndAssociateShift_Execute demo_ports (Fin 8) ''a'' s1 = (Inr (), s2)
    \<and> atomically demo_ports (assign_body demo_ports None la) s2 = (Inr (), s3)
    \<and> map_option ra_ended (map_of (t_assoc (pg_db s3)) ''a'') = Some True
    \<and> map_option rl_active_path_id (map_of (t_asg (pg_db s3)) ''a'') = Some (Some ''pack'')
    \<and> \<not> sys_inv (Fin 8) (pg_view (\<lambda>rs. rs) s3)"
  by (auto simp: demo_eval demo_idle_db_def demo_db_def demo_idle_def demo_shift_def domain_simps sys_inv_def
      pg_view_def db_view_def cur_def active_of_def)

section \<open>What a request does\<close>

text \<open>
  C8: \<open>AssignLabor\<close> succeeds only for an associate on the roster who holds the path's
  certification, is not on break and whose shift has not ended. That associate is then active on
  that path and on no other; whoever else was active anywhere is so still, for no other
  associate's records and no plan have changed.
\<close>

theorem assign_labor_gate:
  assumes "\<And>rs. mset (ord rs) = mset rs" "pg_inv s"
    and "AssignLabor_Execute (pg_ports k trace ord) mx i p s = (Inr l, s')"
  shows "\<exists>a m. v_assoc (pg_view ord s) i = Some a \<and> p \<in> as_certifications a \<and> \<not> as_onBreak a \<and> \<not> as_ended a
    \<and> v_asg (pg_view ord s') = (v_asg (pg_view ord s))(i \<mapsto> m) \<and> active_on p m
    \<and> v_plan (pg_view ord s') = v_plan (pg_view ord s)
    \<and> (\<forall>j. j \<noteq> i \<longrightarrow> v_assoc (pg_view ord s') j = v_assoc (pg_view ord s) j)"
proof -
  obtain a t l' m ch and l0 :: LaborAssignment where *: "v_assoc (pg_view ord s) i = Some a" "CanBeAssigned a = Inr ()"
    "Assign l0 p (HasCertification a p) t = Inr l'" "stored_asg l' m"
    "v_asg (pg_view ord s') = (v_asg (pg_view ord s))(i \<mapsto> m)" "v_plan (pg_view ord s') = v_plan (pg_view ord s)"
    "case ch of None \<Rightarrow> v_assoc (pg_view ord s') = v_assoc (pg_view ord s)
      | Some a' \<Rightarrow> \<exists>b. stored_assoc a' b \<and> v_assoc (pg_view ord s') = (v_assoc (pg_view ord s))(i \<mapsto> b)"
    using workforce.AssignLabor_effect [OF pg_workforce [OF assms(1)] assms(3,2)] by blast
  have "p \<in> as_certifications a" "\<exists>iv. la_active l' = Some iv \<and> iv_PathId iv = p"
    using *(3) by (auto simp: domain_simps split: if_splits option.splits)
  moreover have "\<not> as_onBreak a" "\<not> as_ended a" using *(2) by (auto simp: CanBeAssigned_def split: if_splits)
  moreover have "active_on p m" using *(4) calculation(2)
    by (auto simp: stored_asg_def active_on_def same_start_def option_rel_Some1)
  ultimately show ?thesis using * by (intro exI [of _ a] exI [of _ m]) (auto split: option.splits)
qed

lemma end_shift_hours:
  assumes "close_assignment mx a la t = Inr (ch, sh)"
  shows "(case la of None \<Rightarrow> sh = a | Some l \<Rightarrow> (case la_active l of None \<Rightarrow> sh = a
    | Some iv \<Rightarrow> sh = a\<lparr>as_hoursLogged := fadd (as_hoursLogged a) (interval_Hours iv t)\<rparr>
        \<and> \<not> flt mx (fadd (as_hoursLogged a) (interval_Hours iv t)) \<and> ch = Some (closeActive l t)))
    \<and> (ch = None \<longleftrightarrow> (\<forall>l. la = Some l \<longrightarrow> la_active l = None))"
  using assms by (auto simp: close_assignment_def EndActive_def map_sum_def LogHours_def
      split: option.splits sum.splits if_splits)

text \<open>
  \<open>EndAssociateShift\<close> leaves the associate ended and active nowhere. If an interval was
  active it has been closed and its hours, within the limit, have been added to the shift's.
\<close>

theorem end_shift_frees:
  assumes "\<And>rs. mset (ord rs) = mset rs" "pg_inv s"
    and "EndAssociateShift_Execute (pg_ports k trace ord) mx i s = (Inr (), s')"
  shows "\<exists>a b t. v_assoc (pg_view ord s) i = Some a \<and> v_assoc (pg_view ord s') = (v_assoc (pg_view ord s))(i \<mapsto> b)
    \<and> as_ended b \<and> as_certifications b = as_certifications a
    \<and> (\<forall>l. v_asg (pg_view ord s') i = Some l \<longrightarrow> la_active l = None)
    \<and> as_hoursLogged b = (case v_asg (pg_view ord s) i of None \<Rightarrow> as_hoursLogged a
        | Some l \<Rightarrow> (case la_active l of None \<Rightarrow> as_hoursLogged a
            | Some iv \<Rightarrow> fadd (as_hoursLogged a) (interval_Hours iv t)))
    \<and> (\<forall>j. j \<noteq> i \<longrightarrow> v_asg (pg_view ord s') j = v_asg (pg_view ord s) j)"
proof -
  obtain a t ch sh b where *: "v_assoc (pg_view ord s) i = Some a"
    "close_assignment mx a (v_asg (pg_view ord s) i) t = Inr (ch, sh)" "stored_assoc (EndShift sh t) b"
    "v_assoc (pg_view ord s') = (v_assoc (pg_view ord s))(i \<mapsto> b)"
    "case ch of None \<Rightarrow> v_asg (pg_view ord s') = v_asg (pg_view ord s)
        | Some l \<Rightarrow> \<exists>m. stored_asg l m \<and> v_asg (pg_view ord s') = (v_asg (pg_view ord s))(i \<mapsto> m)"
    using workforce.EndAssociateShift_effect [OF pg_workforce [OF assms(1)] assms(3,2)] by blast
  note h = end_shift_hours [OF *(2)]
  have b: "as_ended b" "as_certifications b = as_certifications sh" "as_hoursLogged b = as_hoursLogged sh"
    using *(3) by (auto simp: stored_assoc_def EndShift_def as_record_def split: if_splits)
  have "as_certifications sh = as_certifications a" using h by (auto split: option.splits)
  moreover have "\<forall>l. v_asg (pg_view ord s') i = Some l \<longrightarrow> la_active l = None"
    using *(5) h stored_fields(2) by (fastforce simp: closeActive_def split: option.splits)
  moreover have "\<forall>j. j \<noteq> i \<longrightarrow> v_asg (pg_view ord s') j = v_asg (pg_view ord s) j"
    using *(5) by (auto split: option.splits)
  moreover have "as_hoursLogged sh = (case v_asg (pg_view ord s) i of None \<Rightarrow> as_hoursLogged a
        | Some l \<Rightarrow> (case la_active l of None \<Rightarrow> as_hoursLogged a
            | Some iv \<Rightarrow> fadd (as_hoursLogged a) (interval_Hours iv t)))"
    using h by (auto split: option.splits)
  ultimately show ?thesis using *(1,4) b by (intro exI [of _ a] exI [of _ b] exI [of _ t]) simp
qed

definition demo_assigned :: pg where
  "demo_assigned = snd (AssignLabor_Execute demo_ports (Fin 8) ''a'' ''pack'' (demo_pg [] [5] demo_db))"

lemma demo_db_inv: "pg_inv (demo_pg fs ts demo_db)"
  by (simp add: demo_pg_def demo_db_def empty_db_def pg_inv_def db_inv_def gwf_def)

theorem assign_labor_gate_witness:
  "''pack'' \<in> as_certifications (the (v_assoc (pg_view (\<lambda>rs. rs) (demo_pg [] [5] demo_db)) ''a''))"
proof -
  have "\<exists>l. AssignLabor_Execute demo_ports (Fin 8) ''a'' ''pack'' (demo_pg [] [5] demo_db) = (Inr l, demo_assigned)"
    by (simp add: demo_assigned_def demo_eval demo_db_def demo_shift_def domain_simps)
  then obtain l where "AssignLabor_Execute demo_ports (Fin 8) ''a'' ''pack'' (demo_pg [] [5] demo_db) = (Inr l, demo_assigned)" ..
  from assign_labor_gate [OF _ demo_db_inv this] show ?thesis by auto
qed

end
