(* ===== verification/Relay.thy ===== *)
theory Relay
  imports Postgres
begin

text \<open>
  \<open>postgres/outbox_relay.go\<close>: draining \<open>outbox_events\<close> onto the broker, and the lag query of
  \<open>outbox_metrics.go\<close>. The relay has a connection of its own; \<open>send\<close> is its sink over the
  broker's state \<open>'w\<close> (\<open>RelaySink_Send\<close> over a kafka-go writer). \<open>locked\<close> are the ids another
  relay holds, which \<open>FOR UPDATE SKIP LOCKED\<close> passes over. A pass returns its count and its
  error, as the code does.
\<close>

type_synonym 'w relay = "pg \<times> 'w"

record relay_config =
  rc_interval :: duration
  rc_batchSize :: int

definition WithInterval :: "duration \<Rightarrow> relay_config \<Rightarrow> relay_config" where
  "WithInterval d r = (if d > 0 then r\<lparr>rc_interval := d\<rparr> else r)"

definition WithBatchSize :: "int \<Rightarrow> relay_config \<Rightarrow> relay_config" where
  "WithBatchSize n r = (if n > 0 then r\<lparr>rc_batchSize := n\<rparr> else r)"

definition NewOutboxRelay :: "(relay_config \<Rightarrow> relay_config) list \<Rightarrow> relay_config" where
  "NewOutboxRelay opts = fold (\<lambda>opt r. opt r) opts \<lparr>rc_interval = 1000000000, rc_batchSize = 100\<rparr>"

type_synonym pending = "int \<times> Encoded"

definition row_encoded :: "outbox_row \<Rightarrow> headers \<Rightarrow> Encoded" where
  "row_encoded r hs = \<lparr>en_Topic = ob_topic r, en_EventType = ob_event_type r, en_Key = ob_key r,
     en_Value = ob_value r, en_Headers = hs\<rparr>"

fun decode_rows :: "outbox_row list \<Rightarrow> err + pending list" where
  "decode_rows [] = Inr []"
| "decode_rows (r # rs) = (case unmarshalHeaders (ob_headers r) of
       Inl e \<Rightarrow> Inl (Wrap (''postgres: decode outbox row '' @ print_int (ob_id r) @ '' headers'') e)
     | Inr hs \<Rightarrow> map_sum id (\<lambda>ps. (ob_id r, row_encoded r hs) # ps) (decode_rows rs))"

definition claimable :: "int set \<Rightarrow> db \<Rightarrow> outbox_row list" where
  "claimable locked d = sort_key ob_id (filter (\<lambda>r. ob_published_at r = None \<and> ob_id r \<notin> locked) (t_outbox d))"

definition claim :: "int \<Rightarrow> int set \<Rightarrow> (pg, pending list) op" where
  "claim batchSize locked =
     ocatch (pg_query (\<lambda>d. take (nat batchSize) (claimable locked d))) (\<lambda>r. case r of
         Inl e \<Rightarrow> ofail (Wrap ''postgres: claim outbox rows'' e)
       | Inr rows \<Rightarrow> olift (decode_rows rows))"

definition update_row :: "int \<Rightarrow> (outbox_row \<Rightarrow> outbox_row) \<Rightarrow> db \<Rightarrow> err + unit \<times> db" where
  "update_row i f d = Inr ((), d\<lparr>t_outbox := map (\<lambda>r. if ob_id r = i then f r else r) (t_outbox d)\<rparr>)"

definition mark_published :: "int \<Rightarrow> (pg, unit) op" where
  "mark_published i s = pg_stmt (update_row i (\<lambda>r. r\<lparr>ob_published_at := Some (pg_now s),
     ob_attempts := ob_attempts r + 1, ob_last_error := None\<rparr>)) s"

definition failRow :: "pending \<Rightarrow> err \<Rightarrow> pg \<Rightarrow> err \<times> pg" where
  "failRow p e s =
     (case pg_stmt (update_row (fst p) (\<lambda>r. r\<lparr>ob_attempts := ob_attempts r + 1, ob_last_error := Some e\<rparr>)) s of
        (u, s1) \<Rightarrow>
          let e1 = (case u of Inl ue \<Rightarrow> Joined [e, Wrap ''postgres: record outbox failure'' ue] | Inr _ \<Rightarrow> e)
          in case pg_Commit s1 of (c, s2) \<Rightarrow>
            let e2 = (case c of Inl ce \<Rightarrow> Joined [e1, Wrap ''postgres: commit relay pass'' ce] | Inr _ \<Rightarrow> e1)
            in (Wrap (''outbox relay: send '' @ en_EventType (snd p) @ '' to '' @ en_Topic (snd p)) e2, s2))"

fun flush ::
  "(Encoded list \<Rightarrow> ('w, unit) op) \<Rightarrow> pending list \<Rightarrow> int \<Rightarrow> 'w relay \<Rightarrow> (int \<times> err option) \<times> 'w relay" where
  "flush send [] published (s, w) =
     (case pg_Commit s of
        (Inl e, s) \<Rightarrow>
          if \<not> errors_is e ErrTxClosed
          then ((published, Some (Wrap ''postgres: commit relay pass'' e)), (s, w))
          else ((published, None), (s, w))
      | (Inr _, s) \<Rightarrow> ((published, None), (s, w)))"
| "flush send (p # ps) published (s, w) =
     (case send [snd p] w of
        (Inl e, w) \<Rightarrow> (case failRow p e s of (e, s) \<Rightarrow> ((published, Some e), (s, w)))
      | (Inr _, w) \<Rightarrow>
          (case mark_published (fst p) s of
             (Inl e, s) \<Rightarrow>
               ((published, Some (Wrap (''postgres: mark outbox row '' @ print_int (fst p) @ '' published'') e)), (s, w))
           | (Inr _, s) \<Rightarrow> flush send ps (published + 1) (s, w)))"

text \<open>One pass; the deferred rollback ends whatever transaction is still open.\<close>

definition RelayOnce ::
  "(Encoded list \<Rightarrow> ('w, unit) op) \<Rightarrow> int \<Rightarrow> int set \<Rightarrow> 'w relay \<Rightarrow> (int \<times> err option) \<times> 'w relay" where
  "RelayOnce send batchSize locked sw =
     (case sw of (s, w) \<Rightarrow> case pg_Begin s of
        (Inl e, s) \<Rightarrow> ((0, Some (Wrap ''postgres: begin relay pass'' e)), (s, w))
      | (Inr _, s) \<Rightarrow>
          (case claim batchSize locked s of
             (Inl e, s) \<Rightarrow> ((0, Some e), (snd (pg_Rollback s), w))
           | (Inr batch, s) \<Rightarrow>
               (case flush send batch 0 (s, w) of (res, (s, w)) \<Rightarrow> (res, (snd (pg_Rollback s), w)))))"

text \<open>
  \<open>Run\<close>, until the context is cancelled: \<open>cancelled\<close> is what each \<open>select\<close> finds. None when
  the fuel, one unit per pass, runs out first. A full batch goes on without a \<open>select\<close>.
\<close>

fun relay_Run ::
  "nat \<Rightarrow> (Encoded list \<Rightarrow> ('w, unit) op) \<Rightarrow> int \<Rightarrow> bool list \<Rightarrow> 'w relay \<Rightarrow> (err \<times> 'w relay) option" where
  "relay_Run 0 send batchSize cancelled sw = None"
| "relay_Run (Suc fuel) send batchSize cancelled sw =
     (case RelayOnce send batchSize {} sw of ((n, e), sw) \<Rightarrow>
        if n = batchSize \<and> e = None then relay_Run fuel send batchSize cancelled sw
        else (case cancelled of
            [] \<Rightarrow> None
          | True # _ \<Rightarrow> Some (Sentinel ContextCanceled, sw)
          | False # cs \<Rightarrow> relay_Run fuel send batchSize cs sw))"

text \<open>The lag gauge: the age of the oldest unpublished row, 0 when there is none.\<close>

definition oldestUnpublishedLagSeconds :: "(pg, f64) op" where
  "oldestUnpublishedLagSeconds s =
     ocatch (pg_query (\<lambda>d. case claimable {} d of [] \<Rightarrow> Inl (Sentinel ErrNoRows)
          | r # _ \<Rightarrow> Inr (Seconds (pg_now s - ob_created_at r)))) (\<lambda>r. case r of
         Inl e \<Rightarrow> ofail (Wrap ''postgres: query outbox lag'' e)
       | Inr (Inl e) \<Rightarrow> if errors_is e ErrNoRows then oret (Fin 0) else ofail (Wrap ''postgres: query outbox lag'' e)
       | Inr (Inr lag) \<Rightarrow> oret lag) s"

section \<open>Headers survive the outbox\<close>

lemma header_of_marshal: "header_of (JObj [(''key'', JStr k), (''value'', JStr v)]) = Some (k, v)"
  by simp

lemma unmarshal_marshal: "unmarshalHeaders (marshalHeaders hs) = Inr hs"
proof -
  have "map (\<lambda>j. the (header_of j)) (map (\<lambda>(k, v). JObj [(''key'', JStr k), (''value'', JStr v)]) hs) = hs"
    by (induction hs) auto
  moreover have "list_all (\<lambda>j. header_of j \<noteq> None) (map (\<lambda>(k, v). JObj [(''key'', JStr k), (''value'', JStr v)]) hs)"
    by (induction hs) auto
  ultimately show ?thesis by (simp add: marshalHeaders_def)
qed

section \<open>What a pass does\<close>

text \<open>
  The documented behaviour of a kafka-go writer: a call that returns nil has delivered its
  messages in order; one that fails may have delivered some of them.
\<close>

definition writer_ok :: "(Message list \<Rightarrow> ('w, unit) op) \<Rightarrow> ('w \<Rightarrow> Message list) \<Rightarrow> bool" where
  "writer_ok wr dlog \<longleftrightarrow>
     (\<forall>ms w r w'. wr ms w = (r, w') \<longrightarrow>
        (case r of Inr _ \<Rightarrow> dlog w' = dlog w @ ms | Inl _ \<Rightarrow> \<exists>k. dlog w' = dlog w @ take k ms))"

text \<open>Rows as \<open>OutboxPublisher\<close> writes them: distinct ids, a topic, marshalled headers.\<close>

definition outbox_ok :: "db \<Rightarrow> bool" where
  "outbox_ok d \<longleftrightarrow> distinct (map ob_id (t_outbox d))
     \<and> (\<forall>r \<in> set (t_outbox d). ob_topic r \<noteq> '''' \<and> (\<exists>hs. ob_headers r = marshalHeaders hs))"

definition pub :: "db \<Rightarrow> int set" where
  "pub d = {i. \<exists>r \<in> set (t_outbox d). ob_id r = i \<and> ob_published_at r \<noteq> None}"

definition ids :: "db \<Rightarrow> int set" where
  "ids d = ob_id ` set (t_outbox d)"

definition row_headers :: "outbox_row \<Rightarrow> headers" where
  "row_headers r = (case unmarshalHeaders (ob_headers r) of Inr hs \<Rightarrow> hs | Inl _ \<Rightarrow> [])"

definition row_pending :: "outbox_row \<Rightarrow> pending" where
  "row_pending r = (ob_id r, row_encoded r (row_headers r))"

lemma decode_rows_ok:
  "\<forall>r \<in> set rs. \<exists>hs. ob_headers r = marshalHeaders hs \<Longrightarrow> decode_rows rs = Inr (map row_pending rs)"
  by (induction rs) (auto simp: unmarshal_marshal row_pending_def row_headers_def)

lemma Send_one:
  assumes "RelaySink_Send wr [m] w = (r, w')" "writer_ok wr dlog" "en_Topic m \<noteq> ''''"
  shows "\<exists>j. dlog w' = dlog w @ take j [message m True] \<and> (r = Inr () \<longrightarrow> 1 \<le> j)"
proof -
  obtain u w1 where w: "wr [message m True] w = (u, w1)" by fastforce
  have W: "case u of Inr _ \<Rightarrow> dlog w1 = dlog w @ [message m True] | Inl _ \<Rightarrow> \<exists>k. dlog w1 = dlog w @ take k [message m True]"
    using assms(2) w by (auto simp: writer_ok_def)
  show ?thesis
  proof (cases u)
    case (Inl e)
    then show ?thesis using assms(1,3) w W by (auto simp: RelaySink_Send_def ocatch_app)
  next
    case (Inr x)
    then have "w' = w1" using assms(1,3) w by (auto simp: RelaySink_Send_def ocatch_app)
    then show ?thesis using W Inr by (intro exI [of _ 1]) simp
  qed
qed

lemma update_row_pub:
  assumes "update_row i f d = Inr ((), d')" "\<And>r. ob_id (f r) = ob_id r"
  shows "ids d' = ids d"
    and "\<forall>r. ob_published_at (f r) = ob_published_at r \<Longrightarrow> pub d' = pub d"
    and "\<forall>r. ob_published_at (f r) \<noteq> None \<Longrightarrow> i \<in> ids d \<Longrightarrow> pub d' = insert i (pub d)"
proof -
  let ?g = "\<lambda>r. if ob_id r = i then f r else r"
  have o: "t_outbox d' = map ?g (t_outbox d)" using assms(1) by (auto simp: update_row_def)
  have g: "ob_id (?g r) = ob_id r" for r using assms(2) by simp
  show "ids d' = ids d" unfolding ids_def o set_map image_image g ..
  have p: "pub d' = {j. \<exists>r \<in> set (t_outbox d). ob_id r = j \<and> ob_published_at (?g r) \<noteq> None}"
    unfolding pub_def o using g by (simp only: set_map bex_simps)
  show "\<forall>r. ob_published_at (f r) = ob_published_at r \<Longrightarrow> pub d' = pub d"
    unfolding p pub_def [of d] by (intro Collect_cong bex_cong) auto
  show "\<forall>r. ob_published_at (f r) \<noteq> None \<Longrightarrow> i \<in> ids d \<Longrightarrow> pub d' = insert i (pub d)"
  proof (intro set_eqI)
    fix j assume f: "\<forall>r. ob_published_at (f r) \<noteq> None" and i: "i \<in> ids d"
    show "j \<in> pub d' \<longleftrightarrow> j \<in> insert i (pub d)"
    proof (cases "j = i")
      case True
      then show ?thesis unfolding p using f i by (auto simp: ids_def)
    next
      case False
      then have "j \<in> pub d' \<longleftrightarrow> j \<in> pub d" unfolding p pub_def [of d] mem_Collect_eq by (intro bex_cong) auto
      then show ?thesis using False by simp
    qed
  qed
qed

lemma mark_published_cases:
  assumes "mark_published i s = (r, s')" "pg_tx s = Some d" "i \<in> ids d"
  shows "pg_db s' = pg_db s \<and> (\<exists>d'. pg_tx s' = Some d' \<and> ids d' = ids d
    \<and> (case r of Inl _ \<Rightarrow> d' = d | Inr _ \<Rightarrow> pub d' = insert i (pub d)))"
proof -
  note c = pg_stmt_cases [OF assms(1) [unfolded mark_published_def]]
  obtain d' where d': "pg_tx s' = Some d'" using c assms(2) by (auto simp: same_conn_def)
  have db: "pg_db s' = pg_db s" using c assms(2) by (auto simp: same_conn_def)
  show ?thesis
  proof (cases r)
    case (Inl e)
    then show ?thesis using c d' db assms(2) by (simp add: cur_def)
  next
    case (Inr u)
    then show ?thesis
      using c d' db assms(2,3) update_row_pub [of i _ d d'] by (auto simp: cur_def)
  qed
qed

lemma failRow_cases:
  assumes "failRow p e s = (e', s')" "pg_tx s = Some d"
  shows "pg_tx s' = None \<and> (pg_db s' = pg_db s \<or> pub (pg_db s') = pub d)"
proof -
  obtain u s1 where u: "pg_stmt (update_row (fst p) (\<lambda>r. r\<lparr>ob_attempts := ob_attempts r + 1, ob_last_error := Some e\<rparr>)) s = (u, s1)"
    by fastforce
  obtain c s2 where c: "pg_Commit s1 = (c, s2)" by fastforce
  have s': "s' = s2" using assms(1) u c by (auto simp: failRow_def Let_def)
  note k = pg_stmt_cases [OF u]
  obtain d1 where d1: "pg_tx s1 = Some d1" and db1: "pg_db s1 = pg_db s"
    using k assms(2) by (auto simp: same_conn_def)
  have "pub d1 = pub d"
    using k d1 assms(2) update_row_pub(2) [of "fst p" "\<lambda>r. r\<lparr>ob_attempts := ob_attempts r + 1, ob_last_error := Some e\<rparr>" d d1]
    by (auto simp: cur_def split: sum.splits)
  then show ?thesis using pg_Commit_cases [OF c d1] db1 s' by (auto split: sum.splits)
qed

lemma flush_cases:
  assumes "flush (RelaySink_Send wr) ps n (s, w) = ((k, e), (s', w'))" "writer_ok wr dlog"
    and "pg_tx s = Some d" "\<forall>p \<in> set ps. en_Topic (snd p) \<noteq> '''' \<and> fst p \<in> ids d"
  shows "\<exists>j m. k = n + int j \<and> j \<le> m \<and> m \<le> Suc j \<and> j \<le> length ps
    \<and> dlog w' = dlog w @ map (\<lambda>p. message (snd p) True) (take m ps)
    \<and> (pg_db s' = pg_db s \<or> pub (pg_db s') = pub d \<union> fst ` set (take j ps))
    \<and> (e = None \<longrightarrow> j = length ps \<and> pub (pg_db s') = pub d \<union> fst ` set ps)"
  using assms(1,3,4)
proof (induction ps arbitrary: n s w d)
  case Nil
  obtain c s1 where c: "pg_Commit s = (c, s1)" by fastforce
  have "\<not> errors_is ce ErrTxClosed" if "c = Inl ce" for ce
    using c Nil.prems(2) that by (auto simp: pg_Commit_def dest!: pg_fault_cases split: prod.splits sum.splits if_splits)
  then show ?case using Nil.prems(1) c pg_Commit_cases [OF c Nil.prems(2)]
    by (auto split: sum.splits if_splits)
next
  case (Cons p ps)
  obtain r w1 where r: "RelaySink_Send wr [snd p] w = (r, w1)" by fastforce
  obtain j where j: "dlog w1 = dlog w @ take j [message (snd p) True]" "r = Inr () \<longrightarrow> 1 \<le> j"
    using Send_one [OF r assms(2)] Cons.prems(3) by auto
  show ?case
  proof (cases r)
    case (Inl x)
    obtain e' s1 where f: "failRow p x s = (e', s1)" by fastforce
    then have *: "k = n" "e = Some e'" "s' = s1" "w' = w1" using Cons.prems(1) r Inl by auto
    show ?thesis
      by (rule exI [of _ 0], rule exI [of _ "min j 1"])
        (use * failRow_cases [OF f Cons.prems(2)] j(1) in \<open>cases j; auto\<close>)
  next
    case (Inr u)
    then have w1: "dlog w1 = dlog w @ [message (snd p) True]" using j by (cases j) auto
    obtain mr s1 where m: "mark_published (fst p) s = (mr, s1)" by fastforce
    obtain d1 where d1: "pg_db s1 = pg_db s" "pg_tx s1 = Some d1" "ids d1 = ids d"
      "case mr of Inl _ \<Rightarrow> d1 = d | Inr _ \<Rightarrow> pub d1 = insert (fst p) (pub d)"
      using mark_published_cases [OF m Cons.prems(2)] Cons.prems(3) by auto
    show ?thesis
    proof (cases mr)
      case (Inl x)
      then have *: "k = n" "e \<noteq> None" "s' = s1" "w' = w1" using Cons.prems(1) r Inr m by auto
      show ?thesis by (rule exI [of _ 0], rule exI [of _ 1]) (use * w1 d1(1) in auto)
    next
      case (Inr v)
      then have fl: "flush (RelaySink_Send wr) ps (n + 1) (s1, w1) = ((k, e), (s', w'))"
        using Cons.prems(1) r \<open>r = Inr u\<close> m by simp
      obtain j m where jm: "k = n + 1 + int j" "j \<le> m" "m \<le> Suc j" "j \<le> length ps"
        "dlog w' = dlog w1 @ map (\<lambda>p. message (snd p) True) (take m ps)"
        "pg_db s' = pg_db s1 \<or> pub (pg_db s') = pub d1 \<union> fst ` set (take j ps)"
        "e = None \<longrightarrow> j = length ps \<and> pub (pg_db s') = pub d1 \<union> fst ` set ps"
        using Cons.IH [OF fl d1(2)] Cons.prems(3) d1(3) by auto
      show ?thesis
        by (rule exI [of _ "Suc j"], rule exI [of _ "Suc m"]) (use jm w1 d1(1,4) Inr in auto)
    qed
  qed
qed

text \<open>The claimed rows: distinct, unpublished, in the order of their ids.\<close>

lemma claimable_props:
  assumes "outbox_ok d"
  shows "distinct (map ob_id (claimable lk d))" "sorted (map ob_id (claimable lk d))"
    "set (claimable lk d) = {r \<in> set (t_outbox d). ob_published_at r = None \<and> ob_id r \<notin> lk}"
proof -
  show "sorted (map ob_id (claimable lk d))" by (simp add: claimable_def)
  show "set (claimable lk d) = {r \<in> set (t_outbox d). ob_published_at r = None \<and> ob_id r \<notin> lk}"
    by (auto simp: claimable_def)
  have "mset (map ob_id (claimable lk d))
      = mset (map ob_id (filter (\<lambda>r. ob_published_at r = None \<and> ob_id r \<notin> lk) (t_outbox d)))"
    by (simp add: claimable_def)
  moreover have "distinct (map ob_id (filter (\<lambda>r. ob_published_at r = None \<and> ob_id r \<notin> lk) (t_outbox d)))"
    using assms by (simp add: outbox_ok_def distinct_map_filter)
  ultimately show "distinct (map ob_id (claimable lk d))" by (metis mset_eq_imp_distinct_iff)
qed

definition row_message :: "outbox_row \<Rightarrow> Message" where
  "row_message r = message (row_encoded r (row_headers r)) True"

lemma claim_cases:
  assumes "claim n lk s = (r, s')" "pg_tx s = Some d" "outbox_ok d"
  shows "same_conn s s' \<and> cur s' = d \<and> (\<forall>ps. r = Inr ps \<longrightarrow> ps = map row_pending (take (nat n) (claimable lk d)))"
proof -
  have c: "cur s = d" using assms(2) by (simp add: cur_def)
  obtain q s1 where q: "pg_query (\<lambda>d. take (nat n) (claimable lk d)) s = (q, s1)" by fastforce
  note k = pg_query_cases [OF q]
  have h: "\<forall>r \<in> set (take (nat n) (claimable lk d)). \<exists>hs. ob_headers r = marshalHeaders hs"
    using assms(3) claimable_props(3) [OF assms(3), of lk] by (auto simp: outbox_ok_def dest: in_set_takeD)
  show ?thesis
    using assms(1) q k c decode_rows_ok [OF h] by (auto simp: claim_def ocatch_app split: sum.splits)
qed

lemma RelayOnce_cases:
  assumes "RelayOnce (RelaySink_Send wr) n lk (s, w) = ((k, e), (s', w'))" "writer_ok wr dlog"
    and "pg_tx s = None" "outbox_ok (pg_db s)"
  defines "rows \<equiv> take (nat n) (claimable lk (pg_db s))"
  shows "\<exists>j m. k = int j \<and> j \<le> m \<and> m \<le> Suc j \<and> j \<le> length rows
    \<and> dlog w' = dlog w @ map row_message (take m rows) \<and> pg_tx s' = None
    \<and> (pg_db s' = pg_db s \<or> pub (pg_db s') = pub (pg_db s) \<union> ob_id ` set (take j rows))
    \<and> (e = None \<longrightarrow> j = length rows \<and> pub (pg_db s') = pub (pg_db s) \<union> ob_id ` set rows)"
proof -
  obtain b s0 where b: "pg_Begin s = (b, s0)" by fastforce
  show ?thesis
  proof (cases b)
    case (Inl x)
    then have "k = 0" "e \<noteq> None" "s' = s0" "w' = w" using assms(1) b by (auto simp: RelayOnce_def)
    then show ?thesis using pg_Begin_cases [OF b assms(3)] Inl
      by (intro exI [of _ 0]) auto
  next
    case (Inr u)
    have t0: "pg_db s0 = pg_db s" "pg_tx s0 = Some (pg_db s)"
      using pg_Begin_cases [OF b assms(3)] Inr by auto
    obtain c s1 where c: "claim n lk s0 = (c, s1)" by fastforce
    note kc = claim_cases [OF c t0(2) assms(4)]
    have t1: "pg_db s1 = pg_db s" "pg_tx s1 = Some (pg_db s)"
      using kc t0 by (auto simp: same_conn_def cur_def split: option.splits)
    show ?thesis
    proof (cases c)
      case (Inl x)
      then have "k = 0" "e \<noteq> None" "s' = snd (pg_Rollback s1)" "w' = w"
        using assms(1) b \<open>b = Inr u\<close> c by (auto simp: RelayOnce_def)
      then show ?thesis using pg_Rollback_cases [of s1 "fst (pg_Rollback s1)" s'] t1
        by (intro exI [of _ 0]) auto
    next
      case (Inr ps)
      have ps: "ps = map row_pending rows" using kc Inr by (simp add: rows_def)
      obtain k1 e1 s2 w2 where f: "flush (RelaySink_Send wr) ps 0 (s1, w) = ((k1, e1), (s2, w2))"
        by (metis surj_pair)
      then have r: "k = k1" "e = e1" "s' = snd (pg_Rollback s2)" "w' = w2"
        using assms(1) b \<open>b = Inr u\<close> c Inr by (auto simp: RelayOnce_def)
      have s': "pg_tx s' = None" "pg_db s' = pg_db s2"
        using pg_Rollback_cases [of s2 "fst (pg_Rollback s2)" s'] r(3) by auto
      have mem: "set rows \<subseteq> set (t_outbox (pg_db s))"
        using claimable_props(3) [OF assms(4), of lk] unfolding rows_def by (auto dest: in_set_takeD)
      have "\<forall>p \<in> set ps. en_Topic (snd p) \<noteq> '''' \<and> fst p \<in> ids (pg_db s)"
        using mem assms(4) by (auto simp: ps row_pending_def row_encoded_def ids_def outbox_ok_def)
      from flush_cases [OF f assms(2) t1(2) this] obtain j m where
        "k1 = int j" "j \<le> m" "m \<le> Suc j" "j \<le> length ps"
        "dlog w2 = dlog w @ map (\<lambda>p. message (snd p) True) (take m ps)"
        "pg_db s2 = pg_db s1 \<or> pub (pg_db s2) = pub (pg_db s) \<union> fst ` set (take j ps)"
        "e1 = None \<longrightarrow> j = length ps \<and> pub (pg_db s2) = pub (pg_db s) \<union> fst ` set ps"
        by auto
      moreover have "map (\<lambda>p. message (snd p) True) (take m ps) = map row_message (take m rows)" for m
        by (simp add: ps take_map row_message_def row_pending_def o_def)
      moreover have "fst ` set (take j ps) = ob_id ` set (take j rows)" "fst ` set ps = ob_id ` set rows" for j
        by (simp_all add: ps take_map image_image row_pending_def)
      ultimately show ?thesis using r s' t1(1) by (auto simp: ps)
    qed
  qed
qed

section \<open>Draining: passes with a working database and broker\<close>

definition mark_row :: "time \<Rightarrow> outbox_row \<Rightarrow> outbox_row" where
  "mark_row t r = r\<lparr>ob_published_at := Some t, ob_attempts := ob_attempts r + 1, ob_last_error := None\<rparr>"

fun mark_all :: "time \<Rightarrow> int list \<Rightarrow> db \<Rightarrow> db" where
  "mark_all t [] d = d"
| "mark_all t (i # is) d =
     mark_all t is (d\<lparr>t_outbox := map (\<lambda>r. if ob_id r = i then mark_row t r else r) (t_outbox d)\<rparr>)"

definition healthy :: "pg \<Rightarrow> bool" where
  "healthy s \<longleftrightarrow> pg_faults s = [] \<and> \<not> pg_aborted s"

definition writer_up :: "(Message list \<Rightarrow> ('w, unit) op) \<Rightarrow> bool" where
  "writer_up wr \<longleftrightarrow> (\<forall>ms w. fst (wr ms w) = Inr ())"

lemma mark_published_healthy:
  "healthy s \<Longrightarrow> pg_tx s = Some d \<Longrightarrow> mark_published i s =
     (Inr (), s\<lparr>pg_tx := Some (d\<lparr>t_outbox := map (\<lambda>r. if ob_id r = i then mark_row (pg_now s) r else r) (t_outbox d)\<rparr>)\<rparr>)"
  by (simp add: mark_published_def pg_stmt_def pg_fault_def healthy_def update_row_def mark_row_def)

lemma Send_up:
  assumes "writer_ok wr dlog" "writer_up wr" "en_Topic m \<noteq> ''''"
  shows "\<exists>w'. RelaySink_Send wr [m] w = (Inr (), w') \<and> dlog w' = dlog w @ [message m True]"
proof -
  obtain u w1 where w: "wr [message m True] w = (u, w1)" by fastforce
  then have "u = Inr ()" using assms(2) by (metis writer_up_def fst_conv)
  moreover from this have "dlog w1 = dlog w @ [message m True]"
    using w assms(1) [unfolded writer_ok_def, rule_format, of "[message m True]" w u w1] by simp
  ultimately show ?thesis using w assms(3) by (auto simp: RelaySink_Send_def ocatch_app)
qed

lemma flush_healthy:
  assumes "writer_ok wr dlog" "writer_up wr" "healthy s" "pg_tx s = Some d"
    and "\<forall>p \<in> set ps. en_Topic (snd p) \<noteq> ''''"
  shows "\<exists>w'. flush (RelaySink_Send wr) ps n (s, w) =
      ((n + int (length ps), None), (pg_closed (s\<lparr>pg_db := mark_all (pg_now s) (map fst ps) d\<rparr>), w'))
    \<and> dlog w' = dlog w @ map (\<lambda>p. message (snd p) True) ps"
  using assms(3-5)
proof (induction ps arbitrary: n s d w)
  case Nil
  then show ?case by (simp add: pg_Commit_def pg_fault_def healthy_def pg_closed_def)
next
  case (Cons p ps)
  obtain w1 where w1: "RelaySink_Send wr [snd p] w = (Inr (), w1)" "dlog w1 = dlog w @ [message (snd p) True]"
    using Send_up [OF assms(1,2)] Cons.prems(3) by (metis list.set_intros(1))
  let ?d = "d\<lparr>t_outbox := map (\<lambda>r. if ob_id r = fst p then mark_row (pg_now s) r else r) (t_outbox d)\<rparr>"
  let ?s = "s\<lparr>pg_tx := Some ?d\<rparr>"
  have h: "healthy ?s" using Cons.prems(1) by (simp add: healthy_def)
  obtain w' where "flush (RelaySink_Send wr) ps (n + 1) (?s, w1) =
      ((n + 1 + int (length ps), None), (pg_closed (?s\<lparr>pg_db := mark_all (pg_now ?s) (map fst ps) ?d\<rparr>), w'))"
    "dlog w' = dlog w1 @ map (\<lambda>p. message (snd p) True) ps"
    using Cons.IH [OF h, of ?d "n + 1" w1] Cons.prems(3) by auto
  then show ?case
    using w1 mark_published_healthy [OF Cons.prems(1,2), of "fst p"]
    by (auto simp: pg_closed_def algebra_simps)
qed


lemma mark_all_unpublished:
  "filter (\<lambda>r. ob_published_at r = None) (t_outbox (mark_all t is d))
     = filter (\<lambda>r. ob_published_at r = None \<and> ob_id r \<notin> set is) (t_outbox d)"
proof (induction "is" arbitrary: d)
  case (Cons i "is")
  have "filter (\<lambda>r. ob_published_at r = None \<and> ob_id r \<notin> set is)
      (map (\<lambda>r. if ob_id r = i then mark_row t r else r) xs)
    = filter (\<lambda>r. ob_published_at r = None \<and> ob_id r \<notin> set (i # is)) xs" for xs
    by (induction xs) (auto simp: mark_row_def)
  then show ?case by (simp add: Cons.IH)
qed simp

lemma filter_notin_take:
  "distinct (map f xs) \<Longrightarrow> filter (\<lambda>x. f x \<notin> f ` set (take n xs)) xs = drop n xs"
proof (induction xs arbitrary: n)
  case (Cons x xs)
  show ?case
  proof (cases n)
    case (Suc m)
    have "filter (\<lambda>y. f y \<noteq> f x \<and> f y \<notin> f ` set (take m xs)) xs = filter (\<lambda>y. f y \<notin> f ` set (take m xs)) xs"
      using Cons.prems by (intro filter_cong) (auto simp: rev_image_eqI)
    then show ?thesis using Suc Cons by simp
  qed simp
qed simp

lemma claimable_marked:
  assumes "outbox_ok d"
  shows "claimable {} (mark_all t (map ob_id (take n (claimable {} d))) d) = drop n (claimable {} d)"
proof -
  let ?I = "ob_id ` set (take n (claimable {} d))"
  have "claimable {} (mark_all t (map ob_id (take n (claimable {} d))) d)
      = sort_key ob_id (filter (\<lambda>r. ob_published_at r = None \<and> ob_id r \<notin> ?I) (t_outbox d))"
    by (simp add: claimable_def mark_all_unpublished)
  also have "\<dots> = filter (\<lambda>r. ob_id r \<notin> ?I) (claimable {} d)"
    by (simp add: claimable_def filter_sort filter_filter conj_commute)
  also have "\<dots> = drop n (claimable {} d)"
    by (rule filter_notin_take [OF claimable_props(1) [OF assms]])
  finally show ?thesis .
qed

lemma mark_all_ok: "outbox_ok d \<Longrightarrow> outbox_ok (mark_all t is d)"
proof (induction "is" arbitrary: d)
  case (Cons i "is")
  have "map ob_id (map (\<lambda>r. if ob_id r = i then mark_row t r else r) (t_outbox d)) = map ob_id (t_outbox d)"
    by (auto simp: mark_row_def)
  then have "outbox_ok (d\<lparr>t_outbox := map (\<lambda>r. if ob_id r = i then mark_row t r else r) (t_outbox d)\<rparr>)"
    using Cons.prems by (auto simp: outbox_ok_def mark_row_def simp del: map_map)
  then show ?case by (simp add: Cons.IH)
qed simp

lemma RelayOnce_healthy:
  fixes n :: int
  assumes "writer_ok wr dlog" "writer_up wr" "healthy s" "pg_tx s = None" "outbox_ok (pg_db s)"
  defines "rows \<equiv> take (nat n) (claimable {} (pg_db s))"
  shows "\<exists>s' w'. RelayOnce (RelaySink_Send wr) n {} (s, w) = ((int (length rows), None), (s', w'))
    \<and> healthy s' \<and> pg_tx s' = None \<and> outbox_ok (pg_db s')
    \<and> claimable {} (pg_db s') = drop (nat n) (claimable {} (pg_db s))
    \<and> dlog w' = dlog w @ map row_message rows"
proof -
  let ?s0 = "s\<lparr>pg_tx := Some (pg_db s), pg_aborted := False\<rparr>" and ?ps = "map row_pending rows"
  have b: "pg_Begin s = (Inr (), ?s0)" using assms(3) by (simp add: pg_Begin_def healthy_def pg_fault_def obind_app)
  have mem: "set rows \<subseteq> set (t_outbox (pg_db s))"
    using claimable_props(3) [OF assms(5), of "{}"] unfolding rows_def by (auto dest: in_set_takeD)
  then have h: "\<forall>r \<in> set rows. \<exists>hs. ob_headers r = marshalHeaders hs" using assms(5) by (auto simp: outbox_ok_def)
  have c: "claim n {} ?s0 = (Inr ?ps, ?s0)"
    using assms(3) decode_rows_ok [OF h]
    by (simp add: claim_def ocatch_app pg_query_def pg_stmt_def pg_fault_def healthy_def rows_def)
  have tp: "\<forall>p \<in> set ?ps. en_Topic (snd p) \<noteq> ''''"
    using mem assms(5) by (auto simp: row_pending_def row_encoded_def outbox_ok_def)
  have h0: "healthy ?s0" using assms(3) by (simp add: healthy_def)
  let ?s1 = "pg_closed (?s0\<lparr>pg_db := mark_all (pg_now ?s0) (map fst ?ps) (pg_db s)\<rparr>)"
  obtain w' where f: "flush (RelaySink_Send wr) ?ps 0 (?s0, w) = ((int (length rows), None), (?s1, w'))"
    "dlog w' = dlog w @ map (\<lambda>p. message (snd p) True) ?ps"
    using flush_healthy [OF assms(1,2) h0 _ tp, of "pg_db s" 0 w] by auto
  have i: "map fst ?ps = map ob_id rows" by (simp add: row_pending_def o_def)
  have r: "RelayOnce (RelaySink_Send wr) n {} (s, w) = ((int (length rows), None), (?s1, w'))"
    using b c f(1) by (simp add: RelayOnce_def pg_Rollback_def pg_closed_def)
  show ?thesis
    by (rule exI [of _ ?s1], rule exI [of _ w'])
      (use r f(2) h0 claimable_marked [OF assms(5), of _ "nat n"] mark_all_ok [OF assms(5)] in
        \<open>simp add: i pg_closed_def healthy_def rows_def [symmetric] row_message_def row_pending_def o_def\<close>)
qed

lemma relay_Run_drains:
  assumes "writer_ok wr dlog" "writer_up wr" "0 < n"
  shows "healthy s \<Longrightarrow> pg_tx s = None \<Longrightarrow> outbox_ok (pg_db s) \<Longrightarrow>
    length (claimable {} (pg_db s)) < fuel * nat n \<Longrightarrow>
    \<exists>s' w'. relay_Run fuel (RelaySink_Send wr) n [True] (s, w) = Some (Sentinel ContextCanceled, (s', w'))
      \<and> claimable {} (pg_db s') = [] \<and> dlog w' = dlog w @ map row_message (claimable {} (pg_db s))"
proof (induction fuel arbitrary: s w)
  case (Suc fuel)
  let ?c = "claimable {} (pg_db s)"
  obtain s1 w1 where 1: "RelayOnce (RelaySink_Send wr) n {} (s, w) = ((int (length (take (nat n) ?c)), None), (s1, w1))"
    "healthy s1" "pg_tx s1 = None" "outbox_ok (pg_db s1)" "claimable {} (pg_db s1) = drop (nat n) ?c"
    "dlog w1 = dlog w @ map row_message (take (nat n) ?c)"
    using RelayOnce_healthy [OF assms(1,2) Suc.prems(1-3), of n w] by auto
  show ?case
  proof (cases "length ?c < nat n")
    case True
    then have "int (length (take (nat n) ?c)) \<noteq> n" using assms(3) by auto
    then show ?thesis using 1 True by auto
  next
    case False
    then have "int (length (take (nat n) ?c)) = n" using assms(3) by auto
    moreover have "length (claimable {} (pg_db s1)) < fuel * nat n" using Suc.prems(4) 1(5) False by auto
    then obtain s' w' where "relay_Run fuel (RelaySink_Send wr) n [True] (s1, w1) = Some (Sentinel ContextCanceled, (s', w'))"
      "claimable {} (pg_db s') = []" "dlog w' = dlog w1 @ map row_message (claimable {} (pg_db s1))"
      using Suc.IH [OF 1(2-4), of w1] by blast
    ultimately show ?thesis using 1 by (auto simp flip: map_append)
  qed
qed simp

section \<open>Properties\<close>

text \<open>
  C10: one pass of the relay, whatever statement or send fails and whatever rows other relays hold,
  sends a prefix of the unpublished rows in id order, one message each, and at most one more
  than it counts; it marks published either the rows it counts or, when the pass does not commit,
  none; and it reports success only when the whole batch is sent and marked. So a row
  is never marked without having been sent.
\<close>

theorem relay_pass_in_order:
  assumes "RelayOnce (RelaySink_Send wr) n lk (s, w) = ((k, e), (s', w'))" "writer_ok wr dlog"
    and "pg_tx s = None" "outbox_ok (pg_db s)"
  shows "\<exists>j m rows. rows = take (nat n) (claimable lk (pg_db s)) \<and> k = int j \<and> j \<le> m \<and> m \<le> Suc j \<and> j \<le> length rows
    \<and> dlog w' = dlog w @ map row_message (take m rows) \<and> sorted (map ob_id rows)
    \<and> (pub (pg_db s') = pub (pg_db s) \<or> pub (pg_db s') = pub (pg_db s) \<union> ob_id ` set (take j rows))
    \<and> (e = None \<longrightarrow> j = length rows \<and> pub (pg_db s') = pub (pg_db s) \<union> ob_id ` set rows)"
proof -
  have "sorted (map ob_id (take (nat n) (claimable lk (pg_db s))))"
    by (simp add: claimable_def sorted_wrt_take flip: take_map)
  then show ?thesis using RelayOnce_cases [OF assms] by fastforce
qed

text \<open>
  C11: the relay drains. With a database and a broker that work, \<open>Run\<close> publishes every row that is
  unpublished when it starts, each exactly once and in id order, before it answers a cancelled
  context, within any number of passes whose batches have room for one row more than that.
\<close>

theorem relay_drains:
  assumes "writer_ok wr dlog" "writer_up wr" "0 < n" "healthy s" "pg_tx s = None" "outbox_ok (pg_db s)"
    and "length (claimable {} (pg_db s)) < fuel * nat n"
  shows "\<exists>s' w'. relay_Run fuel (RelaySink_Send wr) n [True] (s, w) = Some (Sentinel ContextCanceled, (s', w'))
    \<and> claimable {} (pg_db s') = [] \<and> dlog w' = dlog w @ map row_message (claimable {} (pg_db s))"
  by (rule relay_Run_drains [OF assms])

definition waiting_row :: "int \<Rightarrow> outbox_row" where
  "waiting_row i = \<lparr>ob_id = i, ob_topic = ''t'', ob_event_type = ''ShiftPlanCommitted'', ob_key = ''b1|s1'', ob_value = ''{}'',
     ob_headers = marshalHeaders [], ob_created_at = 0, ob_published_at = None, ob_attempts = 0, ob_last_error = None\<rparr>"

definition waiting :: pg where
  "waiting = \<lparr>pg_db = \<lparr>t_assoc = [], t_asg = [], t_hist = [], t_plan = [], t_path = [], t_outbox = [waiting_row 2, waiting_row 1]\<rparr>,
     pg_tx = None, pg_aborted = False, pg_seq = 3, pg_faults = [], pg_clock = [], pg_ids = [], pg_now = 0\<rparr>"

lemma waiting_ok: "healthy waiting" "pg_tx waiting = None" "outbox_ok (pg_db waiting)"
  "claimable {} (pg_db waiting) = [waiting_row 1, waiting_row 2]"
  by (auto simp: waiting_def healthy_def outbox_ok_def waiting_row_def claimable_def)

text \<open>A broker that takes one message and then refuses, and one that takes all.\<close>

definition one_taker :: "Message list \<Rightarrow> (Message list, unit) op" where
  "one_taker ms w = (if w = [] then (Inr (), ms) else (Inl (Other ''broker down''), w))"

definition all_taker :: "Message list \<Rightarrow> (Message list, unit) op" where
  "all_taker ms w = (Inr (), w @ ms)"

lemma takers_ok: "writer_ok one_taker id" "writer_ok all_taker id" "writer_up all_taker"
  by (auto simp: writer_ok_def writer_up_def one_taker_def all_taker_def intro: exI [of _ 0])

theorem relay_pass_in_order_witness:
  "\<exists>j m. fst (fst (RelayOnce (RelaySink_Send one_taker) 100 {} (waiting, []))) = int j \<and> m \<le> Suc j
    \<and> snd (snd (RelayOnce (RelaySink_Send one_taker) 100 {} (waiting, []))) = map row_message (take m [waiting_row 1, waiting_row 2])"
proof -
  obtain k e s' w' where r: "RelayOnce (RelaySink_Send one_taker) 100 {} (waiting, []) = ((k, e), (s', w'))"
    by (metis surj_pair)
  show ?thesis using relay_pass_in_order [OF r takers_ok(1) waiting_ok(2,3)] unfolding r waiting_ok(4) by auto
qed

theorem relay_drains_witness:
  "\<exists>s'. relay_Run 1 (RelaySink_Send all_taker) 100 [True] (waiting, [])
      = Some (Sentinel ContextCanceled, (s', map row_message [waiting_row 1, waiting_row 2])) \<and> claimable {} (pg_db s') = []"
  using relay_drains [OF takers_ok(2,3) _ waiting_ok(1-3), of 100 1 "[]"] by (simp add: waiting_ok(4))

end
