(* ===== verification/Report.thy ===== *)
theory Report
  imports Ports
begin

text \<open>
  \<open>internal/analytics/report\<close>: the rows of the Labor Utilization & Staffing read model, the
  query that selects them, and the write port of the projection. The contract of that port
  is the locale \<open>projection_store\<close>: a store shows a view, and a successful \<open>Apply*\<close> is one
  \<open>proj_step\<close> on it. \<open>prec\<close> is the precision at which a store keeps times.
\<close>

section \<open>The read model\<close>

record RowKey =
  rk_PathId :: PathId
  rk_HourBucket :: time

record Row =
  rw_Key :: RowKey
  rw_ShiftsStarted :: int
  rw_ShiftsEnded :: int
  rw_Breaks :: int
  rw_AvgBreakSeconds :: f64
  rw_Certifications :: int
  rw_LaborAssigned :: int
  rw_LaborReassigned :: int
  rw_UnderstaffingEvents :: int

type_synonym LaborReport = "Row list"

record ReportQuery =
  rq_From :: time
  rq_To :: time
  rq_PathId :: PathId
  rq_Granularity :: string

record 's ProjectionStore =
  ApplyShiftStarted :: "string \<Rightarrow> AssociateId \<Rightarrow> time \<Rightarrow> ('s, unit) op"
  ApplyShiftEnded :: "string \<Rightarrow> AssociateId \<Rightarrow> time \<Rightarrow> ('s, unit) op"
  ApplyBreakStarted :: "string \<Rightarrow> AssociateId \<Rightarrow> time \<Rightarrow> ('s, unit) op"
  ApplyBreakEnded :: "string \<Rightarrow> AssociateId \<Rightarrow> time \<Rightarrow> ('s, unit) op"
  ApplyCertified :: "string \<Rightarrow> AssociateId \<Rightarrow> time \<Rightarrow> ('s, unit) op"
  ApplyLaborAssigned :: "string \<Rightarrow> PathId \<Rightarrow> time \<Rightarrow> ('s, unit) op"
  ApplyLaborReassigned :: "string \<Rightarrow> PathId \<Rightarrow> time \<Rightarrow> ('s, unit) op"
  ApplyPathUnderstaffed :: "string \<Rightarrow> PathId \<Rightarrow> time \<Rightarrow> ('s, unit) op"

record 's ReportStore =
  Query :: "ReportQuery \<Rightarrow> ('s, LaborReport) op"
  FreshnessLag :: "('s, duration) op"

section \<open>What a projection promises\<close>

datatype kind = KShiftStarted | KShiftEnded | KBreakStarted | KBreakEnded | KCertified
  | KLaborAssigned | KLaborReassigned | KPathUnderstaffed

record proj_event =
  pe_Kind :: kind
  pe_Id :: string
  pe_Subject :: string
  pe_At :: time

definition apply_event :: "'s ProjectionStore \<Rightarrow> proj_event \<Rightarrow> ('s, unit) op" where
  "apply_event S e = (case pe_Kind e of
       KShiftStarted \<Rightarrow> ApplyShiftStarted S (pe_Id e) (pe_Subject e) (pe_At e)
     | KShiftEnded \<Rightarrow> ApplyShiftEnded S (pe_Id e) (pe_Subject e) (pe_At e)
     | KBreakStarted \<Rightarrow> ApplyBreakStarted S (pe_Id e) (pe_Subject e) (pe_At e)
     | KBreakEnded \<Rightarrow> ApplyBreakEnded S (pe_Id e) (pe_Subject e) (pe_At e)
     | KCertified \<Rightarrow> ApplyCertified S (pe_Id e) (pe_Subject e) (pe_At e)
     | KLaborAssigned \<Rightarrow> ApplyLaborAssigned S (pe_Id e) (pe_Subject e) (pe_At e)
     | KLaborReassigned \<Rightarrow> ApplyLaborReassigned S (pe_Id e) (pe_Subject e) (pe_At e)
     | KPathUnderstaffed \<Rightarrow> ApplyPathUnderstaffed S (pe_Id e) (pe_Subject e) (pe_At e))"

text \<open>The running totals of a row.\<close>

record rowAcc =
  ac_shiftsStarted :: int
  ac_shiftsEnded :: int
  ac_breaks :: int
  ac_totalBreakSeconds :: f64
  ac_breaksWithDuration :: int
  ac_certifications :: int
  ac_laborAssigned :: int
  ac_laborReassigned :: int
  ac_understaffingEvents :: int

definition zero_acc :: rowAcc where
  "zero_acc = \<lparr>ac_shiftsStarted = 0, ac_shiftsEnded = 0, ac_breaks = 0, ac_totalBreakSeconds = Fin 0,
     ac_breaksWithDuration = 0, ac_certifications = 0, ac_laborAssigned = 0, ac_laborReassigned = 0,
     ac_understaffingEvents = 0\<rparr>"

record proj_view =
  pv_seen :: "string set"
  pv_latest :: time
  pv_rows :: "RowKey \<Rightarrow> rowAcc option"
  pv_breaks :: "AssociateId \<Rightarrow> time option"

definition pv_empty :: proj_view where
  "pv_empty = \<lparr>pv_seen = {}, pv_latest = 0, pv_rows = Map.empty, pv_breaks = Map.empty\<rparr>"

fun path_scoped :: "kind \<Rightarrow> bool" where
  "path_scoped KLaborAssigned \<longleftrightarrow> True"
| "path_scoped KLaborReassigned \<longleftrightarrow> True"
| "path_scoped KPathUnderstaffed \<longleftrightarrow> True"
| "path_scoped _ \<longleftrightarrow> False"

definition event_key :: "proj_event \<Rightarrow> RowKey" where
  "event_key e = \<lparr>rk_PathId = (if path_scoped (pe_Kind e) then pe_Subject e else ''''),
     rk_HourBucket = truncate_hour (pe_At e)\<rparr>"

fun bump :: "kind \<Rightarrow> rowAcc \<Rightarrow> rowAcc" where
  "bump KShiftStarted r = r\<lparr>ac_shiftsStarted := ac_shiftsStarted r + 1\<rparr>"
| "bump KShiftEnded r = r\<lparr>ac_shiftsEnded := ac_shiftsEnded r + 1\<rparr>"
| "bump KBreakStarted r = r\<lparr>ac_breaks := ac_breaks r + 1\<rparr>"
| "bump KCertified r = r\<lparr>ac_certifications := ac_certifications r + 1\<rparr>"
| "bump KLaborAssigned r = r\<lparr>ac_laborAssigned := ac_laborAssigned r + 1\<rparr>"
| "bump KLaborReassigned r = r\<lparr>ac_laborReassigned := ac_laborReassigned r + 1\<rparr>"
| "bump KPathUnderstaffed r = r\<lparr>ac_understaffingEvents := ac_understaffingEvents r + 1\<rparr>"
| "bump KBreakEnded r = r"

definition fold_break :: "f64 \<Rightarrow> rowAcc \<Rightarrow> rowAcc" where
  "fold_break secs r = r\<lparr>ac_totalBreakSeconds := fadd (ac_totalBreakSeconds r) secs,
     ac_breaksWithDuration := ac_breaksWithDuration r + 1\<rparr>"

definition acc_at :: "(RowKey \<Rightarrow> rowAcc option) \<Rightarrow> RowKey \<Rightarrow> rowAcc" where
  "acc_at m k = (case m k of None \<Rightarrow> zero_acc | Some r \<Rightarrow> r)"

definition upd_row :: "RowKey \<Rightarrow> (rowAcc \<Rightarrow> rowAcc) \<Rightarrow> proj_view \<Rightarrow> proj_view" where
  "upd_row k f v = v\<lparr>pv_rows := (pv_rows v)(k \<mapsto> f (acc_at (pv_rows v) k))\<rparr>"

definition proj_effect :: "(time \<Rightarrow> time) \<Rightarrow> proj_event \<Rightarrow> proj_view \<Rightarrow> proj_view" where
  "proj_effect prec e v = (case pe_Kind e of
       KBreakEnded \<Rightarrow> (case pv_breaks v (pe_Subject e) of
           None \<Rightarrow> v
         | Some st \<Rightarrow>
             (upd_row \<lparr>rk_PathId = '''', rk_HourBucket = truncate_hour st\<rparr>
                (fold_break (Seconds (time_Sub (pe_At e) st))) v)\<lparr>pv_breaks := (pv_breaks v)(pe_Subject e := None)\<rparr>)
     | KBreakStarted \<Rightarrow>
         (upd_row (event_key e) (bump KBreakStarted) v)\<lparr>pv_breaks := (pv_breaks v)(pe_Subject e \<mapsto> prec (pe_At e))\<rparr>
     | k \<Rightarrow> upd_row (event_key e) (bump k) v)"

definition proj_step :: "(time \<Rightarrow> time) \<Rightarrow> proj_event \<Rightarrow> proj_view \<Rightarrow> proj_view" where
  "proj_step prec e v =
     (if pe_Id e \<in> pv_seen v then v
      else proj_effect prec e (v\<lparr>pv_seen := insert (pe_Id e) (pv_seen v),
             pv_latest := max (pv_latest v) (prec (pe_At e))\<rparr>))"

section \<open>Facts about the view\<close>

lemma proj_step_seen [simp]: "pv_seen (proj_step prec e v) = insert (pe_Id e) (pv_seen v)"
  by (cases "pe_Kind e"; simp add: proj_step_def proj_effect_def upd_row_def insert_absorb Let_def split: option.splits)

lemma proj_step_dup [simp]: "pe_Id e \<in> pv_seen v \<Longrightarrow> proj_step prec e v = v"
  by (simp add: proj_step_def)

lemma proj_step_idem [simp]: "proj_step prec e (proj_step prec e v) = proj_step prec e v"
  by simp

lemma fold_seen [simp]: "pv_seen (fold (proj_step prec) es v) = pe_Id ` set es \<union> pv_seen v"
  by (induction es arbitrary: v) auto

text \<open>The counter an event of some kind moves.\<close>

fun counter :: "kind \<Rightarrow> rowAcc \<Rightarrow> int" where
  "counter KShiftStarted = ac_shiftsStarted"
| "counter KShiftEnded = ac_shiftsEnded"
| "counter KBreakStarted = ac_breaks"
| "counter KCertified = ac_certifications"
| "counter KLaborAssigned = ac_laborAssigned"
| "counter KLaborReassigned = ac_laborReassigned"
| "counter KPathUnderstaffed = ac_understaffingEvents"
| "counter KBreakEnded = ac_breaksWithDuration"

lemma counter_zero [simp]: "counter k zero_acc = 0"
  by (cases k) (simp_all add: zero_acc_def)

lemma counter_bump: "k \<noteq> KBreakEnded \<Longrightarrow> counter k (bump k' r) = counter k r + (if k = k' then 1 else 0)"
  by (cases k; cases k') simp_all

lemma counter_fold_break: "k \<noteq> KBreakEnded \<Longrightarrow> counter k (fold_break x r) = counter k r"
  by (cases k) (simp_all add: fold_break_def)

lemma proj_step_counter:
  assumes "pe_Id e \<notin> pv_seen v" "k \<noteq> KBreakEnded"
  shows "counter k (acc_at (pv_rows (proj_step prec e v)) key)
    = counter k (acc_at (pv_rows v) key) + (if pe_Kind e = k \<and> event_key e = key then 1 else 0)"
  using assms
  by (cases "pe_Kind e"; simp add: proj_step_def proj_effect_def upd_row_def acc_at_def counter_bump counter_fold_break
      Let_def del: bump.simps counter.simps split: option.splits)

text \<open>Event ids identify events: the CloudEvents ids that the publisher mints are distinct.\<close>

definition coherent :: "proj_event list \<Rightarrow> bool" where
  "coherent es \<longleftrightarrow> inj_on pe_Id (set es)"

theorem fold_counts:
  assumes "coherent es" "k \<noteq> KBreakEnded"
  shows "counter k (acc_at (pv_rows (fold (proj_step prec) es pv_empty)) key)
    = int (card {e \<in> set es. pe_Kind e = k \<and> event_key e = key})"
  using assms(1)
proof (induction es rule: rev_induct)
  case Nil
  then show ?case by (simp add: pv_empty_def acc_at_def)
next
  case (snoc e es)
  have c: "coherent es" using snoc.prems by (auto simp: coherent_def intro: inj_on_subset)
  show ?case
  proof (cases "e \<in> set es")
    case True
    then have "pe_Id e \<in> pv_seen (fold (proj_step prec) es pv_empty)" by simp
    moreover have "set (es @ [e]) = set es" using True by auto
    ultimately show ?thesis using snoc.IH [OF c] by simp
  next
    case False
    have "pe_Id e \<notin> pe_Id ` set es"
    proof
      assume "pe_Id e \<in> pe_Id ` set es"
      then obtain e' where e': "e' \<in> set es" "pe_Id e = pe_Id e'" by blast
      then have "e = e'" using snoc.prems by (auto simp: coherent_def dest: inj_onD)
      then show False using e' False by simp
    qed
    then have n: "pe_Id e \<notin> pv_seen (fold (proj_step prec) es pv_empty)" by (simp add: pv_empty_def)
    let ?A = "{x \<in> set es. pe_Kind x = k \<and> event_key x = key}"
    have "{x \<in> set (es @ [e]). pe_Kind x = k \<and> event_key x = key}
      = (if pe_Kind e = k \<and> event_key e = key then insert e ?A else ?A)" by auto
    moreover have "card (insert e ?A) = card ?A + 1" using False by (subst card_insert_disjoint) auto
    ultimately show ?thesis using snoc.IH [OF c] proj_step_counter [OF n assms(2), of prec key]
      by (simp del: set_append)
  qed
qed

section \<open>The contract\<close>

text \<open>Applying events in turn, whatever fails: those whose application succeeded, and the state left.\<close>

fun apply_each :: "'s ProjectionStore \<Rightarrow> proj_event list \<Rightarrow> 's \<Rightarrow> proj_event list \<times> 's" where
  "apply_each S [] s = ([], s)"
| "apply_each S (e # es) s = (case apply_event S e s of
       (Inl _, s) \<Rightarrow> apply_each S es s
     | (Inr _, s) \<Rightarrow> (case apply_each S es s of (done, s) \<Rightarrow> (e # done, s)))"

lemma apply_each_subset: "set (fst (apply_each S es s)) \<subseteq> set es"
proof (induction es arbitrary: s)
  case (Cons e es)
  obtain r s1 where a: "apply_event S e s = (r, s1)" by fastforce
  obtain ok s2 where b: "apply_each S es s1 = (ok, s2)" by fastforce
  show ?case using Cons.IH [of s1] a b by (cases r) auto
qed simp

locale projection_store =
  fixes S :: "'s ProjectionStore" and view :: "'s \<Rightarrow> proj_view" and inv :: "'s \<Rightarrow> bool"
    and prec :: "time \<Rightarrow> time"
  assumes apply_inv: "inv s \<Longrightarrow> apply_event S e s = (r, s') \<Longrightarrow> inv s'"
    and apply_Inr: "inv s \<Longrightarrow> apply_event S e s = (Inr u, s') \<Longrightarrow> view s' = proj_step prec e (view s)"
    and apply_Inl: "inv s \<Longrightarrow> apply_event S e s = (Inl x, s') \<Longrightarrow> view s' = view s"
begin

lemma each_view:
  "inv s \<Longrightarrow> apply_each S es s = (ok, s') \<Longrightarrow> inv s' \<and> view s' = fold (proj_step prec) ok (view s)"
proof (induction es arbitrary: s ok s')
  case (Cons e es)
  obtain r s1 where a: "apply_event S e s = (r, s1)" by fastforce
  obtain ok1 s2 where b: "apply_each S es s1 = (ok1, s2)" by fastforce
  note i = apply_inv [OF Cons.prems(1) a]
  show ?case
    using Cons.IH [OF i b] Cons.prems a b apply_Inl apply_Inr by (cases r) auto
qed simp

lemma each_counts:
  assumes "inv s" "view s = pv_empty" "apply_each S es s = (ok, s')" "coherent es" "k \<noteq> KBreakEnded"
  shows "counter k (acc_at (pv_rows (view s')) key) = int (card {e \<in> set ok. pe_Kind e = k \<and> event_key e = key})"
proof -
  have "set ok \<subseteq> set es" using apply_each_subset [of S es s] assms(3) by simp
  then have "coherent ok" using assms(4) by (auto simp: coherent_def intro: inj_on_subset)
  then show ?thesis using each_view [OF assms(1,3)] fold_counts assms(2,5) by simp
qed

lemma redelivered:
  assumes "inv s" "apply_event S e s = (Inr u, s')" "apply_event S e s' = (r, s'')"
  shows "view s'' = view s'"
  using apply_Inr [OF assms(1,2)] apply_Inr [OF apply_inv [OF assms(1,2)]] apply_Inl [OF apply_inv [OF assms(1,2)]] assms(3)
  by (cases r) auto

end

end
