(* ===== verification/AnalyticsStore.thy ===== *)
theory AnalyticsStore
  imports Report Postgres
begin

text \<open>
  \<open>adapters/outbound/analyticsstore\<close>: the in-memory projection, the Postgres projection over the
  tables of \<open>migrations/analytics\<close>, its read side and the consumer's dedupe table. The
  mutex makes each in-memory method one step; \<open>ord\<close> is the order in which Go ranges over
  the rows. The analytical database has its own script of failing statements; a \<open>COMMIT\<close> that
  reports an error has not committed.
\<close>

section \<open>In memory\<close>

record MemoryStore =
  mt_seen :: "string set"
  mt_rows :: "(RowKey, rowAcc) gmap"
  mt_breaks :: "AssociateId \<Rightarrow> time option"
  mt_latest :: time

definition NewMemoryStore :: MemoryStore where
  "NewMemoryStore = \<lparr>mt_seen = {}, mt_rows = [], mt_breaks = Map.empty, mt_latest = 0\<rparr>"

definition hourBucket :: "time \<Rightarrow> time" where
  "hourBucket t = truncate_hour t"

definition firstApply :: "string \<Rightarrow> time \<Rightarrow> MemoryStore \<Rightarrow> bool \<times> MemoryStore" where
  "firstApply eventId t s =
     (if eventId \<in> mt_seen s then (False, s)
      else let s = s\<lparr>mt_seen := insert eventId (mt_seen s)\<rparr> in
        (True, if t > mt_latest s then s\<lparr>mt_latest := t\<rparr> else s))"

text \<open>\<open>s.row(k)\<close>, and the write through the pointer it returns.\<close>

definition mem_row :: "RowKey \<Rightarrow> (rowAcc \<Rightarrow> rowAcc) \<Rightarrow> MemoryStore \<Rightarrow> MemoryStore" where
  "mem_row k f s = (case map_of (mt_rows s) k of
       None \<Rightarrow> s\<lparr>mt_rows := gput k (f zero_acc) (mt_rows s)\<rparr>
     | Some r \<Rightarrow> s\<lparr>mt_rows := gput k (f r) (mt_rows s)\<rparr>)"

definition associateRow :: "time \<Rightarrow> (rowAcc \<Rightarrow> rowAcc) \<Rightarrow> MemoryStore \<Rightarrow> MemoryStore" where
  "associateRow t = mem_row \<lparr>rk_PathId = '''', rk_HourBucket = hourBucket t\<rparr>"

definition mt_ApplyShiftStarted :: "string \<Rightarrow> AssociateId \<Rightarrow> time \<Rightarrow> (MemoryStore, unit) op" where
  "mt_ApplyShiftStarted eventId _ t s = (case firstApply eventId t s of
       (False, s) \<Rightarrow> (Inr (), s)
     | (True, s) \<Rightarrow> (Inr (), associateRow t (\<lambda>r. r\<lparr>ac_shiftsStarted := ac_shiftsStarted r + 1\<rparr>) s))"

definition mt_ApplyShiftEnded :: "string \<Rightarrow> AssociateId \<Rightarrow> time \<Rightarrow> (MemoryStore, unit) op" where
  "mt_ApplyShiftEnded eventId _ t s = (case firstApply eventId t s of
       (False, s) \<Rightarrow> (Inr (), s)
     | (True, s) \<Rightarrow> (Inr (), associateRow t (\<lambda>r. r\<lparr>ac_shiftsEnded := ac_shiftsEnded r + 1\<rparr>) s))"

definition mt_ApplyBreakStarted :: "string \<Rightarrow> AssociateId \<Rightarrow> time \<Rightarrow> (MemoryStore, unit) op" where
  "mt_ApplyBreakStarted eventId associateId t s = (case firstApply eventId t s of
       (False, s) \<Rightarrow> (Inr (), s)
     | (True, s) \<Rightarrow>
         let s = associateRow t (\<lambda>r. r\<lparr>ac_breaks := ac_breaks r + 1\<rparr>) s in
         (Inr (), s\<lparr>mt_breaks := (mt_breaks s)(associateId \<mapsto> t)\<rparr>))"

definition mt_ApplyBreakEnded :: "string \<Rightarrow> AssociateId \<Rightarrow> time \<Rightarrow> (MemoryStore, unit) op" where
  "mt_ApplyBreakEnded eventId associateId t s = (case firstApply eventId t s of
       (False, s) \<Rightarrow> (Inr (), s)
     | (True, s) \<Rightarrow> (case mt_breaks s associateId of
           None \<Rightarrow> (Inr (), s)
         | Some started \<Rightarrow>
             let s = mem_row \<lparr>rk_PathId = '''', rk_HourBucket = hourBucket started\<rparr>
               (\<lambda>r. r\<lparr>ac_totalBreakSeconds := fadd (ac_totalBreakSeconds r) (Seconds (time_Sub t started)),
                      ac_breaksWithDuration := ac_breaksWithDuration r + 1\<rparr>) s
             in (Inr (), s\<lparr>mt_breaks := (mt_breaks s)(associateId := None)\<rparr>)))"

definition mt_ApplyCertified :: "string \<Rightarrow> AssociateId \<Rightarrow> time \<Rightarrow> (MemoryStore, unit) op" where
  "mt_ApplyCertified eventId _ t s = (case firstApply eventId t s of
       (False, s) \<Rightarrow> (Inr (), s)
     | (True, s) \<Rightarrow> (Inr (), associateRow t (\<lambda>r. r\<lparr>ac_certifications := ac_certifications r + 1\<rparr>) s))"

definition mt_ApplyLaborAssigned :: "string \<Rightarrow> PathId \<Rightarrow> time \<Rightarrow> (MemoryStore, unit) op" where
  "mt_ApplyLaborAssigned eventId pathId t s = (case firstApply eventId t s of
       (False, s) \<Rightarrow> (Inr (), s)
     | (True, s) \<Rightarrow> (Inr (), mem_row \<lparr>rk_PathId = pathId, rk_HourBucket = hourBucket t\<rparr>
           (\<lambda>r. r\<lparr>ac_laborAssigned := ac_laborAssigned r + 1\<rparr>) s))"

definition mt_ApplyLaborReassigned :: "string \<Rightarrow> PathId \<Rightarrow> time \<Rightarrow> (MemoryStore, unit) op" where
  "mt_ApplyLaborReassigned eventId toPathId t s = (case firstApply eventId t s of
       (False, s) \<Rightarrow> (Inr (), s)
     | (True, s) \<Rightarrow> (Inr (), mem_row \<lparr>rk_PathId = toPathId, rk_HourBucket = hourBucket t\<rparr>
           (\<lambda>r. r\<lparr>ac_laborReassigned := ac_laborReassigned r + 1\<rparr>) s))"

definition mt_ApplyPathUnderstaffed :: "string \<Rightarrow> PathId \<Rightarrow> time \<Rightarrow> (MemoryStore, unit) op" where
  "mt_ApplyPathUnderstaffed eventId pathId t s = (case firstApply eventId t s of
       (False, s) \<Rightarrow> (Inr (), s)
     | (True, s) \<Rightarrow> (Inr (), mem_row \<lparr>rk_PathId = pathId, rk_HourBucket = hourBucket t\<rparr>
           (\<lambda>r. r\<lparr>ac_understaffingEvents := ac_understaffingEvents r + 1\<rparr>) s))"

definition memory_projection :: "MemoryStore ProjectionStore" where
  "memory_projection = \<lparr>ApplyShiftStarted = mt_ApplyShiftStarted, ApplyShiftEnded = mt_ApplyShiftEnded,
     ApplyBreakStarted = mt_ApplyBreakStarted, ApplyBreakEnded = mt_ApplyBreakEnded,
     ApplyCertified = mt_ApplyCertified, ApplyLaborAssigned = mt_ApplyLaborAssigned,
     ApplyLaborReassigned = mt_ApplyLaborReassigned, ApplyPathUnderstaffed = mt_ApplyPathUnderstaffed\<rparr>"

definition row_of_acc :: "RowKey \<Rightarrow> rowAcc \<Rightarrow> Row" where
  "row_of_acc k r = \<lparr>rw_Key = k, rw_ShiftsStarted = ac_shiftsStarted r, rw_ShiftsEnded = ac_shiftsEnded r,
     rw_Breaks = ac_breaks r,
     rw_AvgBreakSeconds = (if ac_breaksWithDuration r > 0
        then fdiv (ac_totalBreakSeconds r) (f64_of_int (ac_breaksWithDuration r)) else Fin 0),
     rw_Certifications = ac_certifications r, rw_LaborAssigned = ac_laborAssigned r,
     rw_LaborReassigned = ac_laborReassigned r, rw_UnderstaffingEvents = ac_understaffingEvents r\<rparr>"

fun mt_scan :: "ReportQuery \<Rightarrow> (RowKey \<times> rowAcc) list \<Rightarrow> LaborReport" where
  "mt_scan q [] = []"
| "mt_scan q ((k, r) # krs) =
     (if rk_HourBucket k < rq_From q \<or> \<not> rk_HourBucket k < rq_To q then mt_scan q krs
      else if rq_PathId q \<noteq> '''' \<and> rk_PathId k \<noteq> rq_PathId q then mt_scan q krs
      else row_of_acc k r # mt_scan q krs)"

definition mt_Query ::
  "((RowKey \<times> rowAcc) list \<Rightarrow> (RowKey \<times> rowAcc) list) \<Rightarrow> ReportQuery \<Rightarrow> (MemoryStore, LaborReport) op" where
  "mt_Query ord q s = (Inr (mt_scan q (ord (mt_rows s))), s)"

text \<open>\<open>nowf\<close> is the store's optional clock, \<open>clock\<close> what \<open>time.Now\<close> answers.\<close>

definition mt_FreshnessLag :: "time option \<Rightarrow> time \<Rightarrow> (MemoryStore, duration) op" where
  "mt_FreshnessLag nowf clock s =
     (if IsZero (mt_latest s) then (Inr 0, s)
      else let now = (case nowf of None \<Rightarrow> clock | Some t \<Rightarrow> t); lag = time_Sub now (mt_latest s)
        in if lag < 0 then (Inr 0, s) else (Inr lag, s))"

definition memory_report ::
  "((RowKey \<times> rowAcc) list \<Rightarrow> (RowKey \<times> rowAcc) list) \<Rightarrow> time option \<Rightarrow> time \<Rightarrow> MemoryStore ReportStore" where
  "memory_report ord nowf clock = \<lparr>Query = mt_Query ord, FreshnessLag = mt_FreshnessLag nowf clock\<rparr>"

section \<open>The in-memory store is a projection store\<close>

definition mt_view :: "MemoryStore \<Rightarrow> proj_view" where
  "mt_view s = \<lparr>pv_seen = mt_seen s, pv_latest = mt_latest s, pv_rows = map_of (mt_rows s), pv_breaks = mt_breaks s\<rparr>"

definition mt_inv :: "MemoryStore \<Rightarrow> bool" where
  "mt_inv s \<longleftrightarrow> gwf (mt_rows s)"

lemma mem_row_view:
  "mt_inv s \<Longrightarrow> mt_inv (mem_row k f s) \<and> mt_view (mem_row k f s) = upd_row k f (mt_view s)"
  by (auto simp: mem_row_def upd_row_def acc_at_def mt_view_def mt_inv_def fun_eq_iff split: option.splits)

lemma mem_row_sel [simp]:
  "mt_breaks (mem_row k f s) = mt_breaks s" "mt_seen (mem_row k f s) = mt_seen s" "mt_latest (mem_row k f s) = mt_latest s"
  by (simp_all add: mem_row_def split: option.splits)


lemmas mt_apply_defs = mt_ApplyShiftStarted_def mt_ApplyShiftEnded_def mt_ApplyBreakStarted_def mt_ApplyBreakEnded_def
  mt_ApplyCertified_def mt_ApplyLaborAssigned_def mt_ApplyLaborReassigned_def mt_ApplyPathUnderstaffed_def

text \<open>Each handler is \<open>firstApply\<close> and then the effect of the event's kind.\<close>

definition mt_effect :: "proj_event \<Rightarrow> MemoryStore \<Rightarrow> MemoryStore" where
  "mt_effect e s = (case pe_Kind e of
       KBreakEnded \<Rightarrow> (case mt_breaks s (pe_Subject e) of
           None \<Rightarrow> s
         | Some st \<Rightarrow> (mem_row \<lparr>rk_PathId = '''', rk_HourBucket = truncate_hour st\<rparr>
             (fold_break (Seconds (time_Sub (pe_At e) st))) s)\<lparr>mt_breaks := (mt_breaks s)(pe_Subject e := None)\<rparr>)
     | KBreakStarted \<Rightarrow>
         (mem_row (event_key e) (bump KBreakStarted) s)\<lparr>mt_breaks := (mt_breaks s)(pe_Subject e \<mapsto> pe_At e)\<rparr>
     | k \<Rightarrow> mem_row (event_key e) (bump k) s)"

lemma fold_break_eq:
  "fold_break x = (\<lambda>r. r\<lparr>ac_totalBreakSeconds := fadd (ac_totalBreakSeconds r) x, ac_breaksWithDuration := ac_breaksWithDuration r + 1\<rparr>)"
  by (simp add: fold_break_def fun_eq_iff)

lemma bump_eq:
  "bump KShiftStarted = (\<lambda>r. r\<lparr>ac_shiftsStarted := ac_shiftsStarted r + 1\<rparr>)"
  "bump KShiftEnded = (\<lambda>r. r\<lparr>ac_shiftsEnded := ac_shiftsEnded r + 1\<rparr>)"
  "bump KBreakStarted = (\<lambda>r. r\<lparr>ac_breaks := ac_breaks r + 1\<rparr>)"
  "bump KCertified = (\<lambda>r. r\<lparr>ac_certifications := ac_certifications r + 1\<rparr>)"
  "bump KLaborAssigned = (\<lambda>r. r\<lparr>ac_laborAssigned := ac_laborAssigned r + 1\<rparr>)"
  "bump KLaborReassigned = (\<lambda>r. r\<lparr>ac_laborReassigned := ac_laborReassigned r + 1\<rparr>)"
  "bump KPathUnderstaffed = (\<lambda>r. r\<lparr>ac_understaffingEvents := ac_understaffingEvents r + 1\<rparr>)"
  by (simp_all add: fun_eq_iff)

lemma memory_apply:
  "apply_event memory_projection e s = (case firstApply (pe_Id e) (pe_At e) s of
     (False, s) \<Rightarrow> (Inr (), s) | (True, s) \<Rightarrow> (Inr (), mt_effect e s))"
  by (cases "pe_Kind e")
    (simp_all add: apply_event_def memory_projection_def mt_apply_defs mt_effect_def associateRow_def hourBucket_def
      event_key_def bump_eq fold_break_eq Let_def split: prod.split bool.split option.split)

lemma mt_breaks_view:
  "mt_view (s\<lparr>mt_breaks := b\<rparr>) = (mt_view s)\<lparr>pv_breaks := b\<rparr>" "mt_inv (s\<lparr>mt_breaks := b\<rparr>) = mt_inv s"
  by (simp_all add: mt_view_def mt_inv_def)

lemma mt_view_sel [simp]:
  "pv_breaks (mt_view s) = mt_breaks s" "pv_seen (mt_view s) = mt_seen s" "pv_latest (mt_view s) = mt_latest s"
  by (simp_all add: mt_view_def)

lemma firstApply_view:
  assumes "firstApply i t s = (b, s')" "mt_inv s"
  shows "mt_inv s' \<and> (if b then i \<notin> mt_seen s \<and>
      mt_view s' = (mt_view s)\<lparr>pv_seen := insert i (mt_seen s), pv_latest := max (mt_latest s) t\<rparr>
    else i \<in> mt_seen s \<and> s' = s)"
  using assms by (auto simp: firstApply_def mt_inv_def mt_view_def Let_def max_def split: if_splits)

lemma memory_step:
  assumes i: "mt_inv s" and a: "apply_event memory_projection e s = (r, s')"
  shows "mt_inv s' \<and> mt_view s' = proj_step id e (mt_view s) \<and> r = Inr ()"
proof -
  obtain b s1 where f: "firstApply (pe_Id e) (pe_At e) s = (b, s1)" by fastforce
  note fv = firstApply_view [OF f i]
  then have i1: "mt_inv s1" by simp
  show ?thesis
  proof (cases b)
    case True
    have s': "s' = mt_effect e s1" "r = Inr ()" using a f True by (simp_all add: memory_apply)
    have b1: "mt_breaks s1 = pv_breaks (mt_view s1)" by simp
    show ?thesis
      unfolding s' proj_step_def proj_effect_def mt_effect_def b1 using fv True mem_row_view [OF i1]
      by (cases "pe_Kind e") (simp_all add: Let_def mt_breaks_view split: option.split)
  next
    case False
    then show ?thesis using a f fv i by (simp add: memory_apply proj_step_def)
  qed
qed

interpretation mem_store: projection_store memory_projection mt_view mt_inv id
  by unfold_locales (auto dest: memory_step)


section \<open>The analytical database\<close>

text \<open>\<open>rollupDelta\<close>; a row of \<open>labor_rollup\<close> has the same columns beside its key.\<close>

record rollupDelta =
  rd_shiftsStarted :: int
  rd_shiftsEnded :: int
  rd_breaks :: int
  rd_certifications :: int
  rd_laborAssigned :: int
  rd_laborReassigned :: int
  rd_understaffingEvents :: int
  rd_breakSeconds :: f64
  rd_breaksWithDuration :: int

definition zeroDelta :: rollupDelta where
  "zeroDelta = \<lparr>rd_shiftsStarted = 0, rd_shiftsEnded = 0, rd_breaks = 0, rd_certifications = 0,
     rd_laborAssigned = 0, rd_laborReassigned = 0, rd_understaffingEvents = 0, rd_breakSeconds = Fin 0,
     rd_breaksWithDuration = 0\<rparr>"

record adb =
  at_processed :: "(string \<times> time) list"
  at_consumed :: "string list"
  at_pending :: "(AssociateId, time) gmap"
  at_rollup :: "(PathId \<times> time, rollupDelta) gmap"

record an =
  an_db :: adb
  an_tx :: "adb option"
  an_faults :: "string option list"

definition an_fault :: "(an, unit) op" where
  "an_fault s = (case an_faults s of
       [] \<Rightarrow> (Inr (), s)
     | None # fs \<Rightarrow> (Inr (), s\<lparr>an_faults := fs\<rparr>)
     | Some txt # fs \<Rightarrow> (Inl (Other txt), s\<lparr>an_faults := fs\<rparr>))"

text \<open>A statement, in the open transaction or on its own.\<close>

definition an_exec :: "(adb \<Rightarrow> 'a \<times> adb) \<Rightarrow> (an, 'a) op" where
  "an_exec q = obind an_fault (\<lambda>_ s. (case an_tx s of
       None \<Rightarrow> (case q (an_db s) of (a, d) \<Rightarrow> (Inr a, s\<lparr>an_db := d\<rparr>))
     | Some d \<Rightarrow> (case q d of (a, d) \<Rightarrow> (Inr a, s\<lparr>an_tx := Some d\<rparr>))))"

definition an_select :: "(adb \<Rightarrow> 'a) \<Rightarrow> (an, 'a) op" where
  "an_select q = an_exec (\<lambda>d. (q d, d))"

definition an_Commit :: "(an, unit) op" where
  "an_Commit s = (case an_fault s of
       (Inl e, s) \<Rightarrow> (Inl e, s\<lparr>an_tx := None\<rparr>)
     | (Inr _, s) \<Rightarrow> (Inr (), (case an_tx s of None \<Rightarrow> s | Some d \<Rightarrow> s\<lparr>an_db := d, an_tx := None\<rparr>)))"

definition an_Rollback :: "(an, unit) op" where
  "an_Rollback s = (case an_fault s of (r, s) \<Rightarrow> (r, s\<lparr>an_tx := None\<rparr>))"

definition inTx :: "(an, unit) op \<Rightarrow> (an, unit) op" where
  "inTx body s = (case an_fault s of
       (Inl e, s) \<Rightarrow> (Inl e, s)
     | (Inr _, s) \<Rightarrow> (case body (s\<lparr>an_tx := Some (an_db s)\<rparr>) of
           (Inl e, s) \<Rightarrow> (Inl e, snd (an_Rollback s))
         | (Inr _, s) \<Rightarrow> an_Commit s))"

text \<open>\<open>INSERT ... ON CONFLICT DO NOTHING\<close>, answering whether a row went in.\<close>

definition insert_processed :: "string \<Rightarrow> time \<Rightarrow> adb \<Rightarrow> int \<times> adb" where
  "insert_processed i t d =
     (if i \<in> set (map fst (at_processed d)) then (0, d)
      else (1, d\<lparr>at_processed := (i, trunc_us t) # at_processed d\<rparr>))"

definition an_claim :: "string \<Rightarrow> time \<Rightarrow> (an, bool) op" where
  "an_claim eventId t = obind (an_exec (insert_processed eventId t)) (\<lambda>rowsAffected. oret (rowsAffected > 0))"

definition add_delta :: "rollupDelta \<Rightarrow> rollupDelta \<Rightarrow> rollupDelta" where
  "add_delta r x = \<lparr>rd_shiftsStarted = rd_shiftsStarted r + rd_shiftsStarted x,
     rd_shiftsEnded = rd_shiftsEnded r + rd_shiftsEnded x,
     rd_breaks = rd_breaks r + rd_breaks x,
     rd_certifications = rd_certifications r + rd_certifications x,
     rd_laborAssigned = rd_laborAssigned r + rd_laborAssigned x,
     rd_laborReassigned = rd_laborReassigned r + rd_laborReassigned x,
     rd_understaffingEvents = rd_understaffingEvents r + rd_understaffingEvents x,
     rd_breakSeconds = fadd (rd_breakSeconds r) (rd_breakSeconds x),
     rd_breaksWithDuration = rd_breaksWithDuration r + rd_breaksWithDuration x\<rparr>"

definition upsert_row :: "PathId \<Rightarrow> time \<Rightarrow> rollupDelta \<Rightarrow> adb \<Rightarrow> unit \<times> adb" where
  "upsert_row p bucket delta d = ((), d\<lparr>at_rollup := gput (p, bucket)
     (case map_of (at_rollup d) (p, bucket) of None \<Rightarrow> delta | Some r \<Rightarrow> add_delta r delta) (at_rollup d)\<rparr>)"

definition upsertRollup :: "PathId \<Rightarrow> time \<Rightarrow> rollupDelta \<Rightarrow> (an, unit) op" where
  "upsertRollup pathId t delta =
     (let bucket = truncate_hour t in
      ocatch (an_exec (upsert_row pathId (trunc_us bucket) delta)) (\<lambda>r. case r of
          Inl e \<Rightarrow> ofail (Wrap ''analyticsstore: upsert rollup'' e)
        | Inr _ \<Rightarrow> oret ()))"

text \<open>The claim that every handler starts with; the body runs only for a new event.\<close>

definition claimed :: "string \<Rightarrow> time \<Rightarrow> (an, unit) op \<Rightarrow> (an, unit) op" where
  "claimed eventId t body = inTx (
     ocatch (an_claim eventId t) (\<lambda>r. case r of
         Inl e \<Rightarrow> ofail (Wrap ''analyticsstore: claim event'' e)
       | Inr isNew \<Rightarrow> if \<not> isNew then oret () else body))"

definition applyRollup :: "string \<Rightarrow> PathId \<Rightarrow> time \<Rightarrow> rollupDelta \<Rightarrow> (an, unit) op" where
  "applyRollup eventId pathId t delta = claimed eventId t (upsertRollup pathId t delta)"

definition at_ApplyShiftStarted :: "string \<Rightarrow> AssociateId \<Rightarrow> time \<Rightarrow> (an, unit) op" where
  "at_ApplyShiftStarted eventId _ t = applyRollup eventId '''' t (zeroDelta\<lparr>rd_shiftsStarted := 1\<rparr>)"

definition at_ApplyShiftEnded :: "string \<Rightarrow> AssociateId \<Rightarrow> time \<Rightarrow> (an, unit) op" where
  "at_ApplyShiftEnded eventId _ t = applyRollup eventId '''' t (zeroDelta\<lparr>rd_shiftsEnded := 1\<rparr>)"

definition at_ApplyCertified :: "string \<Rightarrow> AssociateId \<Rightarrow> time \<Rightarrow> (an, unit) op" where
  "at_ApplyCertified eventId _ t = applyRollup eventId '''' t (zeroDelta\<lparr>rd_certifications := 1\<rparr>)"

definition at_ApplyLaborAssigned :: "string \<Rightarrow> PathId \<Rightarrow> time \<Rightarrow> (an, unit) op" where
  "at_ApplyLaborAssigned eventId pathId t = applyRollup eventId pathId t (zeroDelta\<lparr>rd_laborAssigned := 1\<rparr>)"

definition at_ApplyLaborReassigned :: "string \<Rightarrow> PathId \<Rightarrow> time \<Rightarrow> (an, unit) op" where
  "at_ApplyLaborReassigned eventId toPathId t = applyRollup eventId toPathId t (zeroDelta\<lparr>rd_laborReassigned := 1\<rparr>)"

definition at_ApplyPathUnderstaffed :: "string \<Rightarrow> PathId \<Rightarrow> time \<Rightarrow> (an, unit) op" where
  "at_ApplyPathUnderstaffed eventId pathId t = applyRollup eventId pathId t (zeroDelta\<lparr>rd_understaffingEvents := 1\<rparr>)"

definition at_ApplyBreakStarted :: "string \<Rightarrow> AssociateId \<Rightarrow> time \<Rightarrow> (an, unit) op" where
  "at_ApplyBreakStarted eventId associateId t = claimed eventId t (
     obind (upsertRollup '''' t (zeroDelta\<lparr>rd_breaks := 1\<rparr>)) (\<lambda>_.
     ocatch (an_exec (\<lambda>d. ((), d\<lparr>at_pending := gput associateId (trunc_us t) (at_pending d)\<rparr>))) (\<lambda>r. case r of
         Inl e \<Rightarrow> ofail (Wrap ''analyticsstore: record break start'' e)
       | Inr _ \<Rightarrow> oret ())))"

definition at_ApplyBreakEnded :: "string \<Rightarrow> AssociateId \<Rightarrow> time \<Rightarrow> (an, unit) op" where
  "at_ApplyBreakEnded eventId associateId t = claimed eventId t (
     ocatch (an_select (\<lambda>d. map_of (at_pending d) associateId)) (\<lambda>r. case r of
         Inl e \<Rightarrow> ofail (Wrap ''analyticsstore: lookup break start'' e)
       | Inr None \<Rightarrow> oret ()
       | Inr (Some startedAt) \<Rightarrow>
           obind (upsertRollup '''' startedAt
             (zeroDelta\<lparr>rd_breakSeconds := Seconds (time_Sub t startedAt), rd_breaksWithDuration := 1\<rparr>)) (\<lambda>_.
           ocatch (an_exec (\<lambda>d. ((), d\<lparr>at_pending := gdelete associateId (at_pending d)\<rparr>))) (\<lambda>r. case r of
               Inl e \<Rightarrow> ofail (Wrap ''analyticsstore: clear break start'' e)
             | Inr _ \<Rightarrow> oret ()))))"

definition postgres_projection :: "an ProjectionStore" where
  "postgres_projection = \<lparr>ApplyShiftStarted = at_ApplyShiftStarted, ApplyShiftEnded = at_ApplyShiftEnded,
     ApplyBreakStarted = at_ApplyBreakStarted, ApplyBreakEnded = at_ApplyBreakEnded,
     ApplyCertified = at_ApplyCertified, ApplyLaborAssigned = at_ApplyLaborAssigned,
     ApplyLaborReassigned = at_ApplyLaborReassigned, ApplyPathUnderstaffed = at_ApplyPathUnderstaffed\<rparr>"

text \<open>\<open>ConsumedEventsRepo\<close>.\<close>

definition at_MarkProcessed :: "string \<Rightarrow> (an, bool) op" where
  "at_MarkProcessed eventId =
     obind (an_exec (\<lambda>d. if eventId \<in> set (at_consumed d) then (0 :: int, d)
                         else (1, d\<lparr>at_consumed := eventId # at_consumed d\<rparr>)))
       (\<lambda>rowsAffected. oret (rowsAffected > 0))"

section \<open>The read side\<close>

text \<open>
  \<open>ORDER BY hour_bucket, path_id\<close>, the paths under the database's collation \<open>coll\<close> (a sort key).
  The two bounds go in as timestamps; reading the rows back can fail part-way.
\<close>

definition at_row :: "(PathId \<times> time) \<times> rollupDelta \<Rightarrow> Row" where
  "at_row x = (case x of ((p, bucket), r) \<Rightarrow>
     \<lparr>rw_Key = \<lparr>rk_PathId = p, rk_HourBucket = bucket\<rparr>, rw_ShiftsStarted = rd_shiftsStarted r,
      rw_ShiftsEnded = rd_shiftsEnded r, rw_Breaks = rd_breaks r,
      rw_AvgBreakSeconds = (if rd_breaksWithDuration r > 0
         then fdiv (rd_breakSeconds r) (f64_of_int (rd_breaksWithDuration r)) else Fin 0),
      rw_Certifications = rd_certifications r, rw_LaborAssigned = rd_laborAssigned r,
      rw_LaborReassigned = rd_laborReassigned r, rw_UnderstaffingEvents = rd_understaffingEvents r\<rparr>)"

definition at_selected :: "ReportQuery \<Rightarrow> (PathId \<times> time) \<times> rollupDelta \<Rightarrow> bool" where
  "at_selected q x = (case x of ((p, bucket), _) \<Rightarrow>
     bucket \<ge> trunc_us (rq_From q) \<and> bucket < trunc_us (rq_To q) \<and> (rq_PathId q = '''' \<or> p = rq_PathId q))"

definition at_Query :: "(PathId \<Rightarrow> 'k::linorder) \<Rightarrow> ReportQuery \<Rightarrow> (an, LaborReport) op" where
  "at_Query coll q =
     ocatch (an_select (\<lambda>d. map at_row (sort_key (\<lambda>((_, bucket), _). bucket)
        (sort_key (\<lambda>((p, _), _). coll p) (filter (at_selected q) (at_rollup d)))))) (\<lambda>r. case r of
         Inl e \<Rightarrow> ofail (Wrap ''analyticsstore: query rollup'' e)
       | Inr rows \<Rightarrow> ocatch an_fault (\<lambda>r. case r of
             Inl e \<Rightarrow> ofail (Wrap ''analyticsstore: iterate rows'' e)
           | Inr _ \<Rightarrow> oret rows))"

definition max_occurred :: "adb \<Rightarrow> time option" where
  "max_occurred d = (case map snd (at_processed d) of [] \<Rightarrow> None | t # ts \<Rightarrow> Some (fold max ts t))"

definition at_FreshnessLag :: "time \<Rightarrow> (an, duration) op" where
  "at_FreshnessLag clock =
     ocatch (an_select max_occurred) (\<lambda>r. case r of
         Inl e \<Rightarrow> if errors_is e ErrNoRows then oret 0 else ofail (Wrap ''analyticsstore: freshness query'' e)
       | Inr None \<Rightarrow> oret 0
       | Inr (Some latest) \<Rightarrow>
           if IsZero latest then oret 0
           else let lag = time_Sub clock latest in if lag < 0 then oret 0 else oret lag)"

definition postgres_report :: "(PathId \<Rightarrow> 'k::linorder) \<Rightarrow> time \<Rightarrow> an ReportStore" where
  "postgres_report coll clock = \<lparr>Query = at_Query coll, FreshnessLag = at_FreshnessLag clock\<rparr>"


section \<open>What a transaction does\<close>

text \<open>A body whose success, inside a transaction, is the function \<open>f\<close> on the transaction's copy.\<close>

definition runs :: "(an, 'a) op \<Rightarrow> (adb \<Rightarrow> 'a \<times> adb) \<Rightarrow> bool" where
  "runs body f \<longleftrightarrow> (\<forall>s d r s'. an_tx s = Some d \<longrightarrow> body s = (r, s') \<longrightarrow>
     an_db s' = an_db s \<and> (\<forall>a. r = Inr a \<longrightarrow> a = fst (f d) \<and> an_tx s' = Some (snd (f d))))"

lemma runsI:
  "(\<And>s d r s'. an_tx s = Some d \<Longrightarrow> body s = (r, s') \<Longrightarrow>
     an_db s' = an_db s \<and> (\<forall>a. r = Inr a \<longrightarrow> a = fst (f d) \<and> an_tx s' = Some (snd (f d)))) \<Longrightarrow> runs body f"
  unfolding runs_def by blast

lemma runsD:
  assumes "runs body f" "an_tx s = Some d" "body s = (r, s')"
  shows "an_db s' = an_db s" "r = Inr a \<Longrightarrow> a = fst (f d)" "r = Inr a \<Longrightarrow> an_tx s' = Some (snd (f d))"
  using assms unfolding runs_def by blast+

lemma an_fault_frame: "an_fault s = (r, s') \<Longrightarrow> an_db s' = an_db s \<and> an_tx s' = an_tx s"
  by (auto simp: an_fault_def split: list.splits option.splits)

lemma runs_exec: "runs (an_exec q) q"
proof (rule runsI)
  fix s d r s' assume t: "an_tx s = Some d" and e: "an_exec q s = (r, s')"
  obtain r1 s1 where f: "an_fault s = (r1, s1)" by fastforce
  have T: "an_db s1 = an_db s" "an_tx s1 = Some d" using an_fault_frame [OF f] t by auto
  show "an_db s' = an_db s \<and> (\<forall>a. r = Inr a \<longrightarrow> a = fst (q d) \<and> an_tx s' = Some (snd (q d)))"
  proof (cases r1)
    case (Inl x)
    have "an_fault s = (Inl x, s1)" using f Inl by simp
    then have "an_exec q s = (Inl x, s1)" unfolding an_exec_def by (rule obind_Inl)
    then show ?thesis using e T by auto
  next
    case (Inr u)
    obtain b d1 where q: "q d = (b, d1)" by fastforce
    have "an_fault s = (Inr u, s1)" using f Inr by simp
    then have "an_exec q s = (Inr b, s1\<lparr>an_tx := Some d1\<rparr>)"
      unfolding an_exec_def obind_def by (simp only: prod.case sum.case T option.case q)
    then have "(r, s') = (Inr b, s1\<lparr>an_tx := Some d1\<rparr>)" using e by simp
    then show ?thesis using q T by simp
  qed
qed

lemma runs_oret: "runs (oret a) (\<lambda>d. (a, d))"
  by (simp add: runs_def)

lemma runs_obind:
  assumes "runs m f" "\<And>a. runs (k a) (g a)"
  shows "runs (obind m k) (\<lambda>d. case f d of (a, d) \<Rightarrow> g a d)"
  unfolding runs_def
proof (intro allI impI)
  fix s d r s' assume t: "an_tx s = Some d" and b: "obind m k s = (r, s')"
  show "an_db s' = an_db s \<and> (\<forall>a. r = Inr a \<longrightarrow> a = fst (case f d of (a, d) \<Rightarrow> g a d)
      \<and> an_tx s' = Some (snd (case f d of (a, d) \<Rightarrow> g a d)))"
    using b
  proof (cases rule: obind_cases)
    case (err e)
    then show ?thesis using runsD(1) [OF assms(1) t err(1)] by simp
  next
    case (ok a s1)
    note m = runsD [OF assms(1) t ok(1)]
    have "an_tx s1 = Some (snd (f d))" "a = fst (f d)" using m by auto
    then show ?thesis using runsD [OF assms(2) _ ok(2)] m(1) by (auto simp: case_prod_unfold)
  qed
qed

lemma ocatch_wrap: "ocatch m (\<lambda>r. case r of Inl e \<Rightarrow> ofail (w e) | Inr a \<Rightarrow> k a)
    = obind (ocatch m (\<lambda>r. case r of Inl e \<Rightarrow> ofail (w e) | Inr a \<Rightarrow> oret a)) k"
  by (auto simp: ocatch_def obind_def fun_eq_iff split: prod.splits sum.splits)

lemma runs_wrap:
  assumes "runs m f"
  shows "runs (ocatch m (\<lambda>r. case r of Inl e \<Rightarrow> ofail (w e) | Inr a \<Rightarrow> oret a)) f"
proof (rule runsI)
  fix s d r s'
  assume t: "an_tx s = Some d" and e: "ocatch m (\<lambda>r. case r of Inl e \<Rightarrow> ofail (w e) | Inr a \<Rightarrow> oret a) s = (r, s')"
  obtain r1 s1 where m: "m s = (r1, s1)" by fastforce
  show "an_db s' = an_db s \<and> (\<forall>a. r = Inr a \<longrightarrow> a = fst (f d) \<and> an_tx s' = Some (snd (f d)))"
    using e m runsD [OF assms t m] by (cases r1) (auto simp: ocatch_def)
qed

lemma runs_catch:
  "runs m f \<Longrightarrow> (\<And>a. runs (k a) (g a)) \<Longrightarrow>
    runs (ocatch m (\<lambda>r. case r of Inl e \<Rightarrow> ofail (w e) | Inr a \<Rightarrow> k a)) (\<lambda>d. case f d of (a, d) \<Rightarrow> g a d)"
  unfolding ocatch_wrap [of m w k] by (intro runs_obind runs_wrap)

lemma inTx_cases:
  assumes "inTx body s = (r, s')" "an_tx s = None" "runs body f"
  shows "an_tx s' = None \<and> an_db s' = (case r of Inl _ \<Rightarrow> an_db s | Inr _ \<Rightarrow> snd (f (an_db s)))"
proof -
  obtain r1 s1 where s1: "an_fault s = (r1, s1)" by fastforce
  note f1 = an_fault_frame [OF s1]
  show ?thesis
  proof (cases r1)
    case (Inl e)
    then show ?thesis using assms(1,2) f1 s1 by (auto simp: inTx_def)
  next
    case (Inr x)
    obtain r2 s2 where s2: "body (s1\<lparr>an_tx := Some (an_db s1)\<rparr>) = (r2, s2)" by fastforce
    have "an_tx (s1\<lparr>an_tx := Some (an_db s1)\<rparr>) = Some (an_db s)" using f1 by simp
    note rd = runsD [OF assms(3) this s2]
    have b: "an_db s2 = an_db s" "\<And>a. r2 = Inr a \<Longrightarrow> an_tx s2 = Some (snd (f (an_db s)))" using rd f1 by auto
    obtain r3 s3 where s3: "an_fault s2 = (r3, s3)" by fastforce
    note f3 = an_fault_frame [OF s3]
    show ?thesis
      using assms(1,2) s1 s2 s3 f1 f3 b Inr
      by (cases r2; cases r3) (auto simp: inTx_def an_Rollback_def an_Commit_def)
  qed
qed

section \<open>The Postgres projection is a projection store\<close>

definition acc_of :: "rollupDelta \<Rightarrow> rowAcc" where
  "acc_of r = \<lparr>ac_shiftsStarted = rd_shiftsStarted r, ac_shiftsEnded = rd_shiftsEnded r, ac_breaks = rd_breaks r,
     ac_totalBreakSeconds = rd_breakSeconds r, ac_breaksWithDuration = rd_breaksWithDuration r,
     ac_certifications = rd_certifications r, ac_laborAssigned = rd_laborAssigned r,
     ac_laborReassigned = rd_laborReassigned r, ac_understaffingEvents = rd_understaffingEvents r\<rparr>"

definition adb_view :: "adb \<Rightarrow> proj_view" where
  "adb_view d = \<lparr>pv_seen = set (map fst (at_processed d)), pv_latest = fold max (map snd (at_processed d)) 0,
     pv_rows = (\<lambda>k. map_option acc_of (map_of (at_rollup d) (rk_PathId k, rk_HourBucket k))),
     pv_breaks = map_of (at_pending d)\<rparr>"

definition at_view :: "an \<Rightarrow> proj_view" where
  "at_view s = adb_view (an_db s)"

definition adb_inv :: "adb \<Rightarrow> bool" where
  "adb_inv d \<longleftrightarrow> gwf (at_rollup d) \<and> (\<forall>k r. map_of (at_rollup d) k = Some r \<longrightarrow> is_float (rd_breakSeconds r))"

definition at_inv :: "an \<Rightarrow> bool" where
  "at_inv s \<longleftrightarrow> an_tx s = None \<and> adb_inv (an_db s)"

fun delta_of :: "kind \<Rightarrow> rollupDelta" where
  "delta_of KShiftStarted = zeroDelta\<lparr>rd_shiftsStarted := 1\<rparr>"
| "delta_of KShiftEnded = zeroDelta\<lparr>rd_shiftsEnded := 1\<rparr>"
| "delta_of KBreakStarted = zeroDelta\<lparr>rd_breaks := 1\<rparr>"
| "delta_of KCertified = zeroDelta\<lparr>rd_certifications := 1\<rparr>"
| "delta_of KLaborAssigned = zeroDelta\<lparr>rd_laborAssigned := 1\<rparr>"
| "delta_of KLaborReassigned = zeroDelta\<lparr>rd_laborReassigned := 1\<rparr>"
| "delta_of KPathUnderstaffed = zeroDelta\<lparr>rd_understaffingEvents := 1\<rparr>"
| "delta_of KBreakEnded = zeroDelta"

definition at_effect :: "proj_event \<Rightarrow> adb \<Rightarrow> adb" where
  "at_effect e d = (let up = (\<lambda>t x. snd (upsert_row (rk_PathId (event_key e)) (trunc_us (truncate_hour t)) x d)) in
     case pe_Kind e of
       KBreakStarted \<Rightarrow> (let d = up (pe_At e) (delta_of KBreakStarted) in
          d\<lparr>at_pending := gput (pe_Subject e) (trunc_us (pe_At e)) (at_pending d)\<rparr>)
     | KBreakEnded \<Rightarrow> (case map_of (at_pending d) (pe_Subject e) of
           None \<Rightarrow> d
         | Some st \<Rightarrow> (let d = up st (zeroDelta\<lparr>rd_breakSeconds := Seconds (time_Sub (pe_At e) st), rd_breaksWithDuration := 1\<rparr>) in
             d\<lparr>at_pending := gdelete (pe_Subject e) (at_pending d)\<rparr>))
     | k \<Rightarrow> up (pe_At e) (delta_of k))"

definition at_step :: "proj_event \<Rightarrow> adb \<Rightarrow> adb" where
  "at_step e d = (if pe_Id e \<in> set (map fst (at_processed d)) then d
     else at_effect e (d\<lparr>at_processed := (pe_Id e, trunc_us (pe_At e)) # at_processed d\<rparr>))"

lemma runs_upsert: "runs (upsertRollup p t x) (upsert_row p (trunc_us (truncate_hour t)) x)"
  unfolding upsertRollup_def Let_def using runs_wrap [OF runs_exec] by (simp add: case_unit_Unity)


lemma runs_cong: "runs m f \<Longrightarrow> (\<And>d. f d = g d) \<Longrightarrow> runs m g"
  by (subgoal_tac "f = g") auto

lemma runs_claimed:
  assumes "runs body (\<lambda>d. ((), g d))" "claimed i t body s = (r, s')" "an_tx s = None"
  shows "an_tx s' = None \<and> an_db s' = (case r of Inl _ \<Rightarrow> an_db s | Inr _ \<Rightarrow>
     if i \<in> set (map fst (at_processed (an_db s))) then an_db s
     else g ((an_db s)\<lparr>at_processed := (i, trunc_us t) # at_processed (an_db s)\<rparr>))"
proof -
  let ?g = "\<lambda>(n :: int) d. if n > 0 then ((), g d) else ((), d)"
  have c: "runs (an_claim i t) (\<lambda>d. case insert_processed i t d of (n, d) \<Rightarrow> (n > 0, d))"
    unfolding an_claim_def by (rule runs_obind [OF runs_exec runs_oret])
  have k: "runs (if \<not> isNew then oret () else body) (\<lambda>d. if isNew then ((), g d) else ((), d))" for isNew
    using assms(1) runs_oret [of "()"] by (cases isNew) simp_all
  note x = inTx_cases [OF assms(2) [unfolded claimed_def] assms(3) runs_catch [OF c k]]
  show ?thesis using x by (cases r) (auto simp: insert_processed_def split: if_splits)
qed

lemma postgres_runs:
  assumes "an_tx s = None" "apply_event postgres_projection e s = (r, s')"
  shows "an_tx s' = None \<and> an_db s' = (case r of Inl _ \<Rightarrow> an_db s | Inr _ \<Rightarrow> at_step e (an_db s))"
proof -
  let ?up = "\<lambda>d. ((), snd (upsert_row (rk_PathId (event_key e)) (trunc_us (truncate_hour (pe_At e))) (delta_of (pe_Kind e)) d))"
  have up: "runs (upsertRollup p t x) (\<lambda>d. ((), snd (upsert_row p (trunc_us (truncate_hour t)) x d)))" for p t x
    by (rule runs_cong [OF runs_upsert]) (simp add: upsert_row_def)
  have ex: "runs (ocatch (an_exec (\<lambda>d. ((), h d))) (\<lambda>r. case r of Inl e \<Rightarrow> ofail (w e) | Inr _ \<Rightarrow> oret ())) (\<lambda>d. ((), h d))" for h w
    by (rule runs_cong [OF runs_catch [OF runs_exec runs_oret]]) simp
  have "\<exists>body. apply_event postgres_projection e = claimed (pe_Id e) (pe_At e) body \<and> runs body (\<lambda>d. ((), at_effect e d))"
  proof (cases "pe_Kind e")
    case KBreakStarted
    have "runs (obind (upsertRollup '''' (pe_At e) (zeroDelta\<lparr>rd_breaks := 1\<rparr>)) (\<lambda>_.
        ocatch (an_exec (\<lambda>d. ((), d\<lparr>at_pending := gput (pe_Subject e) (trunc_us (pe_At e)) (at_pending d)\<rparr>))) (\<lambda>r. case r of
         Inl e \<Rightarrow> ofail (Wrap ''analyticsstore: record break start'' e) | Inr _ \<Rightarrow> oret ()))) (\<lambda>d. ((), at_effect e d))"
      by (rule runs_cong [OF runs_obind [OF up ex]]) (simp add: at_effect_def KBreakStarted event_key_def Let_def)
    then show ?thesis by (auto simp: apply_event_def postgres_projection_def KBreakStarted at_ApplyBreakStarted_def)
  next
    case KBreakEnded
    let ?k = "\<lambda>st. obind (upsertRollup '''' st (zeroDelta\<lparr>rd_breakSeconds := Seconds (time_Sub (pe_At e) st), rd_breaksWithDuration := 1\<rparr>)) (\<lambda>_.
           ocatch (an_exec (\<lambda>d. ((), d\<lparr>at_pending := gdelete (pe_Subject e) (at_pending d)\<rparr>))) (\<lambda>r. case r of
               Inl e \<Rightarrow> ofail (Wrap ''analyticsstore: clear break start'' e)
             | Inr _ \<Rightarrow> oret ()))"
    let ?h = "\<lambda>st d. let d = snd (upsert_row '''' (trunc_us (truncate_hour st))
        (zeroDelta\<lparr>rd_breakSeconds := Seconds (time_Sub (pe_At e) st), rd_breaksWithDuration := 1\<rparr>) d)
      in d\<lparr>at_pending := gdelete (pe_Subject e) (at_pending d)\<rparr>"
    have k: "runs (?k st) (\<lambda>d. ((), ?h st d))" for st
      by (rule runs_cong [OF runs_obind [OF up ex]]) (simp add: Let_def)
    have k2: "runs (case st0 of None \<Rightarrow> oret () | Some st \<Rightarrow> ?k st) (\<lambda>d. ((), case st0 of None \<Rightarrow> d | Some st \<Rightarrow> ?h st d))" for st0
      by (cases st0; simp only: option.case k runs_oret)
    have "runs (ocatch (an_select (\<lambda>d. map_of (at_pending d) (pe_Subject e))) (\<lambda>r. case r of
         Inl e \<Rightarrow> ofail (Wrap ''analyticsstore: lookup break start'' e)
       | Inr st0 \<Rightarrow> (case st0 of None \<Rightarrow> oret () | Some st \<Rightarrow> ?k st))) (\<lambda>d. ((), at_effect e d))"
      unfolding an_select_def
      by (rule runs_cong [OF runs_catch [OF runs_exec k2]]) (simp add: at_effect_def KBreakEnded event_key_def)
    then show ?thesis
      by (auto simp: apply_event_def postgres_projection_def KBreakEnded at_ApplyBreakEnded_def)
  qed (auto intro!: exI [of _ "upsertRollup (rk_PathId (event_key e)) (pe_At e) (delta_of (pe_Kind e))"] runs_cong [OF up]
      simp: apply_event_def postgres_projection_def applyRollup_def at_effect_def Let_def event_key_def
      at_ApplyShiftStarted_def at_ApplyShiftEnded_def at_ApplyCertified_def at_ApplyLaborAssigned_def
      at_ApplyLaborReassigned_def at_ApplyPathUnderstaffed_def)
  then obtain body where b: "apply_event postgres_projection e = claimed (pe_Id e) (pe_At e) body"
    "runs body (\<lambda>d. ((), at_effect e d))" by blast
  show ?thesis using runs_claimed [OF b(2) assms(2) [unfolded b(1)] assms(1)] by (cases r) (simp_all add: at_step_def)
qed


lemma trunc_us_hour [simp]: "trunc_us (truncate_hour t) = truncate_hour t"
proof -
  have "truncate_hour t = (t div 3600000000000 * 3600000000) * 1000"
    by (simp add: truncate_hour_def minus_mod_eq_div_mult)
  then show ?thesis unfolding trunc_us_def by (metis add_0_right mod_mult_self2_is_0 diff_zero)
qed

lemma is_float_Seconds [simp]: "is_float (Seconds d)"
  unfolding Seconds_def f64_of_int_def
  by (intro is_float_fadd) (cases "flround (of_int (go_rem d second_ns))"; simp add: is_float_def [of "Inf _"])+

lemma acc_of_zero [simp]: "acc_of zeroDelta = zero_acc"
  by (simp add: acc_of_def zeroDelta_def zero_acc_def)

lemma acc_of_delta: "k \<noteq> KBreakEnded \<Longrightarrow> acc_of (delta_of k) = bump k zero_acc"
  by (cases k) (simp_all add: acc_of_def zeroDelta_def zero_acc_def)

lemma acc_of_add_delta:
  "k \<noteq> KBreakEnded \<Longrightarrow> is_float (rd_breakSeconds r) \<Longrightarrow> acc_of (add_delta r (delta_of k)) = bump k (acc_of r)"
  by (cases k) (simp_all add: acc_of_def add_delta_def zeroDelta_def)

lemma acc_of_break:
  "acc_of (zeroDelta\<lparr>rd_breakSeconds := Seconds x, rd_breaksWithDuration := 1\<rparr>) = fold_break (Seconds x) zero_acc"
  "acc_of (add_delta r (zeroDelta\<lparr>rd_breakSeconds := Seconds x, rd_breaksWithDuration := 1\<rparr>)) = fold_break (Seconds x) (acc_of r)"
  by (simp_all add: acc_of_def add_delta_def zeroDelta_def fold_break_def zero_acc_def)

lemma upsert_view:
  assumes "adb_inv d" "upsert_row p (truncate_hour t) x d = (u, d')" "is_float (rd_breakSeconds x)"
    and "acc_of x = f zero_acc" "\<And>r. is_float (rd_breakSeconds r) \<Longrightarrow> acc_of (add_delta r x) = f (acc_of r)"
  shows "adb_inv d' \<and> adb_view d' = upd_row \<lparr>rk_PathId = p, rk_HourBucket = truncate_hour t\<rparr> f (adb_view d)"
proof -
  let ?k = "(p, truncate_hour t)"
  have d': "d' = d\<lparr>at_rollup := gput ?k (case map_of (at_rollup d) ?k of None \<Rightarrow> x | Some r \<Rightarrow> add_delta r x) (at_rollup d)\<rparr>"
    using assms(2) by (simp add: upsert_row_def)
  have "adb_inv d'" using assms(1,3) by (auto simp: d' adb_inv_def add_delta_def is_float_fadd split: option.splits)
  moreover have "pv_rows (adb_view d') = (pv_rows (adb_view d))(\<lparr>rk_PathId = p, rk_HourBucket = truncate_hour t\<rparr>
      \<mapsto> f (acc_at (pv_rows (adb_view d)) \<lparr>rk_PathId = p, rk_HourBucket = truncate_hour t\<rparr>))"
  proof (rule ext)
    fix k :: RowKey
    have "k = \<lparr>rk_PathId = p, rk_HourBucket = truncate_hour t\<rparr> \<longleftrightarrow> (rk_PathId k, rk_HourBucket k) = ?k" by (cases k) auto
    then show "pv_rows (adb_view d') k = ((pv_rows (adb_view d))(\<lparr>rk_PathId = p, rk_HourBucket = truncate_hour t\<rparr>
      \<mapsto> f (acc_at (pv_rows (adb_view d)) \<lparr>rk_PathId = p, rk_HourBucket = truncate_hour t\<rparr>))) k"
      using assms(1,4,5) by (auto simp: d' adb_view_def acc_at_def adb_inv_def split: option.splits)
  qed
  ultimately show ?thesis by (simp add: upd_row_def) (simp add: d' adb_view_def)
qed

lemma at_pending_view:
  "adb_view (d\<lparr>at_pending := m\<rparr>) = (adb_view d)\<lparr>pv_breaks := map_of m\<rparr>" "adb_inv (d\<lparr>at_pending := m\<rparr>) = adb_inv d"
  by (simp_all add: adb_view_def adb_inv_def)

lemma at_effect_view:
  assumes "adb_inv d"
  shows "adb_inv (at_effect e d) \<and> adb_view (at_effect e d) = proj_effect trunc_us e (adb_view d)"
proof -
  have b: "pv_breaks (adb_view d) = map_of (at_pending d)" by (simp add: adb_view_def)
  have pu: "at_pending (snd (upsert_row p t x d)) = at_pending d" for p t x by (simp add: upsert_row_def)
  have fz: "is_float (rd_breakSeconds (delta_of k))" for k by (cases k) (simp_all add: zeroDelta_def)
  have up: "adb_inv (snd (upsert_row (rk_PathId (event_key e)) (truncate_hour (pe_At e)) (delta_of k) d))
    \<and> adb_view (snd (upsert_row (rk_PathId (event_key e)) (truncate_hour (pe_At e)) (delta_of k) d))
      = upd_row (event_key e) (bump k) (adb_view d)" if "k \<noteq> KBreakEnded" for k
    using upsert_view [OF assms prod.collapse [symmetric] fz acc_of_delta [OF that] acc_of_add_delta [OF that]]
    by (simp add: event_key_def)
  have br: "adb_inv (snd (upsert_row '''' (truncate_hour st) (zeroDelta\<lparr>rd_breakSeconds := Seconds x, rd_breaksWithDuration := 1\<rparr>) d))
    \<and> adb_view (snd (upsert_row '''' (truncate_hour st) (zeroDelta\<lparr>rd_breakSeconds := Seconds x, rd_breaksWithDuration := 1\<rparr>) d))
      = upd_row \<lparr>rk_PathId = '''', rk_HourBucket = truncate_hour st\<rparr> (fold_break (Seconds x)) (adb_view d)" for st x
    using upsert_view [OF assms prod.collapse [symmetric] _ acc_of_break(1) acc_of_break(2)] by simp
  show ?thesis
  proof (cases "pe_Kind e")
    case KBreakEnded
    then have "rk_PathId (event_key e) = ''''" by (simp add: event_key_def)
    then show ?thesis using KBreakEnded br assms
      by (auto simp: at_effect_def proj_effect_def b at_pending_view pu Let_def split: option.split)
  qed (use up in \<open>simp_all add: at_effect_def proj_effect_def Let_def b at_pending_view pu del: delta_of.simps bump.simps\<close>)
qed

lemma fold_max_insert: "fold max ts (max b (a :: int)) = max (fold max ts b) a"
  by (induction ts arbitrary: b) (simp_all flip: max.assoc)

lemma fold_max_swap: "fold max ts (max (a :: int) b) = max (fold max ts b) a"
  unfolding max.commute [of a b] by (rule fold_max_insert)

lemma at_step_view:
  assumes "adb_inv d"
  shows "adb_inv (at_step e d) \<and> adb_view (at_step e d) = proj_step trunc_us e (adb_view d)"
proof (cases "pe_Id e \<in> set (map fst (at_processed d))")
  case False
  let ?d = "d\<lparr>at_processed := (pe_Id e, trunc_us (pe_At e)) # at_processed d\<rparr>"
  have i: "adb_inv ?d" using assms by (simp add: adb_inv_def)
  have v: "adb_view ?d = (adb_view d)\<lparr>pv_seen := insert (pe_Id e) (pv_seen (adb_view d)),
      pv_latest := max (pv_latest (adb_view d)) (trunc_us (pe_At e))\<rparr>"
    using fold_max_swap [of _ "trunc_us (pe_At e)"] by (simp add: adb_view_def)
  have "at_step e d = at_effect e ?d" using False by (simp add: at_step_def)
  moreover have "pe_Id e \<notin> pv_seen (adb_view d)" using False by (simp add: adb_view_def)
  ultimately show ?thesis using at_effect_view [OF i, of e, unfolded v] by (simp add: proj_step_def)
qed (use assms in \<open>auto simp: at_step_def proj_step_def adb_view_def\<close>)

lemma postgres_step:
  assumes "at_inv s" "apply_event postgres_projection e s = (r, s')"
  shows "at_inv s' \<and> at_view s' = (case r of Inl _ \<Rightarrow> at_view s | Inr _ \<Rightarrow> proj_step trunc_us e (at_view s))"
proof -
  have n: "an_tx s = None" and i: "adb_inv (an_db s)" using assms(1) by (simp_all add: at_inv_def)
  show ?thesis
    using postgres_runs [OF n assms(2)] at_step_view [OF i, of e] i by (cases r) (simp_all add: at_inv_def at_view_def)
qed

interpretation pg_store: projection_store postgres_projection at_view at_inv trunc_us
  by unfold_locales (auto dest: postgres_step)


section \<open>What a report reads back\<close>

lemma gwf_mset: "gwf m \<Longrightarrow> mset m = image_mset (\<lambda>k. (k, the (map_of m k))) (mset_set (dom (map_of m)))"
proof (induction m)
  case (Cons kv m)
  obtain k v where kv: "kv = (k, v)" by fastforce
  then have k: "k \<notin> dom (map_of m)" and g: "gwf m" using Cons.prems by (auto simp: gwf_def dom_map_of_conv_image_fst)
  have fin: "finite (dom (map_of m))" by (simp add: finite_dom_map_of)
  have "image_mset (\<lambda>j. (j, the (((map_of m)(k \<mapsto> v)) j))) (mset_set (dom (map_of m)))
      = image_mset (\<lambda>j. (j, the (map_of m j))) (mset_set (dom (map_of m)))"
    using k fin by (intro image_mset_cong) auto
  moreover have "map_of (kv # m) = (map_of m)(k \<mapsto> v)" "dom ((map_of m)(k \<mapsto> v)) = insert k (dom (map_of m))"
    by (auto simp: kv)
  moreover have "mset_set (insert k (dom (map_of m))) = add_mset k (mset_set (dom (map_of m)))"
    using k fin by (simp add: mset_set.insert)
  ultimately show ?case using Cons.IH [OF g]
    by (simp only: mset.simps image_mset_add_mset fun_upd_same option.sel kv)
qed simp

lemma gwf_mset_eq: "gwf m \<Longrightarrow> gwf m' \<Longrightarrow> map_of m = map_of m' \<Longrightarrow> mset m = mset m'"
  using gwf_mset [of m] gwf_mset [of m'] by simp

definition selected :: "ReportQuery \<Rightarrow> RowKey \<Rightarrow> bool" where
  "selected q k \<longleftrightarrow> rq_From q \<le> rk_HourBucket k \<and> rk_HourBucket k < rq_To q \<and> (rq_PathId q = '''' \<or> rk_PathId k = rq_PathId q)"

lemma mt_scan_eq: "mt_scan q krs = map (\<lambda>(k, r). row_of_acc k r) (filter (\<lambda>(k, _). selected q k) krs)"
  by (induction q krs rule: mt_scan.induct) (auto simp: selected_def)

definition rollup_rows :: "adb \<Rightarrow> (RowKey, rowAcc) gmap" where
  "rollup_rows d = map (\<lambda>((p, b), r). (\<lparr>rk_PathId = p, rk_HourBucket = b\<rparr>, acc_of r)) (at_rollup d)"

lemma rollup_rows_view: "gwf (at_rollup d) \<Longrightarrow> gwf (rollup_rows d) \<and> map_of (rollup_rows d) = pv_rows (adb_view d)"
proof -
  assume g: "gwf (at_rollup d)"
  have "map fst (rollup_rows d) = map (\<lambda>(p, b). \<lparr>rk_PathId = p, rk_HourBucket = b\<rparr>) (map fst (at_rollup d))"
    by (simp add: rollup_rows_def case_prod_unfold)
  moreover have "inj (\<lambda>(p, b). \<lparr>rk_PathId = p, rk_HourBucket = b\<rparr>)" by (auto simp: inj_def)
  ultimately have "gwf (rollup_rows d)" using g
    by (auto simp: gwf_def distinct_map intro!: comp_inj_on intro: inj_on_subset)
  moreover have "map_of (map (\<lambda>((p, b), r). (\<lparr>rk_PathId = p, rk_HourBucket = b\<rparr>, acc_of r)) m) k
      = map_option acc_of (map_of m (rk_PathId k, rk_HourBucket k))" for m k
    by (cases k, induction m) auto
  ultimately show ?thesis by (auto simp: rollup_rows_def adb_view_def fun_eq_iff)
qed

lemma at_row_eq: "at_row ((p, b), r) = row_of_acc \<lparr>rk_PathId = p, rk_HourBucket = b\<rparr> (acc_of r)"
  by (simp add: at_row_def row_of_acc_def acc_of_def)

lemma at_selected_eq:
  "trunc_us (rq_From q) = rq_From q \<Longrightarrow> trunc_us (rq_To q) = rq_To q \<Longrightarrow>
    at_selected q ((p, b), r) = selected q \<lparr>rk_PathId = p, rk_HourBucket = b\<rparr>"
  by (simp add: at_selected_def selected_def)

lemma at_Query_rows:
  assumes "an_faults s = []" "an_tx s = None" "trunc_us (rq_From q) = rq_From q" "trunc_us (rq_To q) = rq_To q"
  shows "\<exists>rows. at_Query coll q s = (Inr rows, s)
    \<and> mset rows = image_mset (\<lambda>(k, r). row_of_acc k r) (filter_mset (\<lambda>(k, _). selected q k) (mset (rollup_rows (an_db s))))
    \<and> sorted (map (\<lambda>r. rk_HourBucket (rw_Key r)) rows)"
proof -
  define sel where "sel = sort_key (\<lambda>((_ :: PathId, bucket), _ :: rollupDelta). bucket)
    (sort_key (\<lambda>((p, _), _). coll p) (filter (at_selected q) (at_rollup (an_db s))))"
  have "at_Query coll q s = (Inr (map at_row sel), s)"
    using assms(1,2) by (simp add: at_Query_def sel_def an_select_def an_exec_def an_fault_def ocatch_def obind_def)
  moreover have "mset (map at_row sel) = image_mset (\<lambda>(k, r). row_of_acc k r)
      (filter_mset (\<lambda>(k, _). selected q k) (mset (rollup_rows (an_db s))))"
  proof -
    have "image_mset at_row (filter_mset (at_selected q) (mset m)) = image_mset (\<lambda>(k, r). row_of_acc k r)
      (filter_mset (\<lambda>(k, _). selected q k) (mset (map (\<lambda>((p, b), r). (\<lparr>rk_PathId = p, rk_HourBucket = b\<rparr>, acc_of r)) m)))" for m
      by (induction m) (auto simp: at_row_eq at_selected_eq [OF assms(3,4)])
    then show ?thesis by (simp add: sel_def rollup_rows_def mset_filter)
  qed
  moreover have m: "map (\<lambda>r. rk_HourBucket (rw_Key r)) (map at_row sel) = map (\<lambda>((_, bucket), _). bucket) sel"
    by (auto simp: at_row_def)
  have "sorted (map (\<lambda>r. rk_HourBucket (rw_Key r)) (map at_row sel))" unfolding m unfolding sel_def by (rule sorted_sort_key)
  ultimately show ?thesis by blast
qed

text \<open>Without a failing statement every application succeeds.\<close>

definition smooth :: "(an, 'a) op \<Rightarrow> bool" where
  "smooth m \<longleftrightarrow> (\<forall>s. an_faults s = [] \<longrightarrow> (\<exists>a. fst (m s) = Inr a) \<and> an_faults (snd (m s)) = [])"

lemma smooth_exec [simp]: "smooth (an_exec q)"
  by (auto simp: smooth_def an_exec_def obind_def an_fault_def split: option.split prod.split)

lemma smooth_oret [simp]: "smooth (oret a)"
  by (simp add: smooth_def)

lemma smooth_obind: "smooth m \<Longrightarrow> (\<And>a. smooth (k a)) \<Longrightarrow> smooth (obind m k)"
  unfolding smooth_def obind_def by (fastforce split: prod.split sum.split)

lemma smooth_catch:
  "smooth m \<Longrightarrow> (\<And>a. smooth (k a)) \<Longrightarrow> smooth (ocatch m (\<lambda>r. case r of Inl e \<Rightarrow> w e | Inr a \<Rightarrow> k a))"
  unfolding smooth_def ocatch_def by (fastforce split: prod.split sum.split)

lemma smoothE:
  assumes "smooth m" "an_faults s = []"
  obtains a s' where "m s = (Inr a, s')" and "an_faults s' = []"
  using assms by (cases "m s") (auto simp: smooth_def)

lemma smooth_inTx:
  assumes "smooth body"
  shows "smooth (inTx body)"
  unfolding smooth_def
proof (intro allI impI)
  fix s :: an assume f: "an_faults s = []"
  obtain a s1 where "body (s\<lparr>an_tx := Some (an_db s)\<rparr>) = (Inr a, s1)" "an_faults s1 = []"
    using smoothE [OF assms, of "s\<lparr>an_tx := Some (an_db s)\<rparr>"] f by auto
  then show "(\<exists>a. fst (inTx body s) = Inr a) \<and> an_faults (snd (inTx body s)) = []"
    using f by (auto simp: inTx_def an_fault_def an_Commit_def split: option.split)
qed

lemma smooth_claimed: "smooth body \<Longrightarrow> smooth (claimed i t body)"
  unfolding claimed_def an_claim_def by (intro smooth_inTx smooth_catch smooth_obind) auto

lemma smooth_upsert [simp]: "smooth (upsertRollup p t x)"
  unfolding upsertRollup_def Let_def by (intro smooth_catch) auto

lemma smooth_apply: "smooth (apply_event postgres_projection e)"
  by (cases "pe_Kind e")
    (auto simp: apply_event_def postgres_projection_def applyRollup_def an_select_def
      at_ApplyShiftStarted_def at_ApplyShiftEnded_def at_ApplyCertified_def at_ApplyLaborAssigned_def
      at_ApplyLaborReassigned_def at_ApplyPathUnderstaffed_def at_ApplyBreakStarted_def at_ApplyBreakEnded_def
      intro!: smooth_claimed smooth_obind smooth_catch split: option.split)


definition an_empty :: "string option list \<Rightarrow> an" where
  "an_empty faults = \<lparr>an_db = \<lparr>at_processed = [], at_consumed = [], at_pending = [], at_rollup = []\<rparr>, an_tx = None,
     an_faults = faults\<rparr>"

lemma an_empty_ok [simp]: "at_inv (an_empty fs)" "at_view (an_empty fs) = pv_empty"
  by (simp_all add: at_inv_def adb_inv_def an_empty_def at_view_def adb_view_def pv_empty_def)

lemma an_empty_faults [simp]: "an_faults (an_empty fs) = fs"
  by (simp add: an_empty_def)

lemma mem_store_ok [simp]: "mt_inv NewMemoryStore" "mt_view NewMemoryStore = pv_empty"
  by (simp_all add: mt_inv_def mt_view_def NewMemoryStore_def pv_empty_def)

lemma apply_smooth:
  "an_faults s = [] \<Longrightarrow> at_inv s \<Longrightarrow> apply_each postgres_projection es s = (ok, s') \<Longrightarrow> ok = es \<and> an_faults s' = [] \<and> at_inv s'"
proof (induction es arbitrary: s ok s')
  case (Cons e es)
  obtain u s1 where a: "apply_event postgres_projection e s = (Inr u, s1)" "an_faults s1 = []"
    using smoothE [OF smooth_apply Cons.prems(1)] by blast
  obtain ok1 s2 where b: "apply_each postgres_projection es s1 = (ok1, s2)" by fastforce
  show ?case
    using Cons.IH [OF a(2) pg_store.apply_inv [OF Cons.prems(2) a(1)] b] Cons.prems(3) a(1) b by simp
qed simp

lemma memory_total: "apply_each memory_projection es s = (ok, s') \<Longrightarrow> mt_inv s \<Longrightarrow> ok = es"
proof (induction es arbitrary: s ok s')
  case (Cons e es)
  obtain r s1 where a: "apply_event memory_projection e s = (r, s1)" by fastforce
  note st = memory_step [OF Cons.prems(2) a]
  obtain ok1 s2 where b: "apply_each memory_projection es s1 = (ok1, s2)" by fastforce
  then show ?case using Cons.IH [OF b] st Cons.prems a by simp
qed simp

lemma proj_step_prec: "p (pe_At e) = pe_At e \<Longrightarrow> proj_step p e v = proj_step id e v"
  by (cases "pe_Kind e") (simp_all add: proj_step_def proj_effect_def)

lemma fold_prec: "\<forall>e \<in> set es. p (pe_At e) = pe_At e \<Longrightarrow> fold (proj_step p) es v = fold (proj_step id) es v"
  by (intro fold_cong) (auto intro: proj_step_prec)

definition occurred_ok :: "adb \<Rightarrow> bool" where
  "occurred_ok d \<longleftrightarrow> (\<forall>x \<in> set (at_processed d). 0 \<le> snd x)"

lemma occurred_step: "occurred_ok d \<Longrightarrow> 0 \<le> pe_At e \<Longrightarrow> occurred_ok (at_step e d)"
proof -
  have "at_processed (at_effect e d) = at_processed d" for d
    by (cases "pe_Kind e") (simp_all add: at_effect_def upsert_row_def Let_def split: option.split)
  moreover have "0 \<le> trunc_us t" if "0 \<le> t" for t
    using that by (simp add: trunc_us_def) (metis mod_le_divisor zmod_le_nonneg_dividend)
  ultimately show "occurred_ok d \<Longrightarrow> 0 \<le> pe_At e \<Longrightarrow> occurred_ok (at_step e d)"
    by (auto simp: at_step_def occurred_ok_def)
qed

lemma occurred_each:
  "at_inv s \<Longrightarrow> occurred_ok (an_db s) \<Longrightarrow> \<forall>e \<in> set es. 0 \<le> pe_At e \<Longrightarrow>
    apply_each postgres_projection es s = (ok, s') \<Longrightarrow> occurred_ok (an_db s')"
proof (induction es arbitrary: s ok s')
  case (Cons e es)
  obtain r s1 where a: "apply_event postgres_projection e s = (r, s1)" by fastforce
  obtain ok1 s2 where b: "apply_each postgres_projection es s1 = (ok1, s2)" by fastforce
  have "an_tx s = None" using Cons.prems(1) by (simp add: at_inv_def)
  note pr = postgres_runs [OF this a]
  have "occurred_ok (an_db s1)" using pr occurred_step Cons.prems(2,3) by (cases r) auto
  from Cons.IH [OF pg_store.apply_inv [OF Cons.prems(1) a] this _ b] show ?case
    using Cons.prems(3,4) a b by (cases r) auto
qed simp

lemma max_occurred_view:
  assumes "occurred_ok d"
  shows "(case max_occurred d of None \<Rightarrow> 0 | Some t \<Rightarrow> t) = pv_latest (adb_view d)"
  using assms by (cases "at_processed d") (auto simp: max_occurred_def adb_view_def occurred_ok_def max_def)

definition lag_of :: "time \<Rightarrow> time \<Rightarrow> duration" where
  "lag_of now latest = (if IsZero latest \<or> time_Sub now latest < 0 then 0 else time_Sub now latest)"

lemma mt_lag: "mt_FreshnessLag None now s = (Inr (lag_of now (pv_latest (mt_view s))), s)"
  by (simp add: mt_FreshnessLag_def lag_of_def Let_def)

lemma at_lag:
  assumes "an_faults s = []" "an_tx s = None" "occurred_ok (an_db s)"
  shows "at_FreshnessLag now s = (Inr (lag_of now (pv_latest (at_view s))), s)"
  using max_occurred_view [OF assms(3)] assms(1,2)
  by (cases "max_occurred (an_db s)")
    (simp_all add: at_FreshnessLag_def an_select_def an_exec_def an_fault_def ocatch_def obind_def lag_of_def Let_def
      at_view_def IsZero_def)

text \<open>
  C16: fed the same events (with whole-microsecond times) and no database failure, the in-memory
  projection and the Postgres one serve the same report to every query with whole-microsecond
  bounds, the Postgres rows in order of their hour, and the same freshness lag.
\<close>

theorem projections_agree:
  assumes "\<forall>e \<in> set es. trunc_us (pe_At e) = pe_At e \<and> 0 \<le> pe_At e"
    and "trunc_us (rq_From q) = rq_From q" "trunc_us (rq_To q) = rq_To q"
    and "\<And>m. mset (ord m) = mset m"
    and "apply_each memory_projection es NewMemoryStore = (ok1, m)"
    and "apply_each postgres_projection es (an_empty []) = (ok2, p)"
  shows "\<exists>rows1 rows2 lag. Query (memory_report ord None now) q m = (Inr rows1, m)
    \<and> Query (postgres_report coll now) q p = (Inr rows2, p)
    \<and> mset rows1 = mset rows2 \<and> sorted (map (\<lambda>r. rk_HourBucket (rw_Key r)) rows2)
    \<and> FreshnessLag (memory_report ord None now) m = (Inr lag, m)
    \<and> FreshnessLag (postgres_report coll now) p = (Inr lag, p)"
proof -
  have ms: "mt_inv m" "mt_view m = fold (proj_step id) es pv_empty"
    using mem_store.each_view [OF _ assms(5)] memory_total [OF assms(5)] by auto
  have ps: "at_inv p" "at_view p = fold (proj_step trunc_us) es pv_empty" "an_faults p = []"
    using pg_store.each_view [OF _ assms(6)] apply_smooth [OF _ _ assms(6)] by auto
  have v: "at_view p = mt_view m" unfolding ms ps by (rule fold_prec) (use assms(1) in blast)
  have tx: "an_tx p = None" and g: "gwf (at_rollup (an_db p))" using ps(1) by (simp_all add: at_inv_def adb_inv_def)
  note rr = rollup_rows_view [OF g]
  have "mset (mt_rows m) = mset (rollup_rows (an_db p))"
    using v ms(1) rr by (intro gwf_mset_eq) (auto simp: mt_inv_def mt_view_def at_view_def)
  moreover have "mset (mt_scan q (ord (mt_rows m)))
      = image_mset (\<lambda>(k, r). row_of_acc k r) (filter_mset (\<lambda>(k, _). selected q k) (mset (mt_rows m)))"
    by (simp add: mt_scan_eq mset_filter assms(4))
  moreover have "occurred_ok (an_db p)"
    by (rule occurred_each [OF _ _ _ assms(6)]) (use assms(1) in \<open>auto simp: an_empty_def occurred_ok_def at_inv_def adb_inv_def\<close>)
  ultimately show ?thesis
    using at_Query_rows [OF ps(3) tx assms(2,3), of coll] at_lag [OF ps(3) tx, of now] mt_lag [of now m] v
    by (auto simp: memory_report_def postgres_report_def mt_Query_def)
qed

text \<open>
  C17: whatever statements fail, and however often an event is delivered, each counter of a row of
  the Postgres projection is exactly the number of distinct events of its kind, path and hour
  whose application has succeeded.
\<close>

theorem projection_counts_exact:
  assumes "apply_each postgres_projection es (an_empty faults) = (ok, s)" "coherent es" "k \<noteq> KBreakEnded"
  shows "counter k (acc_at (pv_rows (at_view s)) key) = int (card {e \<in> set ok. pe_Kind e = k \<and> event_key e = key})"
  using pg_store.each_counts [OF _ _ assms] by simp


definition demo_proj :: "proj_event list" where
  "demo_proj = [\<lparr>pe_Kind = KBreakStarted, pe_Id = ''1'', pe_Subject = ''a'', pe_At = 7200000000000\<rparr>,
     \<lparr>pe_Kind = KBreakEnded, pe_Id = ''2'', pe_Subject = ''a'', pe_At = 7800000000000\<rparr>,
     \<lparr>pe_Kind = KLaborAssigned, pe_Id = ''3'', pe_Subject = ''pick'', pe_At = 7800000000000\<rparr>,
     \<lparr>pe_Kind = KLaborAssigned, pe_Id = ''3'', pe_Subject = ''pick'', pe_At = 7800000000000\<rparr>]"

definition demo_query :: ReportQuery where
  "demo_query = \<lparr>rq_From = 0, rq_To = 36000000000000, rq_PathId = '''', rq_Granularity = ''hour''\<rparr>"

theorem projections_agree_witness:
  "\<exists>rows1 rows2 lag.
    Query (memory_report rev None 9000000000000) demo_query (snd (apply_each memory_projection demo_proj NewMemoryStore))
      = (Inr rows1, snd (apply_each memory_projection demo_proj NewMemoryStore))
    \<and> Query (postgres_report length 9000000000000) demo_query (snd (apply_each postgres_projection demo_proj (an_empty [])))
      = (Inr rows2, snd (apply_each postgres_projection demo_proj (an_empty [])))
    \<and> mset rows1 = mset rows2 \<and> sorted (map (\<lambda>r. rk_HourBucket (rw_Key r)) rows2)
    \<and> FreshnessLag (memory_report rev None 9000000000000) (snd (apply_each memory_projection demo_proj NewMemoryStore))
      = (Inr lag, snd (apply_each memory_projection demo_proj NewMemoryStore))
    \<and> FreshnessLag (postgres_report (length :: string \<Rightarrow> nat) 9000000000000) (snd (apply_each postgres_projection demo_proj (an_empty [])))
      = (Inr lag, snd (apply_each postgres_projection demo_proj (an_empty [])))"
  by (rule projections_agree [where es = demo_proj, OF _ _ _ _ surjective_pairing surjective_pairing])
    (simp_all add: demo_proj_def demo_query_def trunc_us_def)

theorem projection_counts_exact_witness:
  "counter KLaborAssigned (acc_at (pv_rows (at_view (snd (apply_each postgres_projection demo_proj (an_empty [None, Some ''down''])))))
      \<lparr>rk_PathId = ''pick'', rk_HourBucket = 7200000000000\<rparr>)
    = int (card {e \<in> set (fst (apply_each postgres_projection demo_proj (an_empty [None, Some ''down'']))).
        pe_Kind e = KLaborAssigned \<and> event_key e = \<lparr>rk_PathId = ''pick'', rk_HourBucket = 7200000000000\<rparr>})"
  by (rule projection_counts_exact [OF surjective_pairing]) (simp_all add: coherent_def demo_proj_def)

end
