(* ===== verification/GoJson.thy ===== *)
theory GoJson
  imports Encode
begin

text \<open>
  Decoding JSON into Go structs, as \<open>encoding/json\<close> does and the CloudEvents SDK's
  \<open>DataAs\<close> delegates to: keys match a field name up to case (with the two non-ASCII letters
  that fold to ASCII ones), unknown keys are ignored, a later duplicate overwrites, null leaves
  a plain field alone and clears a pointer or a slice, and a value of the wrong kind
  is an error. Also \<open>cloudevents/types.go\<close>, and a message as the kafka-go reader hands it over.
\<close>

definition sbind :: "err + 'a \<Rightarrow> ('a \<Rightarrow> err + 'b) \<Rightarrow> err + 'b" where
  "sbind r f = (case r of Inl e \<Rightarrow> Inl e | Inr a \<Rightarrow> f a)"

lemma sbind_simps [simp]: "sbind (Inl e) f = Inl e" "sbind (Inr a) f = f a"
  by (simp_all add: sbind_def)

lemma sbind_Inr: "sbind r f = Inr b \<longleftrightarrow> (\<exists>a. r = Inr a \<and> f a = Inr b)"
  by (cases r) auto

fun foldName :: "string \<Rightarrow> string" where
  "foldName (c # d # e # cs) =
     (if c = CHR 0xE2 \<and> d = CHR 0x84 \<and> e = CHR 0xAA then CHR ''K'' # foldName cs
      else if c = CHR 0xC5 \<and> d = CHR 0xBF then CHR ''S'' # foldName (e # cs)
      else ascii_upper c # foldName (d # e # cs))"
| "foldName [c, d] = (if c = CHR 0xC5 \<and> d = CHR 0xBF then ''S'' else [ascii_upper c, ascii_upper d])"
| "foldName [c] = [ascii_upper c]"
| "foldName [] = []"

definition field_values :: "string \<Rightarrow> (string \<times> json) list \<Rightarrow> json list" where
  "field_values name kvs = map snd (filter (\<lambda>kv. foldName (fst kv) = foldName name) kvs)"

definition type_error :: err where
  "type_error = Other ''json: cannot unmarshal value into Go struct field''"

type_synonym 'a decoder = "json \<Rightarrow> 'a \<Rightarrow> err + 'a"

fun dec_string :: "string decoder" where
  "dec_string (JStr s) v = Inr s"
| "dec_string JNull v = Inr v"
| "dec_string _ v = Inl type_error"

fun dec_bool :: "bool decoder" where
  "dec_bool (JBool b) v = Inr b"
| "dec_bool JNull v = Inr v"
| "dec_bool _ v = Inl type_error"

fun dec_int64 :: "int decoder" where
  "dec_int64 (JInt n) v = (if - (2 ^ 63) \<le> n \<and> n < 2 ^ 63 then Inr n else Inl type_error)"
| "dec_int64 JNull v = Inr v"
| "dec_int64 _ v = Inl type_error"

fun dec_float64 :: "f64 decoder" where
  "dec_float64 (JInt n) v = (case f64_of_int n of Fin q \<Rightarrow> Inr (Fin q) | _ \<Rightarrow> Inl type_error)"
| "dec_float64 (JNum x) v = (case x of Fin q \<Rightarrow> Inr (Fin q) | _ \<Rightarrow> Inl type_error)"
| "dec_float64 JNull v = Inr v"
| "dec_float64 _ v = Inl type_error"

text \<open>A pointer field: null is nil; any other value is decoded into the pointed-to cell.\<close>

definition dec_ptr :: "'a \<Rightarrow> 'a decoder \<Rightarrow> 'a option decoder" where
  "dec_ptr zero d j v =
     (if j = JNull then Inr None else map_sum id Some (d j (case v of None \<Rightarrow> zero | Some x \<Rightarrow> x)))"

fun dec_each :: "'a \<Rightarrow> 'a decoder \<Rightarrow> json list \<Rightarrow> err + 'a list" where
  "dec_each zero d [] = Inr []"
| "dec_each zero d (j # js) = sbind (d j zero) (\<lambda>x. map_sum id (\<lambda>xs. x # xs) (dec_each zero d js))"

fun dec_slice :: "'a \<Rightarrow> 'a decoder \<Rightarrow> 'a list decoder" where
  "dec_slice zero d (JArr js) v = dec_each zero d js"
| "dec_slice zero d JNull v = Inr []"
| "dec_slice zero d _ v = Inl type_error"

definition dec_field :: "string \<Rightarrow> 'a decoder \<Rightarrow> (string \<times> json) list \<Rightarrow> 'a \<Rightarrow> err + 'a" where
  "dec_field name d kvs v = fold (\<lambda>j r. sbind r (d j)) (field_values name kvs) (Inr v)"

definition dec_object :: "'a \<Rightarrow> ((string \<times> json) list \<Rightarrow> err + 'a) \<Rightarrow> json \<Rightarrow> err + 'a" where
  "dec_object zero f j = (case j of JObj kvs \<Rightarrow> f kvs | JNull \<Rightarrow> Inr zero | _ \<Rightarrow> Inl type_error)"

section \<open>CloudEvents types consumed\<close>

definition TypeProcessPathCreated :: string where
  "TypeProcessPathCreated = ''com.warehouse.wes.process-path-management.processpath.ProcessPathCreated''"
definition TypeProcessPathUpdated :: string where
  "TypeProcessPathUpdated = ''com.warehouse.wes.process-path-management.processpath.ProcessPathUpdated''"
definition TypeProcessPathDeactivated :: string where
  "TypeProcessPathDeactivated = ''com.warehouse.wes.process-path-management.processpath.ProcessPathDeactivated''"
definition TypeTaskPerformanceRecorded :: string where
  "TypeTaskPerformanceRecorded = ''com.warehouse.wes.labor-performance.performance.TaskPerformanceRecorded''"

lemma consumed_types_distinct:
  "TypeProcessPathDeactivated \<noteq> TypeProcessPathCreated" "TypeProcessPathDeactivated \<noteq> TypeProcessPathUpdated"
  by (simp_all add: TypeProcessPathCreated_def TypeProcessPathUpdated_def TypeProcessPathDeactivated_def)

section \<open>Messages read from the broker\<close>

record InMessage = Message +
  ms_Partition :: int
  ms_Offset :: int

text \<open>What \<open>ReadMessage\<close> returns; an error comes with whether the context was done.\<close>

datatype kread = ReadMsg InMessage | ReadErr err bool

text \<open>A codec given by its table, for concrete runs.\<close>

definition table_sdk :: "(string \<times> ce_event) list \<Rightarrow> sdk" where
  "table_sdk tbl = \<lparr>sdk_validate = (\<lambda>_. None), sdk_marshal = (\<lambda>_. Inl (Other ''no codec'')),
     sdk_unmarshal = (\<lambda>v. case map_of tbl v of None \<Rightarrow> Inl (Other ''invalid JSON'') | Some e \<Rightarrow> Inr e)\<rparr>"

definition demo_event :: "string \<Rightarrow> string \<Rightarrow> json \<Rightarrow> ce_event" where
  "demo_event i ty data = \<lparr>ce_specversion = ''1.0'', ce_id = i, ce_source = ''/warehouse/demo'', ce_type = ty,
     ce_subject = ''s'', ce_time = 0, ce_dataschema = '''', ce_datacontenttype = ''application/json'', ce_data = data\<rparr>"

definition demo_message :: "int \<Rightarrow> int \<Rightarrow> string \<Rightarrow> InMessage" where
  "demo_message p off value = \<lparr>ms_Topic = ''t'', ms_Key = '''', ms_Value = value, ms_Headers = [],
     ms_Partition = p, ms_Offset = off\<rparr>"

end
