(* ===== verification/Replay.thy ===== *)
theory Replay
  imports GoJson Ports
begin

text \<open>
  What the two full-replay caches (\<open>kafkacatalog\<close>, \<open>laborperformancecache\<close>) share: the admin
  calls that fix the readiness target, and the contract of a readiness gate. The Go packages
  are copies of each other; their models are too, and both interpret \<open>replay_gate\<close>.
\<close>

text \<open>The kafka-go admin connection, as the code calls it.\<close>

record kafka_admin =
  ka_Dial :: "string \<Rightarrow> err + unit"
  ka_ReadPartitions :: "string \<Rightarrow> err + int list"
  ka_DialLeader :: "string \<Rightarrow> string \<Rightarrow> int \<Rightarrow> err + unit"
  ka_ReadOffsets :: "string \<Rightarrow> int \<Rightarrow> err + int \<times> int"
  ka_Close :: "string \<Rightarrow> int \<Rightarrow> err + unit"

text \<open>The reader configuration the caches ask for; \<open>FirstOffset\<close> is the topic's earliest message.\<close>

datatype start_offset = FirstOffset | LastOffset

record ReaderConfig =
  rd_Brokers :: "string list"
  rd_Topic :: string
  rd_GroupID :: string
  rd_StartOffset :: start_offset
  rd_CommitInterval :: duration

type_synonym targetOffsets = "(int, int) gmap"

text \<open>A message that reaches the target \<open>t\<close> of its partition.\<close>

definition reaches :: "int \<Rightarrow> int \<Rightarrow> InMessage \<Rightarrow> bool" where
  "reaches p t m \<longleftrightarrow> ms_Partition m = p \<and> t \<le> ms_Offset m + 1"

locale replay_gate =
  fixes ready :: "'c \<Rightarrow> bool" and closes :: "'c \<Rightarrow> nat" and target :: "'c \<Rightarrow> targetOffsets"
    and step :: "InMessage \<Rightarrow> 'c \<Rightarrow> 'c"
  assumes step_quiet: "ready c \<or> (\<forall>t. map_of (target c) (ms_Partition m) = Some t \<longrightarrow> \<not> reaches (ms_Partition m) t m) \<Longrightarrow>
      ready (step m c) = ready c \<and> closes (step m c) = closes c \<and> target (step m c) = target c"
    and step_reach: "\<not> ready c \<Longrightarrow> map_of (target c) (ms_Partition m) = Some t \<Longrightarrow> reaches (ms_Partition m) t m \<Longrightarrow>
      target (step m c) = gdelete (ms_Partition m) (target c)
      \<and> ready (step m c) = (gdelete (ms_Partition m) (target c) = [])
      \<and> closes (step m c) = closes c + (if ready (step m c) then 1 else 0)"
begin

definition gate_ok :: "'c \<Rightarrow> bool" where
  "gate_ok c \<longleftrightarrow> gwf (target c) \<and> closes c = (if ready c then 1 else 0) \<and> (\<not> ready c \<longrightarrow> target c \<noteq> [])"

text \<open>The ready channel is closed exactly when the gate opens, hence never twice.\<close>

lemma step_ok: "gate_ok c \<Longrightarrow> gate_ok (step m c)"
proof -
  assume g: "gate_ok c"
  show ?thesis
  proof (cases "ready c \<or> (\<forall>t. map_of (target c) (ms_Partition m) = Some t \<longrightarrow> \<not> reaches (ms_Partition m) t m)")
    case True
    then show ?thesis using step_quiet [OF True] g by (simp add: gate_ok_def)
  next
    case False
    then obtain t where "map_of (target c) (ms_Partition m) = Some t" "reaches (ms_Partition m) t m" "\<not> ready c" by blast
    then show ?thesis using step_reach [of c m t] g by (simp add: gate_ok_def)
  qed
qed

lemma target_ex: "gate_ok c \<Longrightarrow> \<not> ready c \<Longrightarrow> \<exists>p t. map_of (target c) p = Some t"
  by (cases "target c") (auto simp: gate_ok_def intro: exI)

lemma run_ok: "gate_ok c \<Longrightarrow> gate_ok (fold step ms c)"
  by (induction ms arbitrary: c) (auto intro: step_ok)

lemma step_ready:
  assumes "gate_ok c"
  shows "ready (step m c) \<or> (target (step m c) \<noteq> [] \<and> \<not> ready c
    \<and> (\<forall>p t. map_of (target (step m c)) p = Some t \<longleftrightarrow> map_of (target c) p = Some t \<and> \<not> reaches p t m))"
proof (cases "ready c \<or> (\<forall>t. map_of (target c) (ms_Partition m) = Some t \<longrightarrow> \<not> reaches (ms_Partition m) t m)")
  case True
  then show ?thesis using step_quiet [OF True] assms by (auto simp: gate_ok_def reaches_def)
next
  case False
  then obtain t where t: "map_of (target c) (ms_Partition m) = Some t" "reaches (ms_Partition m) t m" "\<not> ready c" by blast
  show ?thesis using step_reach [OF t(3,1,2)] t by (auto simp: reaches_def split: if_splits)
qed

lemma ready_stays: "ready c \<Longrightarrow> ready (fold step ms c)"
  by (induction ms arbitrary: c) (simp_all add: step_quiet)

lemma step_ready_iff:
  assumes "gate_ok c" "\<not> ready c"
  shows "ready (step m c) \<longleftrightarrow> (\<forall>p t. map_of (target c) p = Some t \<longrightarrow> reaches p t m)"
proof (cases "\<exists>t. map_of (target c) (ms_Partition m) = Some t \<and> reaches (ms_Partition m) t m")
  case True
  then obtain t where t: "map_of (target c) (ms_Partition m) = Some t" "reaches (ms_Partition m) t m" by blast
  have "xs = [] \<longleftrightarrow> map_of xs = Map.empty" for xs :: "(int, int) gmap" by (cases xs) (auto simp: fun_eq_iff)
  note emp = this
  have e: "ready (step m c) \<longleftrightarrow> map_of (gdelete (ms_Partition m) (target c)) = Map.empty"
    by (rule trans [OF step_reach [OF assms(2) t, THEN conjunct2, THEN conjunct1] emp])
  have "map_of (gdelete (ms_Partition m) (target c)) = Map.empty \<longleftrightarrow>
      (\<forall>q. q \<noteq> ms_Partition m \<longrightarrow> map_of (target c) q = None)"
    unfolding map_of_gdelete fun_eq_iff by simp
  also have "\<dots> \<longleftrightarrow> (\<forall>q t. map_of (target c) q = Some t \<longrightarrow> reaches q t m)"
    using t by (metis option.exhaust option.inject reaches_def option.distinct(1))
  finally show ?thesis using e by simp
next
  case False
  obtain p t where pt: "map_of (target c) p = Some t"
    using target_ex [OF assms] by blast
  show ?thesis using step_quiet [of c m] False assms(2) pt by (auto simp: reaches_def)
qed

theorem ready_iff:
  assumes "gate_ok c"
  shows "ready (fold step ms c) \<longleftrightarrow>
    ready c \<or> (\<forall>p t. map_of (target c) p = Some t \<longrightarrow> (\<exists>m \<in> set ms. reaches p t m))"
  using assms
proof (induction ms arbitrary: c)
  case Nil
  then show ?case using target_ex [OF Nil] by fastforce
next
  case (Cons m ms)
  show ?case
  proof (cases "ready c \<or> ready (step m c)")
    case True
    then have "ready (step m c)" using step_quiet [of c m] by auto
    then have "ready (fold step (m # ms) c)" using ready_stays by simp
    moreover have "ready c \<or> (\<forall>p t. map_of (target c) p = Some t \<longrightarrow> (\<exists>m \<in> set (m # ms). reaches p t m))"
      using True step_ready_iff [OF Cons.prems, of m] by auto
    ultimately show ?thesis by blast
  next
    case False
    then show ?thesis using Cons.IH [OF step_ok [OF Cons.prems], of m] step_ready [OF Cons.prems, of m] by auto
  qed
qed

text \<open>
  Readers get each partition's messages in the order of the log from its first offset on. Once
  the gate is open, every message that the log held below the target has been read.
\<close>

lemma ready_complete:
  assumes "gate_ok c" "\<not> ready c" "ready (fold step ms c)" "set ms \<subseteq> set topic_log"
    and order: "\<And>m m'. m \<in> set ms \<Longrightarrow> m' \<in> set topic_log \<Longrightarrow> ms_Partition m' = ms_Partition m \<Longrightarrow>
      ms_Offset m' \<le> ms_Offset m \<Longrightarrow> m' \<in> set ms"
    and "m' \<in> set topic_log" "map_of (target c) (ms_Partition m') = Some t" "ms_Offset m' < t"
  shows "m' \<in> set ms"
proof -
  obtain m where "m \<in> set ms" "reaches (ms_Partition m') t m"
    using ready_iff [OF assms(1)] assms(2,3,7) by blast
  then show ?thesis using order [of m m'] assms(6,8) by (auto simp: reaches_def)
qed

end


section \<open>What the construction establishes\<close>

text \<open>Reading every partition's bounds, for either cache: the target holds the non-empty ones.\<close>

locale offset_scan =
  fixes step :: "kafka_admin \<Rightarrow> string \<Rightarrow> string \<Rightarrow> int \<Rightarrow> targetOffsets \<Rightarrow> err + targetOffsets"
    and loop :: "kafka_admin \<Rightarrow> string \<Rightarrow> string \<Rightarrow> int list \<Rightarrow> targetOffsets \<Rightarrow> err + targetOffsets"
    and scan :: "kafka_admin \<Rightarrow> string list \<Rightarrow> string \<Rightarrow> err + targetOffsets"
  assumes step_Inr: "step a b t p out = Inr out' \<Longrightarrow>
      \<exists>b. ka_ReadOffsets a t p = Inr b \<and> out' = (if fst b < snd b then gput p (snd b) out else out)"
    and loop_Nil: "loop a b t [] out = Inr out"
    and loop_Cons: "loop a b t (p # ps) out = sbind (step a b t p out) (loop a b t ps)"
    and scan_Inr: "scan a brokers t = Inr tgt \<Longrightarrow>
      \<exists>b ps. ka_ReadPartitions a t = Inr ps \<and> loop a b t ps [] = Inr tgt"
begin

lemma loop_gwf: "loop a b t ps out = Inr tgt \<Longrightarrow> gwf out \<Longrightarrow> gwf tgt"
proof (induction ps arbitrary: out)
  case (Cons p ps)
  from Cons.prems obtain out' where o: "step a b t p out = Inr out'" "loop a b t ps out' = Inr tgt"
    by (auto simp: loop_Cons sbind_Inr)
  have "gwf out'" using step_Inr [OF o(1)] Cons.prems(2) by (auto split: if_splits)
  then show ?case by (rule Cons.IH [OF o(2)])
qed (simp add: loop_Nil)

lemma loop_target:
  "loop a b t ps out = Inr tgt \<Longrightarrow> map_of tgt q = Some hi \<longleftrightarrow>
     (if q \<in> set ps \<and> (\<exists>lo hi. ka_ReadOffsets a t q = Inr (lo, hi) \<and> lo < hi)
      then \<exists>lo. ka_ReadOffsets a t q = Inr (lo, hi) \<and> lo < hi else map_of out q = Some hi)"
proof (induction ps arbitrary: out)
  case (Cons p ps)
  from Cons.prems obtain out' where o: "step a b t p out = Inr out'" "loop a b t ps out' = Inr tgt"
    by (auto simp: loop_Cons sbind_Inr)
  obtain lo h where s: "ka_ReadOffsets a t p = Inr (lo, h)" "out' = (if lo < h then gput p h out else out)"
    using step_Inr [OF o(1)] by (metis prod.collapse)
  show ?case using Cons.IH [OF o(2)] s by auto
qed (simp add: loop_Nil)

lemma scan_target:
  assumes "scan a brokers t = Inr tgt"
  shows "gwf tgt \<and> (\<forall>ps p hi. ka_ReadPartitions a t = Inr ps \<longrightarrow> map_of tgt p = Some hi \<longleftrightarrow>
    p \<in> set ps \<and> (\<exists>lo. ka_ReadOffsets a t p = Inr (lo, hi) \<and> lo < hi))"
proof -
  obtain b ps where b: "ka_ReadPartitions a t = Inr ps" "loop a b t ps [] = Inr tgt"
    using scan_Inr [OF assms] by blast
  have "map_of tgt p = Some hi \<longleftrightarrow> p \<in> set ps \<and> (\<exists>lo. ka_ReadOffsets a t p = Inr (lo, hi) \<and> lo < hi)" for p hi
    using loop_target [OF b(2), of p hi] by (auto split: if_splits)
  then show ?thesis using loop_gwf [OF b(2)] b(1) by simp
qed

end

text \<open>A consumer group's name determines the process that made it.\<close>

definition dval :: "string \<Rightarrow> nat" where
  "dval = foldl (\<lambda>v c. 10 * v + (of_char c - 48)) 0"

lemma dval_snoc [simp]: "dval (s @ [c]) = 10 * dval s + (of_char c - 48)"
  by (simp add: dval_def)

lemma dval_digits [simp]: "dval (digits n) = n"
proof (induction n rule: digits.induct)
  case (1 n)
  have e: "n < 10 \<Longrightarrow> dval [char_of (48 + n)] = n"
    using dval_snoc [of "[]" "char_of (48 + n)"] by (simp add: dval_def)
  show ?case
  proof (cases "n < 10")
    case True
    then show ?thesis using e by (simp add: digits.simps [of n])
  next
    case False
    then have "dval (digits n) = 10 * dval (digits (n div 10)) + n mod 10"
      by (simp add: digits.simps [of n])
    then show ?thesis using 1 False by simp
  qed
qed

lemma digits_chars: "c \<in> set (digits n) \<Longrightarrow> 48 \<le> (of_char c :: nat) \<and> (of_char c :: nat) < 58"
proof (induction n rule: digits.induct)
  case (1 n)
  show ?case
  proof (cases "n < 10")
    case True
    then show ?thesis using 1 by (simp add: digits.simps [of n])
  next
    case False
    then have "c \<in> set (digits (n div 10)) \<or> c = char_of (48 + n mod 10)"
      using 1(2) by (auto simp: digits.simps [of n])
    then show ?thesis using 1(1) False by auto
  qed
qed

lemma print_int_inj: "0 \<le> m \<Longrightarrow> 0 \<le> n \<Longrightarrow> print_int m = print_int n \<Longrightarrow> m = n"
proof -
  assume a: "0 \<le> m" "0 \<le> n" "print_int m = print_int n"
  then have "digits (nat m) = digits (nat n)" by (simp add: print_int_def)
  then have "nat m = nat n" by (metis dval_digits)
  then show "m = n" using a by simp
qed

lemma dash_notin_print_int: "0 \<le> n \<Longrightarrow> CHR ''-'' \<notin> set (print_int n)"
  using digits_chars [of "CHR ''-''" "nat n"] by (auto simp: print_int_def)

lemma split_first:
  "xs @ c # ys = xs' @ c # ys' \<Longrightarrow> c \<notin> set xs \<Longrightarrow> c \<notin> set xs' \<Longrightarrow> xs = xs' \<and> ys = ys'"
proof (induction xs arbitrary: xs')
  case Nil
  then show ?case by (cases xs') auto
next
  case (Cons x xs)
  then show ?case by (cases xs') auto
qed

lemma split_last_dash:
  assumes "u @ ''-'' @ v = u' @ ''-'' @ v'" "CHR ''-'' \<notin> set v" "CHR ''-'' \<notin> set v'"
  shows "u = u' \<and> v = v'"
proof -
  have "rev v @ CHR ''-'' # rev u = rev v' @ CHR ''-'' # rev u'"
    using arg_cong [OF assms(1), of rev] by simp
  then have "rev v = rev v' \<and> rev u = rev u'"
    using assms(2,3) by (intro split_first) auto
  then show ?thesis by simp
qed

lemma group_name_inj:
  assumes "h @ ''-'' @ print_int p @ ''-'' @ print_int n = h' @ ''-'' @ print_int p' @ ''-'' @ print_int n'"
    and "0 \<le> p" "0 \<le> n" "0 \<le> p'" "0 \<le> n'"
  shows "h = h' \<and> p = p' \<and> n = n'"
proof -
  have "(h @ ''-'' @ print_int p) @ ''-'' @ print_int n = (h' @ ''-'' @ print_int p') @ ''-'' @ print_int n'"
    using assms(1) by simp
  from split_last_dash [OF this] have "h @ ''-'' @ print_int p = h' @ ''-'' @ print_int p'" "print_int n = print_int n'"
    using dash_notin_print_int assms(3,5) by auto
  then show ?thesis using split_last_dash [of h "print_int p" h' "print_int p'"] dash_notin_print_int print_int_inj assms(2-)
    by metis
qed


text \<open>A broker given by its partitions' bounds, for concrete runs.\<close>

definition demo_admin :: "(int \<times> int \<times> int) list \<Rightarrow> kafka_admin" where
  "demo_admin bounds = \<lparr>ka_Dial = (\<lambda>_. Inr ()), ka_ReadPartitions = (\<lambda>_. Inr (map fst bounds)),
     ka_DialLeader = (\<lambda>_ _ _. Inr ()),
     ka_ReadOffsets = (\<lambda>_ p. case map_of bounds p of None \<Rightarrow> Inl (Other ''unknown partition'') | Some b \<Rightarrow> Inr b),
     ka_Close = (\<lambda>_ _. Inr ())\<rparr>"

end
