(* ===== verification/Resilience.thy ===== *)
theory Resilience
  imports GoJson Ports
begin

text \<open>
  \<open>internal/resilience\<close> (when a breaker trips, what it reports, how much time a call gets) and
  \<open>adapters/outbound/bootretry\<close>. gobreaker itself is a parameter elsewhere; here is the policy it
  is configured with. Its counters are \<open>uint32\<close>.
\<close>

section \<open>The breaker policy\<close>

record Counts =
  ct_Requests :: int
  ct_TotalSuccesses :: int
  ct_TotalFailures :: int
  ct_ConsecutiveSuccesses :: int
  ct_ConsecutiveFailures :: int

definition minRequestVolumeForErrorRate :: int where
  "minRequestVolumeForErrorRate = 10"

definition ReadyToTrip :: "Counts \<Rightarrow> bool" where
  "ReadyToTrip counts =
     (if ct_ConsecutiveFailures counts \<ge> 5 then True
      else if ct_Requests counts < minRequestVolumeForErrorRate then False
      else let failureRate = fdiv (f64_of_int (ct_TotalFailures counts)) (f64_of_int (ct_Requests counts))
           in flt (Fin (1 / 2)) failureRate)"

datatype breaker_state = StateClosed | StateHalfOpen | StateOpen

fun state_num :: "breaker_state \<Rightarrow> int" where
  "state_num StateClosed = 0"
| "state_num StateHalfOpen = 1"
| "state_num StateOpen = 2"

type_synonym 's recorder = "string \<Rightarrow> int \<Rightarrow> 's \<Rightarrow> 's"

definition RecordStateChange ::
  "string \<Rightarrow> 's recorder option \<Rightarrow> string \<Rightarrow> breaker_state \<Rightarrow> breaker_state \<Rightarrow> 's \<Rightarrow> 's" where
  "RecordStateChange dependency recorder name from_state to_state s =
     (case recorder of None \<Rightarrow> s | Some setState \<Rightarrow> setState dependency (state_num to_state) s)"

record 's breaker_settings =
  bs_Name :: string
  bs_MaxRequests :: int
  bs_Interval :: duration
  bs_Timeout :: duration
  bs_ReadyToTrip :: "Counts \<Rightarrow> bool"
  bs_IsExcluded :: "err \<Rightarrow> bool"
  bs_OnStateChange :: "string \<Rightarrow> breaker_state \<Rightarrow> breaker_state \<Rightarrow> 's \<Rightarrow> 's"

definition DefaultMaxRequests :: int where "DefaultMaxRequests = 1"
definition DefaultInterval :: duration where "DefaultInterval = 30 * second_ns"
definition DefaultBreakerTimeout :: duration where "DefaultBreakerTimeout = 30 * second_ns"

section \<open>The time a call gets\<close>

text \<open>
  A context is its deadline, if it has one. \<open>WithTimeout\<close> keeps the parent's deadline when
  that is sooner.
\<close>

type_synonym deadline = "time option"

definition WithTimeout :: "time \<Rightarrow> deadline \<Rightarrow> duration \<Rightarrow> deadline" where
  "WithTimeout now ctx d = (case ctx of Some t \<Rightarrow> Some (min t (now + d)) | None \<Rightarrow> Some (now + d))"

definition CallTimeout :: "time \<Rightarrow> deadline \<Rightarrow> duration \<Rightarrow> deadline" where
  "CallTimeout now ctx maxPerCall =
     (case ctx of
        Some deadline \<Rightarrow>
          let remaining = time_Sub deadline now in
          if remaining \<le> maxPerCall then ctx else WithTimeout now ctx maxPerCall
      | None \<Rightarrow> WithTimeout now ctx maxPerCall)"

lemma CallTimeout_cap:
  "0 \<le> d \<Longrightarrow> d < 2 ^ 63 - 1 \<Longrightarrow> CallTimeout now ctx d = Some (case ctx of Some t \<Rightarrow> min t (now + d) | None \<Rightarrow> now + d)"
  by (auto simp: CallTimeout_def WithTimeout_def time_Sub_def Let_def min_def max_def split: option.split if_splits)

section \<open>Retrying at boot\<close>

definition Retries :: int where "Retries = 5"
definition retry_Delay :: duration where "retry_Delay = second_ns"

text \<open>
  \<open>wait d\<close> is the \<open>select\<close> between the context and a timer of \<open>d\<close>: the context's error, or
  nothing when the timer fires.
\<close>

function retry_loop :: "string \<Rightarrow> ('s, unit) op \<Rightarrow> (duration \<Rightarrow> ('s, unit) op) \<Rightarrow> int \<Rightarrow> duration \<Rightarrow> ('s, unit) op" where
  "retry_loop what opn wait attempt delay s =
     (case opn s of
        (Inr _, s) \<Rightarrow> (Inr (), s)
      | (Inl e, s) \<Rightarrow>
          if attempt \<ge> Retries
          then (Inl (Wrap (what @ '' (after '' @ print_int Retries @ '' attempts)'') e), s)
          else case wait delay s of
              (Inl ce, s) \<Rightarrow> (Inl (Wrap what ce), s)
            | (Inr _, s) \<Rightarrow> retry_loop what opn wait (attempt + 1) (delay * 2) s)"
  by pat_completeness auto
termination by (relation "measure (\<lambda>(_, _, _, attempt, _, _). nat (Retries - attempt))") auto

definition RetryWithDelay ::
  "string \<Rightarrow> duration \<Rightarrow> ('s, unit) op \<Rightarrow> (duration \<Rightarrow> ('s, unit) op) \<Rightarrow> ('s, unit) op" where
  "RetryWithDelay what base opn wait = retry_loop what opn wait 1 base"

definition Retry :: "string \<Rightarrow> ('s, unit) op \<Rightarrow> (duration \<Rightarrow> ('s, unit) op) \<Rightarrow> ('s, unit) op" where
  "Retry what opn wait = RetryWithDelay what retry_Delay opn wait"

declare retry_loop.simps [simp del]

section \<open>Properties\<close>

lemma rnd_half: "rnd (1 / 2) = 1 / 2"
  by code_simp

lemma rnd_above_half: "1 / 2 < rnd (1 / 2 + 1 / 2 ^ 33)"
  by code_simp

lemma half_flround: "0 \<le> x \<Longrightarrow> x \<le> 1 \<Longrightarrow> flt (Fin (1 / 2)) (flround x) \<longleftrightarrow> 1 / 2 < rnd x"
proof -
  assume x: "0 \<le> x" "x \<le> 1"
  have "0 \<le> rnd x" "rnd x \<le> 1" using rnd_nonneg [OF x(1)] rnd_le_small [of x 1] x(2) by auto
  then have "flround x = Fin (rnd x)" by (intro flround_small) auto
  then show ?thesis by simp
qed

text \<open>
  A breaker trips exactly on five consecutive failures, or when, of at least ten requests of
  the window, more than half failed: rounding the quotient never blurs the half.
\<close>

theorem ReadyToTrip_exact:
  assumes "0 \<le> ct_TotalFailures c" "ct_TotalFailures c \<le> ct_Requests c" "ct_Requests c < 2 ^ 32"
  shows "ReadyToTrip c \<longleftrightarrow> 5 \<le> ct_ConsecutiveFailures c
    \<or> (10 \<le> ct_Requests c \<and> ct_Requests c < 2 * ct_TotalFailures c)"
proof (cases "10 \<le> ct_Requests c")
  case True
  let ?f = "ct_TotalFailures c" and ?n = "ct_Requests c"
  let ?q = "of_int ?f / of_int ?n :: rat"
  have n: "(0 :: rat) < of_int ?n" using True by simp
  have q: "0 \<le> ?q" "?q \<le> 1" using assms(1,2) True by (auto simp: divide_le_eq)
  have fl: "f64_of_int ?f = Fin (of_int ?f)" "f64_of_int ?n = Fin (of_int ?n)"
    using assms True by (auto intro!: f64_of_int_small)
  have e: "ReadyToTrip c \<longleftrightarrow> 5 \<le> ct_ConsecutiveFailures c \<or> 1 / 2 < rnd ?q"
    using True half_flround [OF q] by (simp add: ReadyToTrip_def minRequestVolumeForErrorRate_def fl)
  have "1 / 2 < rnd ?q \<longleftrightarrow> ?n < 2 * ?f"
  proof
    assume "?n < 2 * ?f"
    then have "of_int ?n + 1 \<le> (2 * of_int ?f :: rat)" by linarith
    then have "(of_int ?n + 1) / (2 * of_int ?n) \<le> (2 * of_int ?f) / (2 * of_int ?n :: rat)"
      using n by (intro divide_right_mono) auto
    moreover have "1 / 2 + 1 / (2 * of_int ?n) = (of_int ?n + 1) / (2 * of_int ?n :: rat)"
      using n by (simp add: field_simps)
    ultimately have "1 / 2 + 1 / (2 * of_int ?n) \<le> ?q" by simp
    moreover have "(1 :: rat) / 2 ^ 33 \<le> 1 / (2 * of_int ?n)"
      using n assms(3) by (intro divide_left_mono) auto
    ultimately have "1 / 2 + 1 / 2 ^ 33 \<le> ?q" by linarith
    then have "rnd (1 / 2 + 1 / 2 ^ 33) \<le> rnd ?q" by (rule rnd_mono)
    then show "1 / 2 < rnd ?q" using rnd_above_half by (rule less_le_trans [rotated])
  next
    assume a: "1 / 2 < rnd ?q"
    show "?n < 2 * ?f"
    proof (rule ccontr)
      assume "\<not> ?n < 2 * ?f"
      then have "(2 * of_int ?f :: rat) \<le> of_int ?n" by linarith
      then have "?q \<le> 1 / 2" using n by (simp add: field_simps)
      then have "rnd ?q \<le> 1 / 2" using rnd_mono [of ?q "1 / 2"] rnd_half by simp
      then show False using a by simp
    qed
  qed
  then show ?thesis using e True by simp
qed (simp add: ReadyToTrip_def minRequestVolumeForErrorRate_def)

text \<open>A script of outcomes and the delays slept so far.\<close>

type_synonym script = "err option list \<times> duration list"

definition scripted :: "(script, unit) op" where
  "scripted = (\<lambda>(outs, slept). case outs of
     [] \<Rightarrow> (Inr (), (outs, slept))
   | None # outs \<Rightarrow> (Inr (), (outs, slept))
   | Some e # outs \<Rightarrow> (Inl e, (outs, slept)))"

definition timer :: "duration \<Rightarrow> (script, unit) op" where
  "timer d = (\<lambda>(outs, slept). (Inr (), (outs, slept @ [d])))"

text \<open>
  C38: with no cancellation the first success within five attempts ends the retry, having slept
  1, 2, 4, ... times the base between attempts; five failures make it fail with the last
  error, after 15 times the base in all (the package comment counts the fifth delay, 31).
\<close>

theorem retry_outcome:
  assumes "length (takeWhile (\<lambda>x. x \<noteq> None) outs) = n" "length outs \<ge> 5"
  shows "RetryWithDelay what base scripted timer (outs, []) =
    (if n < 5 then (Inr (), (drop (n + 1) outs, take n [base, 2 * base, 4 * base, 8 * base]))
     else (Inl (Wrap (what @ '' (after '' @ print_int 5 @ '' attempts)'') (the (outs ! 4))),
           (drop 5 outs, [base, 2 * base, 4 * base, 8 * base])))
    \<and> sum_list [base, 2 * base, 4 * base, 8 * base] = 15 * base"
proof -
  obtain a b c d e rest where o: "outs = a # b # c # d # e # rest"
    using assms(2) by (auto simp: numeral_eq_Suc Suc_le_length_iff)
  show ?thesis using assms(1) [symmetric] unfolding o RetryWithDelay_def
    by (cases a; cases b; cases c; cases d; cases e)
      (simp_all add: retry_loop.simps [of what] scripted_def timer_def Retries_def numeral_eq_Suc)
qed

theorem retry_outcome_witness:
  "snd (RetryWithDelay ''dial'' 1 scripted timer (replicate 6 (Some (Other ''reset'')), [])) = ([Some (Other ''reset'')], [1, 2, 4, 8])"
  using retry_outcome [of "replicate 6 (Some (Other ''reset''))" 6 "''dial''" 1]
  by (simp add: numeral_eq_Suc)

section \<open>backoff\<close>

text \<open>
  The retry loop of the \<open>backoff\<close> module is a parameter. Its policy here: first and largest
  interval, number of retries. What it documents: at most that many retries after the first
  attempt, no attempt after a success, and the last error, or the context's, when it gives up.
\<close>

record backoff_policy =
  bo_InitialInterval :: duration
  bo_MaxInterval :: duration
  bo_MaxRetries :: int

type_synonym ('s, 'a) backoff = "backoff_policy \<Rightarrow> deadline \<Rightarrow> ('s, 'a) op \<Rightarrow> ('s, 'a) op"

inductive tries :: "('s, 'a) op \<Rightarrow> nat \<Rightarrow> 's \<Rightarrow> err + 'a \<Rightarrow> 's \<Rightarrow> bool" for opn where
  success: "opn s = (Inr a, s') \<Longrightarrow> tries opn n s (Inr a) s'"
| give_up: "opn s = (Inl e, s') \<Longrightarrow> e' = e \<or> e' = Sentinel ContextCanceled \<or> e' = Sentinel DeadlineExceeded
    \<Longrightarrow> tries opn n s (Inl e') s'"
| again: "opn s = (Inl e, s1) \<Longrightarrow> tries opn n s1 r s' \<Longrightarrow> tries opn (Suc n) s r s'"

definition retry_ok :: "('s, 'a) backoff \<Rightarrow> bool" where
  "retry_ok retry \<longleftrightarrow>
     (\<forall>pol ctx opn s. tries opn (nat (bo_MaxRetries pol)) s (fst (retry pol ctx opn s)) (snd (retry pol ctx opn s)))"

lemma retry_okD: "retry_ok retry \<Longrightarrow> retry pol ctx opn s = (r, s') \<Longrightarrow> tries opn (nat (bo_MaxRetries pol)) s r s'"
  unfolding retry_ok_def by (metis fst_conv snd_conv)

text \<open>Whatever every attempt keeps, the whole retry keeps; and its success is an attempt's.\<close>

lemma tries_inv:
  assumes "tries opn n s r s'" "I s"
    and "\<And>s e s'. I s \<Longrightarrow> opn s = (Inl e, s') \<Longrightarrow> I s'"
  shows "\<exists>s0 r0. I s0 \<and> opn s0 = (r0, s') \<and> (case r of Inr a \<Rightarrow> r0 = Inr a | Inl _ \<Rightarrow> \<exists>e. r0 = Inl e)"
  using assms(1,2)
proof induction
  case (success s a s' n)
  then show ?case by auto
next
  case (give_up s e s' e' n)
  then show ?case by auto
next
  case (again s e s1 n r s')
  then show ?case using assms(3) by blast
qed

text \<open>The loop without its clock, for concrete runs.\<close>

fun retrying :: "nat \<Rightarrow> ('s, 'a) op \<Rightarrow> ('s, 'a) op" where
  "retrying 0 opn s = opn s"
| "retrying (Suc n) opn s = (case opn s of (Inl e, s) \<Rightarrow> retrying n opn s | (Inr a, s) \<Rightarrow> (Inr a, s))"

definition plain_backoff :: "('s, 'a) backoff" where
  "plain_backoff pol ctx opn = retrying (nat (bo_MaxRetries pol)) opn"

lemma retrying_tries: "tries opn n s (fst (retrying n opn s)) (snd (retrying n opn s))"
proof (induction n arbitrary: s)
  case 0
  obtain r s' where "opn s = (r, s')" by fastforce
  then show ?case by (cases r) (auto intro: tries.intros)
next
  case (Suc n)
  obtain r s' where "opn s = (r, s')" by fastforce
  then show ?case using Suc [of s'] by (cases r) (auto intro: tries.intros)
qed

lemma plain_backoff_ok: "retry_ok plain_backoff"
  by (simp add: retry_ok_def plain_backoff_def retrying_tries)

end
