(* ===== verification/Projector.thy ===== *)
theory Projector
  imports AnalyticsStore Replay Resilience
begin

text \<open>
  \<open>adapters/inbound/kafka/analytics_consumer.go\<close>: the projector's consumer, over an arbitrary
  projection store, dedupe table and Kafka reader and writer, and the composition of
  \<open>cmd/workforce-projector\<close>. The texts of the dead-letter headers (an error's text, the formatted
  clock) are parameters; spans and logs are not modelled.
\<close>

section \<open>Decoding\<close>

definition TypeAssociateShiftStarted :: string where
  "TypeAssociateShiftStarted = ''com.warehouse.wes.workforce-management.associate.AssociateShiftStarted''"
definition TypeAssociateShiftEnded :: string where
  "TypeAssociateShiftEnded = ''com.warehouse.wes.workforce-management.associate.AssociateShiftEnded''"
definition TypeAssociateBreakStarted :: string where
  "TypeAssociateBreakStarted = ''com.warehouse.wes.workforce-management.associate.AssociateBreakStarted''"
definition TypeAssociateBreakEnded :: string where
  "TypeAssociateBreakEnded = ''com.warehouse.wes.workforce-management.associate.AssociateBreakEnded''"
definition TypeAssociateCertified :: string where
  "TypeAssociateCertified = ''com.warehouse.wes.workforce-management.associate.AssociateCertified''"
definition TypeLaborAssigned :: string where
  "TypeLaborAssigned = ''com.warehouse.wes.workforce-management.assignment.LaborAssigned''"
definition TypeLaborReassigned :: string where
  "TypeLaborReassigned = ''com.warehouse.wes.workforce-management.assignment.LaborReassigned''"
definition TypePathUnderstaffed :: string where
  "TypePathUnderstaffed = ''com.warehouse.wes.workforce-management.shiftplan.PathUnderstaffed''"

lemmas projecting_types = TypeAssociateShiftStarted_def TypeAssociateShiftEnded_def TypeAssociateBreakStarted_def
  TypeAssociateBreakEnded_def TypeAssociateCertified_def TypeLaborAssigned_def TypeLaborReassigned_def
  TypePathUnderstaffed_def

record analyticsData =
  aa_AssociateId :: string
  aa_PathId :: string
  aa_ToPathId :: string

record consumedEvent =
  ae_ID :: string
  ae_Type :: string
  ae_Time :: time
  ae_Data :: analyticsData

definition no_data :: analyticsData where
  "no_data = \<lparr>aa_AssociateId = '''', aa_PathId = '''', aa_ToPathId = ''''\<rparr>"

definition isProjectingEventType :: "string \<Rightarrow> bool" where
  "isProjectingEventType eventType \<longleftrightarrow> eventType \<in>
     {TypeAssociateShiftStarted, TypeAssociateShiftEnded, TypeAssociateBreakStarted, TypeAssociateBreakEnded,
      TypeAssociateCertified, TypeLaborAssigned, TypeLaborReassigned, TypePathUnderstaffed}"

definition decode_analyticsData :: "json \<Rightarrow> err + analyticsData" where
  "decode_analyticsData =
     dec_object no_data (\<lambda>kvs.
     sbind (dec_field ''associate_id'' dec_string kvs '''') (\<lambda>a.
     sbind (dec_field ''path_id'' dec_string kvs '''') (\<lambda>p.
     sbind (dec_field ''to_path_id'' dec_string kvs '''') (\<lambda>t.
     Inr \<lparr>aa_AssociateId = a, aa_PathId = p, aa_ToPathId = t\<rparr>))))"

definition decodeAnalyticsEvent :: "sdk \<Rightarrow> string \<Rightarrow> err + consumedEvent" where
  "decodeAnalyticsEvent k raw =
     (case ce_Decode k raw of
        Inl e \<Rightarrow> Inl (Wrap ''analytics: decode event'' e)
      | Inr e \<Rightarrow>
          let out = \<lparr>ae_ID = ce_id e, ae_Type = ce_type e, ae_Time = ce_time e, ae_Data = no_data\<rparr> in
          if \<not> isProjectingEventType (ae_Type out) then Inr out
          else (case decode_analyticsData (ce_data e) of
              Inl err \<Rightarrow> Inl (Wrap (''analytics: decode '' @ ae_Type out @ '' data'') err)
            | Inr d \<Rightarrow> Inr (out\<lparr>ae_Data := d\<rparr>)))"

section \<open>The consumer\<close>

record 's AnalyticsConsumer =
  co_Projection :: "'s ProjectionStore"
  co_Processed :: "string \<Rightarrow> ('s, bool) op"
  co_Commit :: "InMessage \<Rightarrow> ('s, unit) op"
  co_dlqWriter :: "(Message list \<Rightarrow> ('s, unit) op) option"
  co_markRetry :: "('s, bool) backoff"
  co_applyRetry :: "('s, unit) backoff"
  co_errorText :: "err \<Rightarrow> string"
  co_failedAt :: "('s, string) op"

definition maxAnalyticsHandlerAttempts :: int where "maxAnalyticsHandlerAttempts = 3"

definition analyticsPolicy :: backoff_policy where
  "analyticsPolicy = \<lparr>bo_InitialInterval = 100000000, bo_MaxInterval = 2000000000,
     bo_MaxRetries = maxAnalyticsHandlerAttempts - 1\<rparr>"

definition applyEvent :: "'s ProjectionStore \<Rightarrow> consumedEvent \<Rightarrow> ('s, unit) op" where
  "applyEvent P env = (let data = ae_Data env; ty = ae_Type env in
     if ty = TypeAssociateShiftStarted then ApplyShiftStarted P (ae_ID env) (aa_AssociateId data) (ae_Time env)
     else if ty = TypeAssociateShiftEnded then ApplyShiftEnded P (ae_ID env) (aa_AssociateId data) (ae_Time env)
     else if ty = TypeAssociateBreakStarted then ApplyBreakStarted P (ae_ID env) (aa_AssociateId data) (ae_Time env)
     else if ty = TypeAssociateBreakEnded then ApplyBreakEnded P (ae_ID env) (aa_AssociateId data) (ae_Time env)
     else if ty = TypeAssociateCertified then ApplyCertified P (ae_ID env) (aa_AssociateId data) (ae_Time env)
     else if ty = TypeLaborAssigned then ApplyLaborAssigned P (ae_ID env) (aa_PathId data) (ae_Time env)
     else if ty = TypeLaborReassigned then ApplyLaborReassigned P (ae_ID env) (aa_ToPathId data) (ae_Time env)
     else if ty = TypePathUnderstaffed then ApplyPathUnderstaffed P (ae_ID env) (aa_PathId data) (ae_Time env)
     else oret ())"

definition HandleMessage :: "sdk \<Rightarrow> 's AnalyticsConsumer \<Rightarrow> string \<Rightarrow> ('s, unit) op" where
  "HandleMessage k c raw =
     (case decodeAnalyticsEvent k raw of
        Inl e \<Rightarrow> ofail e
      | Inr env \<Rightarrow>
          if \<not> isProjectingEventType (ae_Type env) then oret ()
          else ocatch (co_Processed c (ae_ID env)) (\<lambda>r. case r of
              Inl e \<Rightarrow> ofail (Wrap ''analytics: mark processed'' e)
            | Inr isNew \<Rightarrow> if \<not> isNew then oret () else applyEvent (co_Projection c) env))"

definition markProcessedWithRetry :: "'s AnalyticsConsumer \<Rightarrow> string \<Rightarrow> ('s, bool) op" where
  "markProcessedWithRetry c eventId = co_markRetry c analyticsPolicy None (co_Processed c eventId)"

definition applyWithRetry :: "'s AnalyticsConsumer \<Rightarrow> consumedEvent \<Rightarrow> ('s, unit) op" where
  "applyWithRetry c env = co_applyRetry c analyticsPolicy None (applyEvent (co_Projection c) env)"

definition dlqMessage :: "'s AnalyticsConsumer \<Rightarrow> InMessage \<Rightarrow> err \<Rightarrow> string \<Rightarrow> Message" where
  "dlqMessage c msg cause failedAt =
     \<lparr>ms_Topic = '''', ms_Key = ms_Key msg, ms_Value = ms_Value msg,
      ms_Headers = ms_Headers msg @ [(''x-dlq-source-topic'', ms_Topic msg),
        (''x-dlq-error'', co_errorText c cause), (''x-dlq-failed-at'', failedAt)]\<rparr>"

definition dlqPublish :: "'s AnalyticsConsumer \<Rightarrow> InMessage \<Rightarrow> err \<Rightarrow> ('s, unit) op" where
  "dlqPublish c msg cause = (case co_dlqWriter c of
       None \<Rightarrow> oret ()
     | Some write \<Rightarrow> obind (co_failedAt c) (\<lambda>failedAt. write [dlqMessage c msg cause failedAt]))"

definition deadLetterAndCommit :: "'s AnalyticsConsumer \<Rightarrow> InMessage \<Rightarrow> err \<Rightarrow> ('s, unit) op" where
  "deadLetterAndCommit c msg cause = ocatch (dlqPublish c msg cause) (\<lambda>r. case r of
       Inl e \<Rightarrow> ofail (Wrap ''analytics: publish to dead-letter topic'' e)
     | Inr _ \<Rightarrow> co_Commit c msg)"

definition handleFetchedMessage :: "sdk \<Rightarrow> 's AnalyticsConsumer \<Rightarrow> InMessage \<Rightarrow> ('s, unit) op" where
  "handleFetchedMessage k c msg =
     (case decodeAnalyticsEvent k (ms_Value msg) of
        Inl decodeErr \<Rightarrow> deadLetterAndCommit c msg decodeErr
      | Inr env \<Rightarrow>
          if \<not> isProjectingEventType (ae_Type env) then co_Commit c msg
          else ocatch (markProcessedWithRetry c (ae_ID env)) (\<lambda>r. case r of
              Inl markErr \<Rightarrow> deadLetterAndCommit c msg markErr
            | Inr isNew \<Rightarrow>
                if \<not> isNew then co_Commit c msg
                else ocatch (applyWithRetry c env) (\<lambda>r. case r of
                    Inl applyErr \<Rightarrow> deadLetterAndCommit c msg applyErr
                  | Inr _ \<Rightarrow> co_Commit c msg)))"

text \<open>\<open>Run\<close> over what \<open>FetchMessage\<close> answers; None: still fetching, \<open>Some r\<close>: it returned \<open>r\<close>.\<close>

fun analytics_Run :: "sdk \<Rightarrow> 's AnalyticsConsumer \<Rightarrow> kread list \<Rightarrow> 's \<Rightarrow> err option option \<times> 's" where
  "analytics_Run k c [] s = (None, s)"
| "analytics_Run k c (ReadErr e ctxDone # _) s = (Some (if errors_is e ContextCanceled \<or> ctxDone then None else Some e), s)"
| "analytics_Run k c (ReadMsg msg # rs) s = (case handleFetchedMessage k c msg s of
       (Inl e, s) \<Rightarrow> (Some (Some e), s)
     | (Inr _, s) \<Rightarrow> analytics_Run k c rs s)"

definition AnalyticsConsumerGroup :: string where "AnalyticsConsumerGroup = ''workforce-analytics''"

definition analyticsDLQTopicSuffix :: string where "analyticsDLQTopicSuffix = ''.dlq''"

text \<open>
  \<open>NewAnalyticsConsumer\<close>: the reader's and the dead-letter writer's configurations, and the
  consumer over them. The zero commit interval means synchronous commits. The code sets neither a
  balancer nor \<open>RequiredAcks\<close>, whose zero value is \<open>RequireNone\<close>.
\<close>

definition dlqWriter :: "string list \<Rightarrow> string \<Rightarrow> writer_config" where
  "dlqWriter brokers topic = \<lparr>wc_Addr = brokers, wc_Topic = topic @ analyticsDLQTopicSuffix, wc_Hash = False,
     wc_AllowAutoTopicCreation = True, wc_BatchTimeout = 10000000, wc_RequiredAcks = RequireNone\<rparr>"

definition NewAnalyticsConsumer ::
  "(ReaderConfig \<Rightarrow> InMessage \<Rightarrow> ('s, unit) op) \<Rightarrow> (writer_config \<Rightarrow> Message list \<Rightarrow> ('s, unit) op) \<Rightarrow> ('s, bool) backoff \<Rightarrow>
     ('s, unit) backoff \<Rightarrow> (err \<Rightarrow> string) \<Rightarrow> ('s, string) op \<Rightarrow> string list \<Rightarrow> string \<Rightarrow> 's ProjectionStore \<Rightarrow>
     (string \<Rightarrow> ('s, bool) op) \<Rightarrow> 's AnalyticsConsumer" where
  "NewAnalyticsConsumer commit write markRetry applyRetry errorText failedAt brokers topic projection processed =
     \<lparr>co_Projection = projection, co_Processed = processed,
      co_Commit = commit \<lparr>rd_Brokers = brokers, rd_Topic = topic, rd_GroupID = AnalyticsConsumerGroup,
        rd_StartOffset = FirstOffset, rd_CommitInterval = 0\<rparr>,
      co_dlqWriter = Some (write (dlqWriter brokers topic)),
      co_markRetry = markRetry, co_applyRetry = applyRetry, co_errorText = errorText, co_failedAt = failedAt\<rparr>"

section \<open>What an event is\<close>

definition kind_of :: "string \<Rightarrow> kind" where
  "kind_of ty = (if ty = TypeAssociateShiftStarted then KShiftStarted
     else if ty = TypeAssociateShiftEnded then KShiftEnded
     else if ty = TypeAssociateBreakStarted then KBreakStarted
     else if ty = TypeAssociateBreakEnded then KBreakEnded
     else if ty = TypeAssociateCertified then KCertified
     else if ty = TypeLaborAssigned then KLaborAssigned
     else if ty = TypeLaborReassigned then KLaborReassigned
     else KPathUnderstaffed)"

definition event_of :: "consumedEvent \<Rightarrow> proj_event" where
  "event_of env = \<lparr>pe_Kind = kind_of (ae_Type env), pe_Id = ae_ID env,
     pe_Subject = (case kind_of (ae_Type env) of
         KLaborReassigned \<Rightarrow> aa_ToPathId (ae_Data env)
       | KLaborAssigned \<Rightarrow> aa_PathId (ae_Data env)
       | KPathUnderstaffed \<Rightarrow> aa_PathId (ae_Data env)
       | _ \<Rightarrow> aa_AssociateId (ae_Data env)),
     pe_At = ae_Time env\<rparr>"

lemma event_of_id [simp]: "pe_Id (event_of env) = ae_ID env"
  by (simp add: event_of_def)

lemma applyEvent_eq: "isProjectingEventType (ae_Type env) \<Longrightarrow> applyEvent P env = apply_event P (event_of env)"
  by (auto simp: applyEvent_def apply_event_def event_of_def kind_of_def isProjectingEventType_def Let_def)

section \<open>The projector\<close>

text \<open>The state of \<open>cmd/workforce-projector\<close>: the analytical database, and the broker's \<open>'k\<close>.\<close>

definition on_db :: "(an, 'a) op \<Rightarrow> (an \<times> 'k, 'a) op" where
  "on_db m = (\<lambda>(a, b). case m a of (r, a) \<Rightarrow> (r, (a, b)))"

definition on_kafka :: "('k, 'a) op \<Rightarrow> (an \<times> 'k, 'a) op" where
  "on_kafka m = (\<lambda>(a, b). case m b of (r, b) \<Rightarrow> (r, (a, b)))"

definition db_projection :: "(an \<times> 'k) ProjectionStore" where
  "db_projection = (let P = postgres_projection in
     \<lparr>ApplyShiftStarted = (\<lambda>i x t. on_db (ApplyShiftStarted P i x t)),
      ApplyShiftEnded = (\<lambda>i x t. on_db (ApplyShiftEnded P i x t)),
      ApplyBreakStarted = (\<lambda>i x t. on_db (ApplyBreakStarted P i x t)),
      ApplyBreakEnded = (\<lambda>i x t. on_db (ApplyBreakEnded P i x t)),
      ApplyCertified = (\<lambda>i x t. on_db (ApplyCertified P i x t)),
      ApplyLaborAssigned = (\<lambda>i x t. on_db (ApplyLaborAssigned P i x t)),
      ApplyLaborReassigned = (\<lambda>i x t. on_db (ApplyLaborReassigned P i x t)),
      ApplyPathUnderstaffed = (\<lambda>i x t. on_db (ApplyPathUnderstaffed P i x t))\<rparr>)"

record 'k broker =
  br_commit :: "ReaderConfig \<Rightarrow> InMessage \<Rightarrow> ('k, unit) op"
  br_write :: "writer_config \<Rightarrow> Message list \<Rightarrow> ('k, unit) op"
  br_failedAt :: "('k, string) op"

definition newAnalyticsPipeline ::
  "'k broker \<Rightarrow> (an \<times> 'k, bool) backoff \<Rightarrow> (an \<times> 'k, unit) backoff \<Rightarrow> (err \<Rightarrow> string) \<Rightarrow> string list \<Rightarrow>
     (an \<times> 'k) AnalyticsConsumer" where
  "newAnalyticsPipeline K markRetry applyRetry errorText brokers =
     NewAnalyticsConsumer (\<lambda>cfg m. on_kafka (br_commit K cfg m)) (\<lambda>cfg ms. on_kafka (br_write K cfg ms))
       markRetry applyRetry errorText (on_kafka (br_failedAt K)) brokers AnalyticsTopic db_projection
       (\<lambda>i. on_db (at_MarkProcessed i))"

lemma db_projection_apply: "apply_event db_projection e = on_db (apply_event postgres_projection e)"
  by (simp add: apply_event_def db_projection_def Let_def split: kind.split)

lemma on_db_eq: "on_db m (a, b) = (r, s') \<longleftrightarrow> (\<exists>a'. m a = (r, a') \<and> s' = (a', b))"
  by (auto simp: on_db_def split: prod.splits)

lemma on_kafka_eq: "on_kafka m (a, b) = (r, s') \<longleftrightarrow> (\<exists>b'. m b = (r, b') \<and> s' = (a, b'))"
  by (auto simp: on_kafka_def split: prod.splits)

interpretation db_store: projection_store db_projection "\<lambda>s. at_view (fst s)" "\<lambda>s. at_inv (fst s)" trunc_us
proof (unfold_locales, goal_cases)
  case (1 s e r s')
  then show ?case by (cases s) (auto simp: db_projection_apply on_db_eq dest: pg_store.apply_inv)
next
  case (2 s e u s')
  then show ?case by (cases s) (auto simp: db_projection_apply on_db_eq dest: pg_store.apply_Inr)
next
  case (3 s e x s')
  then show ?case by (cases s) (auto simp: db_projection_apply on_db_eq dest: pg_store.apply_Inl)
qed

text \<open>
  What the projector has done with a message it moves past. Committed: the reader answered nil to the
  commit of its offset. Dead-lettered: the dead-letter writer was handed a copy of it, the same key and
  bytes under its headers and the failure's, and answered nil, and then the offset was committed. That writer is
  configured without acknowledgements, so its nil is no promise that the copy is stored (\<open>dead_letter_unacknowledged\<close>).
\<close>

definition projectorReader :: "string list \<Rightarrow> ReaderConfig" where
  "projectorReader brokers = \<lparr>rd_Brokers = brokers, rd_Topic = AnalyticsTopic, rd_GroupID = AnalyticsConsumerGroup,
     rd_StartOffset = FirstOffset, rd_CommitInterval = 0\<rparr>"

definition commits :: "'k broker \<Rightarrow> string list \<Rightarrow> InMessage \<Rightarrow> 'k \<Rightarrow> 'k \<Rightarrow> bool" where
  "commits K bs msg b b' \<longleftrightarrow> br_commit K (projectorReader bs) msg b = (Inr (), b')"

definition dlq_copy :: "InMessage \<Rightarrow> Message \<Rightarrow> bool" where
  "dlq_copy msg m \<longleftrightarrow> ms_Key m = ms_Key msg \<and> ms_Value m = ms_Value msg
     \<and> (\<exists>why when. ms_Headers m = ms_Headers msg @ [(''x-dlq-source-topic'', ms_Topic msg),
          (''x-dlq-error'', why), (''x-dlq-failed-at'', when)])"

definition dead_lettered :: "'k broker \<Rightarrow> string list \<Rightarrow> InMessage \<Rightarrow> 'k \<Rightarrow> 'k \<Rightarrow> bool" where
  "dead_lettered K bs msg b b' \<longleftrightarrow> (\<exists>m t b1 b2. dlq_copy msg m \<and> br_failedAt K b = (Inr t, b1)
     \<and> br_write K (dlqWriter bs AnalyticsTopic) [m] b1 = (Inr (), b2) \<and> commits K bs msg b2 b')"

lemma pipeline_sel [simp]:
  "co_Projection (newAnalyticsPipeline K mr ar et bs) = db_projection"
  "co_Processed (newAnalyticsPipeline K mr ar et bs) = (\<lambda>i. on_db (at_MarkProcessed i))"
  "co_markRetry (newAnalyticsPipeline K mr ar et bs) = mr" "co_applyRetry (newAnalyticsPipeline K mr ar et bs) = ar"
  "co_Commit (newAnalyticsPipeline K mr ar et bs) = (\<lambda>m. on_kafka (br_commit K (projectorReader bs) m))"
  "co_dlqWriter (newAnalyticsPipeline K mr ar et bs) = Some (\<lambda>ms. on_kafka (br_write K (dlqWriter bs AnalyticsTopic) ms))"
  "co_failedAt (newAnalyticsPipeline K mr ar et bs) = on_kafka (br_failedAt K)"
  by (simp_all add: newAnalyticsPipeline_def NewAnalyticsConsumer_def projectorReader_def)

lemma pipeline_commit:
  assumes "co_Commit (newAnalyticsPipeline K mr ar et bs) msg (a, b) = (r, (a', b'))"
  shows "a' = a \<and> (r = Inr () \<longrightarrow> commits K bs msg b b')"
  using assms by (auto simp: on_kafka_eq commits_def)

lemma pipeline_dead:
  assumes "deadLetterAndCommit (newAnalyticsPipeline K mr ar et bs) msg cause (a, b) = (r, (a', b'))"
  shows "a' = a \<and> (r = Inr () \<longrightarrow> dead_lettered K bs msg b b')"
proof -
  let ?c = "newAnalyticsPipeline K mr ar et bs"
  obtain f b1 where f: "br_failedAt K b = (f, b1)" by fastforce
  show ?thesis
  proof (cases f)
    case (Inl e)
    then show ?thesis using assms f
      by (auto simp: deadLetterAndCommit_def ocatch_def dlqPublish_def obind_def on_kafka_def)
  next
    case (Inr t)
    let ?m = "dlqMessage ?c msg cause t"
    obtain u b2 where u: "br_write K (dlqWriter bs AnalyticsTopic) [?m] b1 = (u, b2)" by fastforce
    have p: "dlqPublish ?c msg cause (a, b) = (u, (a, b2))"
      using f u Inr by (simp add: dlqPublish_def obind_def on_kafka_def)
    show ?thesis
    proof (cases u)
      case (Inl e)
      then show ?thesis using assms p by (auto simp: deadLetterAndCommit_def ocatch_def)
    next
      case [simp]: (Inr x)
      have c: "co_Commit ?c msg (a, b2) = (r, (a', b'))" using assms p by (simp add: deadLetterAndCommit_def ocatch_def)
      have "dlq_copy msg ?m" by (auto simp: dlq_copy_def dlqMessage_def)
      then show ?thesis using pipeline_commit [OF c] f [unfolded \<open>f = Inr t\<close>] u unfolding dead_lettered_def by simp blast
    qed
  qed
qed



section \<open>Marking and applying\<close>

lemma at_MarkProcessed_cases:
  assumes "at_MarkProcessed i a = (r, a')" "an_tx a = None"
  shows "an_tx a' = None \<and> (case r of
      Inl _ \<Rightarrow> an_db a' = an_db a
    | Inr isNew \<Rightarrow> isNew = (i \<notin> set (at_consumed (an_db a)))
        \<and> an_db a' = (an_db a)\<lparr>at_consumed := (if isNew then i # at_consumed (an_db a) else at_consumed (an_db a))\<rparr>)"
proof -
  obtain f a1 where f: "an_fault a = (f, a1)" by fastforce
  then have "an_db a1 = an_db a" "an_tx a1 = None" using an_fault_frame [OF f] assms(2) by auto
  then show ?thesis using assms(1) f
    by (cases f) (auto simp: at_MarkProcessed_def an_exec_def obind_def split: if_splits)
qed

lemma consumed_view: "adb_view (d\<lparr>at_consumed := x\<rparr>) = adb_view d" "adb_inv (d\<lparr>at_consumed := x\<rparr>) = adb_inv d"
  by (simp_all add: adb_view_def adb_inv_def)

lemma at_step_consumed: "at_consumed (at_step e d) = at_consumed d"
proof -
  have "at_consumed (at_effect e d) = at_consumed d" for d
    by (cases "pe_Kind e") (simp_all add: at_effect_def upsert_row_def Let_def split: option.split)
  then show ?thesis by (simp add: at_step_def)
qed

lemma mark_cases:
  assumes "retry_ok mr" "markProcessedWithRetry (newAnalyticsPipeline K mr ar et bs) i (a, b) = (r, (a', b'))" "at_inv a"
  shows "b' = b \<and> at_inv a' \<and> at_view a' = at_view a \<and> (case r of
      Inl _ \<Rightarrow> at_consumed (an_db a') = at_consumed (an_db a)
    | Inr isNew \<Rightarrow> isNew = (i \<notin> set (at_consumed (an_db a))) \<and> set (at_consumed (an_db a')) = insert i (set (at_consumed (an_db a))))"
proof -
  let ?I = "\<lambda>s. snd s = b \<and> an_tx (fst s) = None \<and> an_db (fst s) = an_db a"
  have t: "tries (on_db (at_MarkProcessed i)) 2 (a, b) r (a', b')"
    using retry_okD [OF assms(1) assms(2) [unfolded markProcessedWithRetry_def pipeline_sel]]
    by (simp add: analyticsPolicy_def maxAnalyticsHandlerAttempts_def)
  have keep: "?I s'" if "?I s" "on_db (at_MarkProcessed i) s = (Inl e, s')" for s e s'
    using that by (cases s) (auto simp: on_db_eq dest: at_MarkProcessed_cases)
  have "?I (a, b)" using assms(3) by (simp add: at_inv_def)
  have "\<exists>s0 r0. ?I s0 \<and> on_db (at_MarkProcessed i) s0 = (r0, (a', b')) \<and> (case r of Inr x \<Rightarrow> r0 = Inr x | Inl _ \<Rightarrow> \<exists>e. r0 = Inl e)"
    by (rule tries_inv [where I = ?I, OF t]) (fact, erule (1) keep)
  then obtain a0 r0 where
    a0: "an_tx a0 = None" "an_db a0 = an_db a" "at_MarkProcessed i a0 = (r0, a')" "b' = b"
    and r: "case r of Inr x \<Rightarrow> r0 = Inr x | Inl _ \<Rightarrow> \<exists>e. r0 = Inl e"
    by (auto simp: on_db_eq)
  show ?thesis using at_MarkProcessed_cases [OF a0(3,1)] a0 r assms(3)
    by (cases r) (auto simp: at_inv_def at_view_def consumed_view)
qed

lemma apply_cases:
  assumes "retry_ok ar" "applyWithRetry (newAnalyticsPipeline K mr ar et bs) env (a, b) = (r, (a', b'))" "at_inv a"
    and "isProjectingEventType (ae_Type env)"
  shows "b' = b \<and> at_inv a' \<and> at_consumed (an_db a') = at_consumed (an_db a)
    \<and> at_view a' = (case r of Inl _ \<Rightarrow> at_view a | Inr _ \<Rightarrow> proj_step trunc_us (event_of env) (at_view a))"
proof -
  let ?op = "on_db (apply_event postgres_projection (event_of env))"
  let ?I = "\<lambda>s. snd s = b \<and> at_inv (fst s) \<and> at_view (fst s) = at_view a \<and> at_consumed (an_db (fst s)) = at_consumed (an_db a)"
  have t: "tries ?op 2 (a, b) r (a', b')"
    using retry_okD [OF assms(1) assms(2) [unfolded applyWithRetry_def pipeline_sel]] assms(4)
    by (simp add: analyticsPolicy_def maxAnalyticsHandlerAttempts_def applyEvent_eq db_projection_apply)
  have one: "at_inv x' \<and> at_view x' = (case q of Inl _ \<Rightarrow> at_view x | Inr _ \<Rightarrow> proj_step trunc_us (event_of env) (at_view x))
      \<and> at_consumed (an_db x') = at_consumed (an_db x)"
    if "apply_event postgres_projection (event_of env) x = (q, x')" "at_inv x" for q x x'
    using postgres_step [OF that(2,1)] postgres_runs [OF _ that(1)] that(2)
    by (cases q) (simp_all add: at_inv_def at_step_consumed)
  have keep: "?I s'" if "?I s" "?op s = (Inl e, s')" for s e s'
    using that by (cases s) (auto simp: on_db_eq dest: one)
  have "?I (a, b)" using assms(3) by simp
  have "\<exists>s0 r0. ?I s0 \<and> ?op s0 = (r0, (a', b')) \<and> (case r of Inr x \<Rightarrow> r0 = Inr x | Inl _ \<Rightarrow> \<exists>e. r0 = Inl e)"
    by (rule tries_inv [where I = ?I, OF t]) (fact, erule (1) keep)
  then obtain a0 r0 where
    a0: "at_inv a0" "at_view a0 = at_view a" "at_consumed (an_db a0) = at_consumed (an_db a)"
      "apply_event postgres_projection (event_of env) a0 = (r0, a')" "b' = b"
    and r: "case r of Inr x \<Rightarrow> r0 = Inr x | Inl _ \<Rightarrow> \<exists>e. r0 = Inl e"
    by (auto simp: on_db_eq)
  show ?thesis using one [OF a0(4,1)] a0 r by (cases r) auto
qed

section \<open>One message\<close>

theorem handle_cases:
  assumes "handleFetchedMessage k (newAnalyticsPipeline K mr ar et bs) msg (a, b) = (r, (a', b'))"
    and "retry_ok mr" "retry_ok ar" "at_inv a"
  shows "at_inv a' \<and> set (at_consumed (an_db a)) \<subseteq> set (at_consumed (an_db a'))
    \<and> set (at_consumed (an_db a')) \<subseteq> set (at_consumed (an_db a)) \<union> {ae_ID env | env. decodeAnalyticsEvent k (ms_Value msg) = Inr env \<and> isProjectingEventType (ae_Type env)}
    \<and> (case decodeAnalyticsEvent k (ms_Value msg) of
         Inl _ \<Rightarrow> at_view a' = at_view a \<and> (r = Inr () \<longrightarrow> dead_lettered K bs msg b b')
       | Inr env \<Rightarrow>
           if \<not> isProjectingEventType (ae_Type env) then at_view a' = at_view a \<and> (r = Inr () \<longrightarrow> commits K bs msg b b')
           else if ae_ID env \<in> set (at_consumed (an_db a))
             then at_view a' = at_view a \<and> (r = Inr () \<longrightarrow> commits K bs msg b b' \<or> dead_lettered K bs msg b b')
           else (ae_ID env \<in> set (at_consumed (an_db a'))
                   \<and> at_view a' = proj_step trunc_us (event_of env) (at_view a) \<and> (r = Inr () \<longrightarrow> commits K bs msg b b'))
              \<or> (at_view a' = at_view a \<and> (r = Inr () \<longrightarrow> dead_lettered K bs msg b b')))"
proof -
  let ?c = "newAnalyticsPipeline K mr ar et bs"
  show ?thesis
  proof (cases "decodeAnalyticsEvent k (ms_Value msg)")
    case (Inl e)
    then have "deadLetterAndCommit ?c msg e (a, b) = (r, (a', b'))" using assms(1) by (simp add: handleFetchedMessage_def)
    from pipeline_dead [OF this] show ?thesis using assms(4) Inl by auto
  next
    case (Inr env)
    show ?thesis
    proof (cases "isProjectingEventType (ae_Type env)")
      case False
      then have "co_Commit ?c msg (a, b) = (r, (a', b'))" using assms(1) Inr by (simp add: handleFetchedMessage_def)
      from pipeline_commit [OF this] show ?thesis using assms(4) Inr False by auto
    next
      case True
      obtain q a1 b1 where m: "markProcessedWithRetry ?c (ae_ID env) (a, b) = (q, (a1, b1))" by (metis surj_pair)
      note mc = mark_cases [OF assms(2) m assms(4)]
      show ?thesis
      proof (cases q)
        case (Inl e)
        then have "deadLetterAndCommit ?c msg e (a1, b) = (r, (a', b'))"
          using assms(1) Inr True m mc by (simp add: handleFetchedMessage_def ocatch_def)
        from pipeline_dead [OF this] show ?thesis using mc Inl Inr True by auto
      next
        case q: (Inr isNew)
        show ?thesis
        proof (cases isNew)
          case False
          then have "co_Commit ?c msg (a1, b) = (r, (a', b'))"
            using assms(1) Inr True m mc q by (simp add: handleFetchedMessage_def ocatch_def)
          from pipeline_commit [OF this] show ?thesis using mc q Inr True False by auto
        next
          case new: True
          obtain p a2 b2 where ap: "applyWithRetry ?c env (a1, b) = (p, (a2, b2))" by (metis surj_pair)
          note ac = apply_cases [OF assms(3) ap _ True]
          have ai: "at_inv a1" using mc by simp
          show ?thesis
          proof (cases p)
            case (Inl e)
            then have "deadLetterAndCommit ?c msg e (a2, b) = (r, (a', b'))"
              using assms(1) Inr True m mc q new ap ac [OF ai] by (simp add: handleFetchedMessage_def ocatch_def)
            from pipeline_dead [OF this] show ?thesis using mc q new ac [OF ai] Inl Inr True by auto
          next
            case (Inr u)
            then have "co_Commit ?c msg (a2, b) = (r, (a', b'))"
              using assms(1) \<open>decodeAnalyticsEvent k (ms_Value msg) = Inr env\<close> True m mc q new ap ac [OF ai]
              by (simp add: handleFetchedMessage_def ocatch_def)
            from pipeline_commit [OF this] show ?thesis
              using mc q new ac [OF ai] Inr \<open>decodeAnalyticsEvent k (ms_Value msg) = Inr env\<close> True by auto
          qed
        qed
      qed
    qed
  qed
qed


text \<open>
  C14: when a message has been handled without error, the last thing done was to commit its offset, and
  the message is accounted for: one that is no analytics event was first handed, byte for byte, to the dead-letter
  writer, which answered nil; one of another type is ignored; an already marked one changes nothing; and a new one
  has either been applied to the read model exactly once or handed to the dead-letter writer like the first.
\<close>

theorem handled_or_parked:
  assumes "handleFetchedMessage k (newAnalyticsPipeline K mr ar et bs) msg (a, b) = (Inr (), (a', b'))"
    and "retry_ok mr" "retry_ok ar" "at_inv a"
  shows "case decodeAnalyticsEvent k (ms_Value msg) of
      Inl _ \<Rightarrow> at_view a' = at_view a \<and> dead_lettered K bs msg b b'
    | Inr env \<Rightarrow>
        if \<not> isProjectingEventType (ae_Type env) then at_view a' = at_view a \<and> commits K bs msg b b'
        else if ae_ID env \<in> set (at_consumed (an_db a))
          then at_view a' = at_view a \<and> (commits K bs msg b b' \<or> dead_lettered K bs msg b b')
        else (at_view a' = proj_step trunc_us (event_of env) (at_view a) \<and> commits K bs msg b b')
           \<or> (at_view a' = at_view a \<and> dead_lettered K bs msg b b')"
  using handle_cases [OF assms] by (auto split: sum.splits if_splits)

text \<open>
  A poison message can vanish. The dead-letter writer is configured without acknowledgements, so its write
  may answer nil although the broker stored nothing; the offset is committed all the same, and the message
  is on no topic the projector reads again.
\<close>

theorem dead_letter_unacknowledged:
  assumes "decodeAnalyticsEvent k (ms_Value msg) = Inl e"
    and "\<And>cfg ms b. wc_RequiredAcks cfg = RequireNone \<Longrightarrow> br_write K cfg ms b = (Inr (), b)"
    and "\<And>b. br_failedAt K b = (Inr t, b)" "\<And>cfg b. br_commit K cfg msg b = (Inr (), commit b)"
  shows "handleFetchedMessage k (newAnalyticsPipeline K mr ar et bs) msg (a, b) = (Inr (), (a, commit b))"
  using assms
  by (simp add: handleFetchedMessage_def deadLetterAndCommit_def dlqPublish_def dlqWriter_def on_kafka_def ocatch_def obind_def)

section \<open>Redelivery\<close>

text \<open>A life of the projector: it runs, stops (for whatever reason) and runs again.\<close>

fun projector_life :: "sdk \<Rightarrow> 's AnalyticsConsumer \<Rightarrow> kread list list \<Rightarrow> 's \<Rightarrow> 's" where
  "projector_life k c [] s = s"
| "projector_life k c (rs # rss) s = projector_life k c rss (snd (analytics_Run k c rs s))"

definition delivered :: "sdk \<Rightarrow> kread list \<Rightarrow> proj_event set" where
  "delivered k rs = {event_of env | env. \<exists>m. ReadMsg m \<in> set rs
     \<and> decodeAnalyticsEvent k (ms_Value m) = Inr env \<and> isProjectingEventType (ae_Type env)}"

lemma handle_view:
  assumes "handleFetchedMessage k (newAnalyticsPipeline K mr ar et bs) msg (a, b) = (r, (a', b'))"
    and "retry_ok mr" "retry_ok ar" "at_inv a"
  shows "at_inv a' \<and> (\<exists>ok. set ok \<subseteq> delivered k [ReadMsg msg] \<and> at_view a' = fold (proj_step trunc_us) ok (at_view a))"
proof -
  note h = handle_cases [OF assms]
  show ?thesis
  proof (cases "at_view a' = at_view a")
    case True
    then show ?thesis using h by (intro conjI exI [of _ "[]"]) auto
  next
    case False
    then obtain env where "decodeAnalyticsEvent k (ms_Value msg) = Inr env" "isProjectingEventType (ae_Type env)"
      "at_view a' = proj_step trunc_us (event_of env) (at_view a)"
      using h by (auto split: sum.splits if_splits)
    then show ?thesis using h by (intro conjI exI [of _ "[event_of env]"]) (auto simp: delivered_def)
  qed
qed

lemma delivered_Cons: "delivered k (x # rs) = delivered k [x] \<union> delivered k rs"
  by (auto simp: delivered_def)

lemma delivered_append: "delivered k (rs @ rs') = delivered k rs \<union> delivered k rs'"
  by (auto simp: delivered_def)

lemma Run_view:
  assumes "retry_ok mr" "retry_ok ar"
  shows "analytics_Run k (newAnalyticsPipeline K mr ar et bs) rs (a, b) = (r, (a', b')) \<Longrightarrow> at_inv a \<Longrightarrow>
    at_inv a' \<and> (\<exists>ok. set ok \<subseteq> delivered k rs \<and> at_view a' = fold (proj_step trunc_us) ok (at_view a))"
proof (induction rs arbitrary: a b)
  case Nil
  then show ?case by (auto intro: exI [of _ "[]"])
next
  case (Cons x rs)
  show ?case
  proof (cases x)
    case (ReadErr e d)
    then show ?thesis using Cons.prems by (auto intro: exI [of _ "[]"])
  next
    case (ReadMsg m)
    obtain q a1 b1 where h: "handleFetchedMessage k (newAnalyticsPipeline K mr ar et bs) m (a, b) = (q, (a1, b1))"
      by (metis surj_pair)
    obtain ok where i: "at_inv a1" and ok: "set ok \<subseteq> delivered k [ReadMsg m]" "at_view a1 = fold (proj_step trunc_us) ok (at_view a)"
      using handle_view [OF h assms Cons.prems(2)] by blast
    show ?thesis
    proof (cases q)
      case (Inl e)
      then have "a1 = a'" using Cons.prems(1) h ReadMsg by simp
      then show ?thesis using i ok ReadMsg delivered_Cons [of k x rs] by (intro conjI exI [of _ ok]) auto
    next
      case (Inr u)
      then have "analytics_Run k (newAnalyticsPipeline K mr ar et bs) rs (a1, b1) = (r, (a', b'))"
        using Cons.prems(1) h ReadMsg by simp
      from Cons.IH [OF this i] obtain ok2 where "at_inv a'" "set ok2 \<subseteq> delivered k rs"
        "at_view a' = fold (proj_step trunc_us) ok2 (at_view a1)" by blast
      then show ?thesis using ok ReadMsg delivered_Cons [of k x rs]
        by (intro conjI exI [of _ "ok @ ok2"]) auto
    qed
  qed
qed

lemma life_view:
  assumes "retry_ok mr" "retry_ok ar"
  shows "projector_life k (newAnalyticsPipeline K mr ar et bs) rss (a, b) = (a', b') \<Longrightarrow> at_inv a \<Longrightarrow>
    at_inv a' \<and> (\<exists>ok. set ok \<subseteq> delivered k (concat rss) \<and> at_view a' = fold (proj_step trunc_us) ok (at_view a))"
proof (induction rss arbitrary: a b)
  case Nil
  then show ?case by (auto intro: exI [of _ "[]"])
next
  case (Cons rs rss)
  obtain r a1 b1 where h: "analytics_Run k (newAnalyticsPipeline K mr ar et bs) rs (a, b) = (r, (a1, b1))" by (metis surj_pair)
  obtain ok where i: "at_inv a1" and ok: "set ok \<subseteq> delivered k rs" "at_view a1 = fold (proj_step trunc_us) ok (at_view a)"
    using Run_view [OF assms h Cons.prems(2)] by blast
  have "projector_life k (newAnalyticsPipeline K mr ar et bs) rss (a1, b1) = (a', b')" using Cons.prems(1) h by simp
  from Cons.IH [OF this i] obtain ok2 where "at_inv a'" "set ok2 \<subseteq> delivered k (concat rss)"
    "at_view a' = fold (proj_step trunc_us) ok2 (at_view a1)" by blast
  then show ?case using ok by (intro conjI exI [of _ "ok @ ok2"]) (auto simp: delivered_append)
qed

text \<open>
  C15: over any life of the projector (restarts, redeliveries, failing statements), every counter
  of the read model is the number of distinct delivered events of its kind, path and hour that
  the projection has recorded: no redelivery counts an event twice.
\<close>

theorem projected_once:
  assumes "retry_ok mr" "retry_ok ar"
    and "projector_life k (newAnalyticsPipeline K mr ar et bs) rss (an_empty faults, b) = (a', b')"
    and "inj_on pe_Id (delivered k (concat rss))" "kd \<noteq> KBreakEnded"
  shows "counter kd (acc_at (pv_rows (at_view a')) key)
    = int (card {e \<in> delivered k (concat rss). pe_Id e \<in> pv_seen (at_view a') \<and> pe_Kind e = kd \<and> event_key e = key})"
proof -
  obtain ok where ok: "set ok \<subseteq> delivered k (concat rss)" "at_view a' = fold (proj_step trunc_us) ok pv_empty"
    using life_view [OF assms(1-3)] by auto
  have seen: "pv_seen (at_view a') = pe_Id ` set ok" by (simp add: ok(2) pv_empty_def)
  have "coherent ok" using assms(4) ok(1) by (auto simp: coherent_def intro: inj_on_subset)
  then have "counter kd (acc_at (pv_rows (at_view a')) key) = int (card {e \<in> set ok. pe_Kind e = kd \<and> event_key e = key})"
    using fold_counts [OF _ assms(5)] by (simp add: ok(2))
  moreover have "{e \<in> set ok. pe_Kind e = kd \<and> event_key e = key}
    = {e \<in> delivered k (concat rss). pe_Id e \<in> pv_seen (at_view a') \<and> pe_Kind e = kd \<and> event_key e = key}"
    unfolding seen using ok(1) assms(4) by (auto dest: inj_onD)
  ultimately show ?thesis by simp
qed


text \<open>An id that is marked but not in the read model stays so, whatever is delivered afterwards.\<close>

definition marked_only :: "string \<Rightarrow> an \<Rightarrow> bool" where
  "marked_only i a \<longleftrightarrow> at_inv a \<and> i \<in> set (at_consumed (an_db a)) \<and> i \<notin> pv_seen (at_view a)"

lemma handle_marked_only:
  assumes "handleFetchedMessage k (newAnalyticsPipeline K mr ar et bs) msg (a, b) = (r, (a', b'))"
    and "retry_ok mr" "retry_ok ar" "marked_only i a"
  shows "marked_only i a'"
proof -
  have a: "at_inv a" "i \<in> set (at_consumed (an_db a))" "i \<notin> pv_seen (at_view a)" using assms(4) by (auto simp: marked_only_def)
  note h = handle_cases [OF assms(1-3) a(1)]
  have "i \<notin> pv_seen (at_view a')"
  proof (cases "at_view a' = at_view a")
    case False
    then obtain env where "ae_ID env \<notin> set (at_consumed (an_db a))"
      "at_view a' = proj_step trunc_us (event_of env) (at_view a)"
      using h by (auto split: sum.splits if_splits)
    then show ?thesis using a(2,3) by auto
  qed (use a in simp)
  then show ?thesis using h a(2) by (auto simp: marked_only_def)
qed

lemma Run_marked_only:
  assumes "retry_ok mr" "retry_ok ar"
  shows "analytics_Run k (newAnalyticsPipeline K mr ar et bs) rs (a, b) = (r, (a', b')) \<Longrightarrow> marked_only i a \<Longrightarrow> marked_only i a'"
proof (induction rs arbitrary: a b)
  case (Cons x rs)
  show ?case
  proof (cases x)
    case (ReadMsg m)
    obtain q a1 b1 where h: "handleFetchedMessage k (newAnalyticsPipeline K mr ar et bs) m (a, b) = (q, (a1, b1))"
      by (metis surj_pair)
    then show ?thesis using Cons.IH [of a1 b1] Cons.prems(1) handle_marked_only [OF h assms Cons.prems(2)] ReadMsg
      by (cases q) auto
  qed (use Cons.prems in auto)
qed simp

lemma life_marked_only:
  assumes "retry_ok mr" "retry_ok ar"
  shows "projector_life k (newAnalyticsPipeline K mr ar et bs) rss (a, b) = (a', b') \<Longrightarrow> marked_only i a \<Longrightarrow> marked_only i a'"
proof (induction rss arbitrary: a b)
  case (Cons rs rss)
  obtain r a1 b1 where h: "analytics_Run k (newAnalyticsPipeline K mr ar et bs) rs (a, b) = (r, (a1, b1))" by (metis surj_pair)
  then show ?case using Cons.IH [of a1 b1] Cons.prems(1) Run_marked_only [OF assms h Cons.prems(2)] by simp
qed simp

text \<open>
  C40: a delivery that fails after marking loses its event for good. When an event's id is marked, every
  attempt to apply the event fails and the dead-letter writer fails too, the projector stops with an error and the
  offset uncommitted. But from then on, through any further deliveries and restarts, the event is in no counter of
  the read model, and a redelivery whose mark is answered does nothing but commit the offset.
\<close>

theorem analytics_event_lost:
  fixes mr ar et bs and K :: "'k broker"
  defines "c \<equiv> newAnalyticsPipeline K mr ar et bs"
  assumes "decodeAnalyticsEvent k (ms_Value msg) = Inr env" "isProjectingEventType (ae_Type env)"
    and "retry_ok mr" "retry_ok ar" "at_inv a" "ae_ID env \<notin> pv_seen (at_view a)"
    and "markProcessedWithRetry c (ae_ID env) (a, b) = (Inr True, s1)" "applyWithRetry c env s1 = (Inl e, s2)"
    and "dlqPublish c msg e s2 = (Inl e', s3)"
  shows "(\<exists>x a3 b3. handleFetchedMessage k c msg (a, b) = (Inl x, (a3, b3)) \<and> at_view a3 = at_view a
    \<and> (\<forall>rss b4 a5 b5. projector_life k c rss (a3, b4) = (a5, b5) \<longrightarrow> ae_ID env \<notin> pv_seen (at_view a5)
        \<and> (\<forall>q s6. markProcessedWithRetry c (ae_ID env) (a5, b5) = (Inr q, s6) \<longrightarrow>
              handleFetchedMessage k c msg (a5, b5) = co_Commit c msg s6)))"
proof -
  obtain a1 b1 a2 b2 a3 b3 where s: "s1 = (a1, b1)" "s2 = (a2, b2)" "s3 = (a3, b3)" by (metis surj_pair)
  note m = mark_cases [OF assms(4) assms(8) [unfolded c_def s] assms(6)]
  note p = apply_cases [OF assms(5) assms(9) [unfolded c_def s] _ assms(3)]
  have dead: "deadLetterAndCommit c msg e s2 = (Inl (Wrap ''analytics: publish to dead-letter topic'' e'), s3)"
    using assms(10) by (simp add: deadLetterAndCommit_def ocatch_def)
  have h: "handleFetchedMessage k c msg (a, b) = (Inl (Wrap ''analytics: publish to dead-letter topic'' e'), (a3, b3))"
    using assms(2,3,8,9) dead s by (simp add: handleFetchedMessage_def ocatch_def)
  have "a3 = a2" using pipeline_dead [OF dead [unfolded c_def s]] by simp
  then have mo: "marked_only (ae_ID env) a3" and v: "at_view a3 = at_view a"
    using m p assms(7) by (auto simp: marked_only_def)
  have later: "ae_ID env \<notin> pv_seen (at_view a5) \<and> (\<forall>q s6. markProcessedWithRetry c (ae_ID env) (a5, b5) = (Inr q, s6) \<longrightarrow>
      handleFetchedMessage k c msg (a5, b5) = co_Commit c msg s6)"
    if l: "projector_life k c rss (a3, b4) = (a5, b5)" for rss b4 a5 b5
  proof -
    have i: "marked_only (ae_ID env) a5" by (rule life_marked_only [OF assms(4,5) l [unfolded c_def] mo])
    have "q = False" if "markProcessedWithRetry c (ae_ID env) (a5, b5) = (Inr q, s6)" for q s6
      using that mark_cases [OF assms(4), of K ar et bs "ae_ID env" a5 b5 "Inr q" "fst s6" "snd s6"] i
      by (simp add: c_def marked_only_def)
    then show ?thesis using i assms(2,3) by (auto simp: marked_only_def handleFetchedMessage_def ocatch_def)
  qed
  show ?thesis using h v later by blast
qed

section \<open>From the publisher to the read model\<close>

text \<open>What the analytics publisher sends for a domain event, as the projection should see it.\<close>

fun projected :: "string \<Rightarrow> DomainEvent \<Rightarrow> proj_event option" where
  "projected i (AssociateShiftStarted t a cs) = Some \<lparr>pe_Kind = KShiftStarted, pe_Id = i, pe_Subject = a, pe_At = t\<rparr>"
| "projected i (AssociateShiftEnded t a) = Some \<lparr>pe_Kind = KShiftEnded, pe_Id = i, pe_Subject = a, pe_At = t\<rparr>"
| "projected i (AssociateBreakStarted t a) = Some \<lparr>pe_Kind = KBreakStarted, pe_Id = i, pe_Subject = a, pe_At = t\<rparr>"
| "projected i (AssociateBreakEnded t a) = Some \<lparr>pe_Kind = KBreakEnded, pe_Id = i, pe_Subject = a, pe_At = t\<rparr>"
| "projected i (AssociateCertified t a c) = Some \<lparr>pe_Kind = KCertified, pe_Id = i, pe_Subject = a, pe_At = t\<rparr>"
| "projected i (LaborAssigned t a p) = Some \<lparr>pe_Kind = KLaborAssigned, pe_Id = i, pe_Subject = p, pe_At = t\<rparr>"
| "projected i (LaborReassigned t a f p) = Some \<lparr>pe_Kind = KLaborReassigned, pe_Id = i, pe_Subject = p, pe_At = t\<rparr>"
| "projected i (PathUnderstaffed t p planned act) = Some \<lparr>pe_Kind = KPathUnderstaffed, pe_Id = i, pe_Subject = p, pe_At = t\<rparr>"
| "projected i (ShiftPlanProposed t b p heads rate) = None"
| "projected i (ShiftPlanCommitted t b sh) = None"

text \<open>
  The CloudEvents SDK's codec: what it marshals it reads back, the data up to the printing of
  floats; validation looks at the context attributes only.
\<close>

fun floatless :: "json \<Rightarrow> bool" where
  "floatless (JNum x) \<longleftrightarrow> False"
| "floatless (JArr xs) \<longleftrightarrow> list_all floatless xs"
| "floatless (JObj kvs) \<longleftrightarrow> list_all (\<lambda>kv. floatless (snd kv)) kvs"
| "floatless _ \<longleftrightarrow> True"

definition codec_ok :: "sdk \<Rightarrow> bool" where
  "codec_ok k \<longleftrightarrow> (\<forall>e v. sdk_marshal k e = Inr v \<longrightarrow>
       (\<exists>d. sdk_unmarshal k v = Inr (e\<lparr>ce_data := d\<rparr>) \<and> (floatless (ce_data e) \<longrightarrow> d = ce_data e)))
     \<and> (\<forall>e d. sdk_validate k (e\<lparr>ce_data := d\<rparr>) = sdk_validate k e)"

lemma fold_names:
  "foldName ''associate_id'' = ''ASSOCIATE_ID''" "foldName ''path_id'' = ''PATH_ID''" "foldName ''to_path_id'' = ''TO_PATH_ID''"
  "foldName ''from_path_id'' = ''FROM_PATH_ID''" "foldName ''certification'' = ''CERTIFICATION''"
  "foldName ''planned_heads'' = ''PLANNED_HEADS''" "foldName ''active_heads'' = ''ACTIVE_HEADS''"
  by code_simp+

lemma types_eq:
  "ce_Type ''associate'' ''AssociateShiftStarted'' = TypeAssociateShiftStarted"
  "ce_Type ''associate'' ''AssociateShiftEnded'' = TypeAssociateShiftEnded"
  "ce_Type ''associate'' ''AssociateBreakStarted'' = TypeAssociateBreakStarted"
  "ce_Type ''associate'' ''AssociateBreakEnded'' = TypeAssociateBreakEnded"
  "ce_Type ''associate'' ''AssociateCertified'' = TypeAssociateCertified"
  "ce_Type ''assignment'' ''LaborAssigned'' = TypeLaborAssigned"
  "ce_Type ''assignment'' ''LaborReassigned'' = TypeLaborReassigned"
  "ce_Type ''shiftplan'' ''PathUnderstaffed'' = TypePathUnderstaffed"
  by (simp_all add: ce_Type_def projecting_types)

lemma other_types:
  "\<not> isProjectingEventType (ce_Type ''shiftplan'' ''ShiftPlanProposed'')"
  "\<not> isProjectingEventType (ce_Type ''shiftplan'' ''ShiftPlanCommitted'')"
  by (simp_all add: ce_Type_def projecting_types isProjectingEventType_def)

lemma kinds_eq [simp]:
  "kind_of TypeAssociateShiftStarted = KShiftStarted" "kind_of TypeAssociateShiftEnded = KShiftEnded"
  "kind_of TypeAssociateBreakStarted = KBreakStarted" "kind_of TypeAssociateBreakEnded = KBreakEnded"
  "kind_of TypeAssociateCertified = KCertified" "kind_of TypeLaborAssigned = KLaborAssigned"
  "kind_of TypeLaborReassigned = KLaborReassigned" "kind_of TypePathUnderstaffed = KPathUnderstaffed"
  by (simp_all add: kind_of_def projecting_types)

lemma projecting [simp]:
  "isProjectingEventType TypeAssociateShiftStarted" "isProjectingEventType TypeAssociateShiftEnded"
  "isProjectingEventType TypeAssociateBreakStarted" "isProjectingEventType TypeAssociateBreakEnded"
  "isProjectingEventType TypeAssociateCertified" "isProjectingEventType TypeLaborAssigned"
  "isProjectingEventType TypeLaborReassigned" "isProjectingEventType TypePathUnderstaffed"
  by (simp_all add: isProjectingEventType_def)

lemma decode_payload:
  assumes "codec_ok k" and "ce_New k sp = Inr v"
  shows "\<exists>d e. ce_Decode k v = Inr e \<and> ce_id e = spec_ID sp \<and> ce_type e = ce_Type (spec_Entity sp) (spec_EventName sp)
    \<and> ce_time e = spec_Time sp \<and> (floatless (spec_Data sp) \<longrightarrow> ce_data e = spec_Data sp)"
proof -
  obtain e where e: "sdk_marshal k e = Inr v" "sdk_validate k e = None" "ce_specversion e = ''1.0''"
    "ce_id e = spec_ID sp" "ce_type e = ce_Type (spec_Entity sp) (spec_EventName sp)" "ce_time e = spec_Time sp"
    "ce_data e = spec_Data sp"
    using assms(2) by (auto simp: ce_New_def Let_def split: if_splits option.splits)
  obtain d where "sdk_unmarshal k v = Inr (e\<lparr>ce_data := d\<rparr>)" "floatless (ce_data e) \<longrightarrow> d = ce_data e"
    using assms(1) e(1) unfolding codec_ok_def by blast
  moreover have "sdk_validate k (e\<lparr>ce_data := d\<rparr>) = None" using assms(1) e(2) by (simp add: codec_ok_def)
  ultimately show ?thesis using e(3-7) by (simp add: ce_Decode_def)
qed

lemma decode_event:
  assumes "codec_ok k"
    and "ce_New k \<lparr>spec_ID = i, spec_Entity = an_entity (marshalAnalyticsData ev), spec_EventName = an_eventName (marshalAnalyticsData ev),
      spec_Subject = sub, spec_Time = OccurredAt ev, spec_Stream = st, spec_Version = n,
      spec_Data = an_data (marshalAnalyticsData ev)\<rparr> = Inr v"
  shows "\<exists>env. decodeAnalyticsEvent k v = Inr env \<and> (case projected i ev of
      Some pe \<Rightarrow> isProjectingEventType (ae_Type env) \<and> event_of env = pe
    | None \<Rightarrow> \<not> isProjectingEventType (ae_Type env))"
proof -
  note d = decode_payload [OF assms, simplified ce_Spec.select_convs]
  show ?thesis
    using d by (cases ev)
      (auto simp: decodeAnalyticsEvent_def associateEvent_def types_eq other_types Let_def decode_analyticsData_def dec_object_def
        dec_field_def field_values_def fold_names event_of_def no_data_def simp del: foldName.simps)
qed

text \<open>
  What the analytics publisher encodes, the projector reads back: for every domain event the
  message it sends decodes, under the id minted for it, to the projection event of that domain
  event, or, for the two plan events, to an event the projector ignores.
\<close>

lemma Analytics_Encode_events:
  assumes "codec_ok k"
  shows "Analytics_Encode k newID trace evs s = (Inr ms, s') \<Longrightarrow>
    \<exists>ids. omapM (\<lambda>_. omint newID) evs s = (Inr ids, s') \<and> length ids = length ms
      \<and> list_all2 (\<lambda>(i, ev) m. \<exists>env. decodeAnalyticsEvent k (en_Value m) = Inr env \<and> (case projected i ev of
            Some pe \<Rightarrow> isProjectingEventType (ae_Type env) \<and> event_of env = pe
          | None \<Rightarrow> \<not> isProjectingEventType (ae_Type env))) (zip ids evs) ms"
proof (induction evs arbitrary: s ms)
  case Nil
  then show ?case by simp
next
  case (Cons ev evs)
  let ?a = "marshalAnalyticsData ev"
  obtain i s1 where i: "newID s = (i, s1)" by fastforce
  have m: "mustMarshal (an_data ?a) = Inr (an_data ?a)"
    using Cons.prems by (auto simp: mustMarshal_def Let_def obind_def split: if_splits)
  obtain v where v: "ce_New k \<lparr>spec_ID = i, spec_Entity = an_entity ?a, spec_EventName = an_eventName ?a,
      spec_Subject = an_subject ?a, spec_Time = OccurredAt ev, spec_Stream = ''analytics'', spec_Version = 1,
      spec_Data = an_data ?a\<rparr> = Inr v"
    using Cons.prems i m by (auto simp: Let_def obind_def omint_def split: sum.splits)
  obtain rest where r: "Analytics_Encode k newID trace evs s1 = (Inr rest, s')"
    and ms: "ms = \<lparr>en_Topic = AnalyticsTopic, en_EventType = ce_Type (an_entity ?a) (an_eventName ?a),
       en_Key = an_key ?a, en_Value = v, en_Headers = inject trace [ContentTypeHeader]\<rparr> # rest"
    using Cons.prems i m v by (auto simp: Let_def obind_def omint_def split: sum.splits prod.splits)
  show ?case using Cons.IH [OF r] decode_event [OF assms v] i ms by (auto simp: obind_def omint_def)
qed

section \<open>Concrete runs\<close>

text \<open>A broker that lists what it is handed; the script says which writes it refuses.\<close>

type_synonym demo_kafka = "bool list \<times> Message list \<times> (int \<times> int) set"

definition pos :: "InMessage \<Rightarrow> int \<times> int" where
  "pos m = (ms_Partition m, ms_Offset m)"

definition demo_broker :: "demo_kafka broker" where
  "demo_broker = \<lparr>br_commit = (\<lambda>_ m (fs, dl, ack). (Inr (), (fs, dl, insert (pos m) ack))),
     br_write = (\<lambda>_ ms (fs, dl, ack). case fs of
         True # fs \<Rightarrow> (Inl (Other ''broker down''), (fs, dl @ ms, ack))
       | _ \<Rightarrow> (Inr (), (tl fs, dl @ ms, ack))),
     br_failedAt = oret ''now''\<rparr>"

definition demo_assigned :: ce_event where
  "demo_assigned = demo_event ''e1'' TypeLaborAssigned (JObj [(''associate_id'', JStr ''a''), (''path_id'', JStr ''pick'')])"

definition demo_sdk :: sdk where
  "demo_sdk = table_sdk [(''m1'', demo_assigned)]"

definition demo_projector :: "(an \<times> demo_kafka) AnalyticsConsumer" where
  "demo_projector = newAnalyticsPipeline demo_broker plain_backoff plain_backoff (\<lambda>_. ''error'') [''kafka'']"

lemma demo_decode: "decodeAnalyticsEvent demo_sdk ''m1'' = Inr \<lparr>ae_ID = ''e1'', ae_Type = TypeLaborAssigned, ae_Time = 0,
    ae_Data = \<lparr>aa_AssociateId = ''a'', aa_PathId = ''pick'', aa_ToPathId = ''''\<rparr>\<rparr>"
  by (simp add: decodeAnalyticsEvent_def ce_Decode_def demo_sdk_def table_sdk_def demo_assigned_def demo_event_def
      decode_analyticsData_def dec_object_def dec_field_def field_values_def fold_names no_data_def Let_def
      del: foldName.simps)

lemma demo_value [simp]: "ms_Value (demo_message p i v) = v"
  by (simp add: demo_message_def)

lemma demo_sel [simp]:
  "co_markRetry demo_projector = plain_backoff" "co_applyRetry demo_projector = plain_backoff"
  "co_Processed demo_projector = (\<lambda>i. on_db (at_MarkProcessed i))" "co_Projection demo_projector = db_projection"
  by (simp_all add: demo_projector_def)

lemma demo_commit: "co_Commit demo_projector m (a, (fs, dl, ack)) = (Inr (), (a, (fs, dl, insert (pos m) ack)))"
  by (simp add: demo_projector_def on_kafka_def demo_broker_def)

lemma demo_retry:
  "plain_backoff analyticsPolicy None m s = (case m s of (Inr a, s) \<Rightarrow> (Inr a, s) | (Inl _, s) \<Rightarrow>
     (case m s of (Inr a, s) \<Rightarrow> (Inr a, s) | (Inl _, s) \<Rightarrow> m s))"
  by (simp add: plain_backoff_def analyticsPolicy_def maxAnalyticsHandlerAttempts_def numeral_2_eq_2
      split: prod.split sum.split)

definition demo_env :: consumedEvent where
  "demo_env = \<lparr>ae_ID = ''e1'', ae_Type = TypeLaborAssigned, ae_Time = 0,
     ae_Data = \<lparr>aa_AssociateId = ''a'', aa_PathId = ''pick'', aa_ToPathId = ''''\<rparr>\<rparr>"

lemma demo_apply: "applyEvent db_projection demo_env = on_db (at_ApplyLaborAssigned ''e1'' ''pick'' 0)"
  by (simp add: demo_env_def applyEvent_def db_projection_def postgres_projection_def projecting_types)

lemmas demo_run = handleFetchedMessage_def demo_decode [folded demo_env_def] ocatch_def markProcessedWithRetry_def
  applyWithRetry_def demo_apply demo_retry demo_commit on_db_def at_MarkProcessed_def an_exec_def obind_def
  an_fault_def an_empty_def

lemma demo_env_sel [simp]: "ae_ID demo_env = ''e1''" "ae_Type demo_env = TypeLaborAssigned"
  by (simp_all add: demo_env_def)

theorem handled_or_parked_witness:
  "let m = demo_message 0 7 ''m1''; s = snd (handleFetchedMessage demo_sdk demo_projector m (an_empty [], ([], [], {}))) in
     at_view (fst s) = proj_step trunc_us (event_of demo_env) (at_view (an_empty [])) \<and> commits demo_broker [''kafka''] m ([], [], {}) (snd s)
     \<or> at_view (fst s) = at_view (an_empty []) \<and> dead_lettered demo_broker [''kafka''] m ([], [], {}) (snd s)"
proof -
  let ?m = "demo_message 0 7 ''m1''"
  let ?h = "handleFetchedMessage demo_sdk demo_projector ?m (an_empty [], ([], [], {}))"
  have e: "at_consumed (an_db (an_empty [])) = []" by (simp add: an_empty_def)
  have "fst ?h = Inr ()"
    by (simp add: demo_run at_ApplyLaborAssigned_def applyRollup_def claimed_def inTx_def an_claim_def insert_processed_def
        upsertRollup_def upsert_row_def an_Commit_def Let_def)
  then have "?h = (Inr (), (fst (snd ?h), snd (snd ?h)))" by (metis prod.collapse)
  from handled_or_parked [OF this [unfolded demo_projector_def] plain_backoff_ok plain_backoff_ok an_empty_ok(1),
      folded demo_projector_def] show ?thesis
    by (simp add: demo_decode [folded demo_env_def] Let_def e)
qed

lemma demo_lost_run:
  "\<exists>s1 e s2 e' s3. markProcessedWithRetry demo_projector (ae_ID demo_env)
       (an_empty [None, Some ''down'', Some ''down'', Some ''down''], ([True], [], {})) = (Inr True, s1)
     \<and> applyWithRetry demo_projector demo_env s1 = (Inl e, s2) \<and> dlqPublish demo_projector (demo_message 0 7 ''m1'') e s2 = (Inl e', s3)
     \<and> an_faults (fst s3) = [] \<and> an_tx (fst s3) = None \<and> ''e1'' \<in> set (at_consumed (an_db (fst s3)))"
  by (simp add: demo_run dlqPublish_def demo_projector_def on_kafka_def demo_broker_def at_ApplyLaborAssigned_def applyRollup_def claimed_def inTx_def)

theorem projected_once_witness:
  "let m = demo_message 0 7 ''m1''; rss = [[ReadMsg m, ReadMsg m], [ReadMsg m]];
       s = projector_life demo_sdk demo_projector rss (an_empty [Some ''down''], ([], [], {}));
       key = \<lparr>rk_PathId = ''pick'', rk_HourBucket = 0\<rparr> in
   counter KLaborAssigned (acc_at (pv_rows (at_view (fst s))) key)
     = int (card {e \<in> delivered demo_sdk (concat rss). pe_Id e \<in> pv_seen (at_view (fst s)) \<and> pe_Kind e = KLaborAssigned
         \<and> event_key e = key})"
proof -
  let ?m = "demo_message 0 7 ''m1''"
  let ?rss = "[[ReadMsg ?m, ReadMsg ?m], [ReadMsg ?m]]"
  have "delivered demo_sdk (concat ?rss) \<subseteq> {event_of demo_env}"
    by (auto simp: delivered_def demo_decode [folded demo_env_def])
  then have inj: "inj_on pe_Id (delivered demo_sdk (concat ?rss))" by (auto simp: inj_on_def)
  have "projector_life demo_sdk demo_projector ?rss (an_empty [Some ''down''], ([], [], {}))
      = (fst (projector_life demo_sdk demo_projector ?rss (an_empty [Some ''down''], ([], [], {}))),
         snd (projector_life demo_sdk demo_projector ?rss (an_empty [Some ''down''], ([], [], {}))))" by simp
  from projected_once [OF plain_backoff_ok plain_backoff_ok this [unfolded demo_projector_def] inj,
      folded demo_projector_def, of KLaborAssigned]
  show ?thesis unfolding Let_def by simp
qed

theorem analytics_event_lost_witness:
  "\<exists>x a3 b3 b5. handleFetchedMessage demo_sdk demo_projector (demo_message 0 7 ''m1'')
       (an_empty [None, Some ''down'', Some ''down'', Some ''down''], ([True], [], {})) = (Inl x, (a3, b3))
     \<and> ''e1'' \<notin> pv_seen (at_view a3)
     \<and> handleFetchedMessage demo_sdk demo_projector (demo_message 0 7 ''m1'') (a3, b3) = (Inr (), (a3, b5))
     \<and> (0, 7) \<in> snd (snd b5)"
proof -
  let ?m = "demo_message 0 7 ''m1''" and ?a = "an_empty [None, Some ''down'', Some ''down'', Some ''down'']"
  let ?c = "newAnalyticsPipeline demo_broker plain_backoff plain_backoff (\<lambda>_. ''error'') [''kafka'']"
  obtain s1 e s2 e' s3 where run:
    "markProcessedWithRetry demo_projector (ae_ID demo_env) (?a, ([True], [], {})) = (Inr True, s1)"
    "applyWithRetry demo_projector demo_env s1 = (Inl e, s2)" "dlqPublish demo_projector ?m e s2 = (Inl e', s3)"
    "an_faults (fst s3) = []" "an_tx (fst s3) = None" "''e1'' \<in> set (at_consumed (an_db (fst s3)))"
    using demo_lost_run by blast
  have d: "decodeAnalyticsEvent demo_sdk (ms_Value ?m) = Inr demo_env" "isProjectingEventType (ae_Type demo_env)"
    "ae_ID demo_env \<notin> pv_seen (at_view ?a)"
    using demo_decode [folded demo_env_def] by (simp_all add: pv_empty_def)
  obtain x a3 b3 where l: "handleFetchedMessage demo_sdk demo_projector ?m (?a, ([True], [], {})) = (Inl x, (a3, b3))"
    and later: "projector_life demo_sdk demo_projector [] (a3, b3) = (a3, b3) \<Longrightarrow> ae_ID demo_env \<notin> pv_seen (at_view a3)
      \<and> (\<forall>q s6. markProcessedWithRetry demo_projector (ae_ID demo_env) (a3, b3) = (Inr q, s6) \<longrightarrow>
            handleFetchedMessage demo_sdk demo_projector ?m (a3, b3) = co_Commit demo_projector ?m s6)"
    using analytics_event_lost [where K = demo_broker and mr = plain_backoff and ar = plain_backoff and et = "\<lambda>_. ''error''"
        and bs = "[''kafka'']", folded demo_projector_def, OF d(1,2) plain_backoff_ok plain_backoff_ok an_empty_ok(1) d(3) run(1-3)]
    by blast
  have "(a3, b3) = s3" using l run(1-3) d(1,2) by (simp add: handleFetchedMessage_def ocatch_def deadLetterAndCommit_def)
  then have mk: "markProcessedWithRetry demo_projector (ae_ID demo_env) (a3, b3) = (Inr False, (a3, b3))"
    using run(4-6) by (auto simp: markProcessedWithRetry_def demo_retry on_db_def at_MarkProcessed_def an_exec_def obind_def an_fault_def)
  obtain fs dl ack where b3: "b3 = (fs, dl, ack)" by (metis surj_pair)
  show ?thesis using l later mk by (auto simp: b3 demo_commit pos_def demo_message_def)
qed

definition demo_published :: ce_event where
  "demo_published = \<lparr>ce_specversion = ''1.0'', ce_id = ''e1'', ce_source = ''/warehouse/workforce-management'',
     ce_type = TypeLaborAssigned, ce_subject = ''a'', ce_time = 5, ce_dataschema = ce_DataSchema ''analytics'' ''LaborAssigned'' 1,
     ce_datacontenttype = ''application/json'', ce_data = JObj [(''associate_id'', JStr ''a''), (''path_id'', JStr ''pick'')]\<rparr>"

definition demo_codec :: sdk where
  "demo_codec = \<lparr>sdk_validate = (\<lambda>_. None),
     sdk_marshal = (\<lambda>e. if e = demo_published then Inr ''m1'' else Inl (Other ''not in the table'')),
     sdk_unmarshal = (\<lambda>v. if v = ''m1'' then Inr demo_published else Inl (Other ''invalid JSON''))\<rparr>"

lemma demo_codec_ok: "codec_ok demo_codec"
  unfolding codec_ok_def demo_codec_def
  by (auto split: if_splits intro!: exI [of _ "ce_data demo_published"])

end
