(* ===== verification/Pipeline.thy ===== *)
theory Pipeline
  imports PgProperties Relay Projector "HOL-Library.Sublist"
begin

text \<open>
  The transactional outbox as a whole: what every request adds to \<open>outbox_events\<close>, that no event is
  lost or invented between a commit and the broker, whatever fails in between, and how a committed
  event reaches the read model of the reports.
\<close>

section \<open>Operations that leave the outbox and its sequence alone\<close>

definition seq_fixed :: "(pg, 'a) op \<Rightarrow> bool" where
  "seq_fixed m \<longleftrightarrow> (\<forall>s r s'. m s = (r, s') \<longrightarrow> pg_seq s' = pg_seq s \<and> suffix (pg_ids s') (pg_ids s))"

lemma seq_fixedD: "seq_fixed m \<Longrightarrow> m s = (r, s') \<Longrightarrow> pg_seq s' = pg_seq s"
  by (simp add: seq_fixed_def)

lemma seq_fixed_ids: "seq_fixed m \<Longrightarrow> m s = (r, s') \<Longrightarrow> suffix (pg_ids s') (pg_ids s)"
  by (simp add: seq_fixed_def)

lemma seq_both: "seq_fixed m \<Longrightarrow> m s = (r, s') \<Longrightarrow> pg_seq s' = pg_seq s \<and> suffix (pg_ids s') (pg_ids s)"
  by (simp add: seq_fixed_def)

lemma seq_pure: "seq_fixed (oret a)" "seq_fixed (ofail e)" "seq_fixed (olift r)" "seq_fixed (Pair x)"
  by (simp_all add: seq_fixed_def)

lemma seq_obind: "seq_fixed m \<Longrightarrow> (\<And>a. seq_fixed (f a)) \<Longrightarrow> seq_fixed (obind m f)"
  unfolding seq_fixed_def by (auto elim!: obind_cases) (meson suffix_order.trans)+

lemma seq_ocatch: "seq_fixed m \<Longrightarrow> (\<And>a. seq_fixed (f a)) \<Longrightarrow> seq_fixed (ocatch m f)"
  unfolding seq_fixed_def ocatch_def by (auto split: prod.splits) (meson suffix_order.trans)+

lemma seq_fault: "seq_fixed pg_fault"
  by (auto simp: seq_fixed_def pg_fault_def split: list.splits option.splits)

lemma seq_stmt: "seq_fixed (pg_stmt q)"
  unfolding seq_fixed_def pg_stmt_def
  by (auto split: option.splits prod.splits sum.splits if_splits dest!: seq_both [OF seq_fault])

lemma seq_query: "seq_fixed (pg_query q)"
  unfolding pg_query_def by (rule seq_stmt)

lemma seq_tx: "seq_fixed pg_Begin" "seq_fixed pg_Commit" "seq_fixed pg_Rollback"
  unfolding seq_fixed_def pg_Begin_def pg_Commit_def pg_Rollback_def pg_closed_def
  by (auto split: option.splits prod.splits sum.splits if_splits elim!: obind_cases dest!: seq_both [OF seq_fault])

lemma seq_each: "seq_fixed (pg_each q xs)"
  by (induction xs) (auto intro!: seq_pure seq_obind seq_stmt)

lemma seq_then: "seq_fixed m \<Longrightarrow> m s = (r, s') \<Longrightarrow> pg_seq s = pg_seq s0 \<Longrightarrow> suffix (pg_ids s) (pg_ids s0) \<Longrightarrow>
    pg_seq s' = pg_seq s0 \<and> suffix (pg_ids s') (pg_ids s0)"
  using seq_both [of m s r s'] by (auto intro: suffix_order.trans)

lemma seq_beginOrJoin:
  assumes "seq_fixed body"
  shows "seq_fixed (beginOrJoin body)"
  unfolding seq_fixed_def
proof (intro allI impI)
  fix s r s' assume u: "beginOrJoin body s = (r, s')"
  obtain rb s0 where b: "pg_Begin s = (rb, s0)" by fastforce
  obtain rf s1 where f: "body s0 = (rf, s1)" by fastforce
  obtain rc s2 where c: "pg_Commit s1 = (rc, s2)" by fastforce
  obtain rr s3 where x: "pg_Rollback s1 = (rr, s3)" by fastforce
  obtain ry s4 where y: "pg_Rollback s2 = (ry, s4)" by fastforce
  note 0 = seq_both [OF seq_tx(1) b]
  note 1 = seq_then [OF assms f conjunct1 [OF 0] conjunct2 [OF 0]]
  note 2 = seq_then [OF seq_tx(2) c conjunct1 [OF 1] conjunct2 [OF 1]]
  note 3 = seq_then [OF seq_tx(3) x conjunct1 [OF 1] conjunct2 [OF 1]]
  note 4 = seq_then [OF seq_tx(3) y conjunct1 [OF 2] conjunct2 [OF 2]]
  show "pg_seq s' = pg_seq s \<and> suffix (pg_ids s') (pg_ids s)"
    using u b f c x y 0 1 2 3 4 seq_both [OF assms, of s r s']
    by (auto simp: beginOrJoin_def obind_def split: if_splits sum.splits prod.splits option.splits)
qed

lemmas seq_intros = seq_pure seq_obind seq_ocatch seq_query seq_stmt seq_each seq_beginOrJoin

lemma seq_reads: "seq_fixed (pg_FindByID i)" "seq_fixed (pg_FindByAssociateID i)" "seq_fixed (pg_CountActiveByPath p)"
  "seq_fixed (pg_FindByBuildingAndShift ord b sh)"
  unfolding pg_FindByID_def pg_FindByAssociateID_def pg_CountActiveByPath_def pg_FindByBuildingAndShift_def
  by (auto intro!: seq_intros simp: Let_def split: option.splits)

lemma seq_saves: "seq_fixed (pg_Save_assoc a)" "seq_fixed (pg_Save_asg l)" "seq_fixed (pg_Save_plan sp)"
  unfolding pg_Save_assoc_def pg_Save_asg_def pg_Save_plan_def
  by (auto intro!: seq_intros split: option.splits)

lemma seq_mint: "seq_fixed (omint pg_mint)"
  by (auto simp: seq_fixed_def omint_def pg_mint_def suffix_def split: list.splits prod.splits)

lemma seq_encode_lines: "seq_fixed (encode_lines k pg_mint trace t b sh lines)"
  by (induction lines) (auto intro!: seq_intros seq_mint split: sum.splits)

lemma seq_Publisher_Encode: "seq_fixed (Publisher_Encode k pg_mint trace (pg_FindByBuildingAndShift ord) es)"
proof (induction es)
  case (Cons e es)
  then show ?case by (cases e) (auto intro!: seq_intros seq_reads seq_encode_lines split: sum.splits)
qed (simp add: seq_pure)

lemma seq_Analytics_Encode: "seq_fixed (Analytics_Encode k pg_mint trace es)"
  by (induction es) (auto intro!: seq_intros seq_mint simp: Let_def split: sum.splits)

section \<open>What an operation adds to the outbox\<close>

definition new_rows :: "int \<Rightarrow> int \<Rightarrow> outbox_row list \<Rightarrow> bool" where
  "new_rows lo hi rows \<longleftrightarrow> sorted_wrt (<) (map ob_id rows)
     \<and> (\<forall>r \<in> set rows. lo \<le> ob_id r \<and> ob_id r < hi \<and> ob_published_at r = None \<and> ob_topic r \<noteq> ''''
          \<and> (\<exists>hs. ob_headers r = marshalHeaders hs))"

text \<open>Rows are only appended, under ids drawn from the sequence meanwhile.\<close>

definition grows :: "pg \<Rightarrow> pg \<Rightarrow> bool" where
  "grows s s' \<longleftrightarrow> same_conn s s' \<and> pg_seq s \<le> pg_seq s'
     \<and> (\<exists>rows. t_outbox (cur s') = t_outbox (cur s) @ rows \<and> new_rows (pg_seq s) (pg_seq s') rows)"

definition appends :: "(pg, 'a) op \<Rightarrow> bool" where
  "appends m \<longleftrightarrow> (\<forall>s r s'. m s = (r, s') \<longrightarrow> grows s s')"

lemma appendsD: "appends m \<Longrightarrow> m s = (r, s') \<Longrightarrow> grows s s'"
  by (simp add: appends_def)

lemma new_rows_Nil [simp]: "new_rows lo hi []"
  by (simp add: new_rows_def)

lemma new_rows_append: "new_rows a b xs \<Longrightarrow> new_rows b c ys \<Longrightarrow> a \<le> b \<Longrightarrow> b \<le> c \<Longrightarrow> new_rows a c (xs @ ys)"
  by (fastforce simp: new_rows_def sorted_wrt_append)

lemma grows_refl [simp]: "grows s s"
  by (auto simp: grows_def)

lemma grows_trans: "grows s t \<Longrightarrow> grows t u \<Longrightarrow> grows s u"
  unfolding grows_def by (fastforce intro: same_conn_trans new_rows_append)

lemma appends_pure: "appends (oret a)" "appends (ofail e)" "appends (olift r)" "appends (Pair x)"
  by (simp_all add: appends_def)

lemma appends_obind: "appends m \<Longrightarrow> (\<And>a. appends (f a)) \<Longrightarrow> appends (obind m f)"
  unfolding appends_def by (blast elim!: obind_cases intro: grows_trans)

lemma appends_ocatch: "appends m \<Longrightarrow> (\<And>a. appends (f a)) \<Longrightarrow> appends (ocatch m f)"
  unfolding appends_def ocatch_def by (auto split: prod.splits) (blast intro: grows_trans)

lemma appends_quiet:
  assumes "seq_fixed m" "\<And>X. pg_keeps (\<lambda>d. t_outbox d = X) m"
  shows "appends m"
  unfolding appends_def grows_def
proof (intro allI impI)
  fix s r s' assume m: "m s = (r, s')"
  show "same_conn s s' \<and> pg_seq s \<le> pg_seq s' \<and> (\<exists>rows. t_outbox (cur s') = t_outbox (cur s) @ rows \<and> new_rows (pg_seq s) (pg_seq s') rows)"
    using seq_fixedD [OF assms(1) m] pg_keepsD [OF assms(2) [of "t_outbox (cur s)"] m] by (auto intro: exI [of _ "[]"])
qed



lemma seq_now: "seq_fixed (onow (pg_ports k trace ord))"
  by (auto simp: seq_fixed_def onow_def pg_Now_def split: prod.splits list.splits)

lemma appends_ports:
  "appends (pg_FindByID i)" "appends (pg_FindByAssociateID i)" "appends (pg_CountActiveByPath p)"
  "appends (pg_FindByBuildingAndShift ord b sh)" "appends (pg_Save_assoc a)" "appends (pg_Save_asg l)"
  "appends (pg_Save_plan sp)" "appends (onow (pg_ports k trace ord))"
  by (rule appends_quiet, rule seq_reads seq_saves seq_now, rule keeps_reads keeps_outbox keeps_now)+

section \<open>Publishing\<close>

lemma outbox_insert_cases:
  assumes "outbox_insert m s = (r, s')"
  shows "same_conn s s' \<and> pg_seq s' = pg_seq s + 1 \<and> (case r of
      Inl e \<Rightarrow> cur s' = cur s
    | Inr _ \<Rightarrow> \<exists>t. t_outbox (cur s') = t_outbox (cur s) @ [\<lparr>ob_id = pg_seq s, ob_topic = en_Topic m,
         ob_event_type = en_EventType m, ob_key = en_Key m, ob_value = en_Value m,
         ob_headers = marshalHeaders (en_Headers m), ob_created_at = t, ob_published_at = None,
         ob_attempts = 0, ob_last_error = None\<rparr>])"
proof -
  have c: "cur (s\<lparr>pg_seq := pg_seq s + 1\<rparr>) = cur s" by (simp add: cur_def cong: option.case_cong)
  note st = assms [unfolded outbox_insert_def]
  show ?thesis using pg_stmt_cases [OF st] seq_fixedD [OF seq_stmt st] unfolding c
    by (cases r) (auto simp: same_conn_def dest: sym [of "db.t_outbox_update _ _"])
qed

lemma outbox_insert_ids:
  assumes "outbox_insert m s = (r, s')"
  shows "suffix (pg_ids s') (pg_ids s)"
  using seq_fixed_ids [OF seq_stmt assms [unfolded outbox_insert_def]] by simp

lemma outbox_insert_all_ids: "outbox_insert_all ms s = (r, s') \<Longrightarrow> suffix (pg_ids s') (pg_ids s)"
proof (induction ms arbitrary: s)
  case (Cons m ms)
  obtain q s1 where i: "outbox_insert m s = (q, s1)" by fastforce
  then show ?case using Cons outbox_insert_ids [OF i]
    by (cases q) (auto simp: ocatch_app intro: suffix_order.trans)
qed simp

text \<open>The row a message is stored as.\<close>

definition stored_as :: "Encoded \<Rightarrow> outbox_row \<Rightarrow> bool" where
  "stored_as m r \<longleftrightarrow> ob_topic r = en_Topic m \<and> ob_event_type r = en_EventType m \<and> ob_key r = en_Key m
     \<and> ob_value r = en_Value m \<and> ob_headers r = marshalHeaders (en_Headers m) \<and> ob_published_at r = None"

lemma outbox_insert_all_cases:
  assumes "outbox_insert_all ms s = (r, s')" "\<forall>m \<in> set ms. en_Topic m \<noteq> ''''"
  shows "grows s s' \<and> (r = Inr () \<longrightarrow> (\<exists>rows. t_outbox (cur s') = t_outbox (cur s) @ rows
    \<and> new_rows (pg_seq s) (pg_seq s') rows \<and> list_all2 stored_as ms rows))"
  using assms
proof (induction ms arbitrary: s)
  case Nil
  then show ?case by auto
next
  case (Cons m ms)
  obtain q s1 where i: "outbox_insert m s = (q, s1)" by fastforce
  note c = outbox_insert_cases [OF i]
  show ?case
  proof (cases q)
    case (Inl e)
    then have "s' = s1" "\<exists>e. r = Inl e" using Cons.prems(1) i by (auto simp: ocatch_app)
    then show ?thesis using c Inl by (auto simp: grows_def intro!: exI [of _ "[]"])
  next
    case (Inr u)
    then obtain row where row: "t_outbox (cur s1) = t_outbox (cur s) @ [row]" "stored_as m row"
      "new_rows (pg_seq s) (pg_seq s1) [row]"
      using c Cons.prems(2) by (auto simp: stored_as_def new_rows_def) blast
    then have g: "grows s s1" using c by (auto simp: grows_def)
    have rest: "outbox_insert_all ms s1 = (r, s')" using Cons.prems(1) i Inr by (simp add: ocatch_app)
    note ih = Cons.IH [OF rest]
    have g': "grows s1 s'" using ih Cons.prems(2) by simp
    have "\<exists>rows. t_outbox (cur s') = t_outbox (cur s) @ rows \<and> new_rows (pg_seq s) (pg_seq s') rows
        \<and> list_all2 stored_as (m # ms) rows" if ok: "r = Inr ()"
    proof -
      obtain rows where rows: "t_outbox (cur s') = t_outbox (cur s1) @ rows" "new_rows (pg_seq s1) (pg_seq s') rows"
        "list_all2 stored_as ms rows" using ih Cons.prems(2) ok by auto
      have "pg_seq s \<le> pg_seq s1" "pg_seq s1 \<le> pg_seq s'" using g g' by (auto simp: grows_def)
      then show ?thesis using rows row new_rows_append [OF row(3) rows(2)] by (intro exI [of _ "row # rows"]) simp
    qed
    then show ?thesis using grows_trans [OF g g'] by blast
  qed
qed

text \<open>The two encoders of the wiring: what they read they leave alone, and every message has its topic.\<close>

lemma encode_lines_topic:
  "encode_lines k newID trace t b sh lines s = (Inr ms, s') \<Longrightarrow> \<forall>m \<in> set ms. en_Topic m = Topic"
  by (induction lines arbitrary: s ms) (auto elim!: obind_InrE split: sum.splits)

lemma Publisher_Encode_topic:
  "Publisher_Encode k newID trace plans es s = (Inr ms, s') \<Longrightarrow> \<forall>m \<in> set ms. en_Topic m = Topic"
proof (induction es arbitrary: s ms)
  case (Cons e es)
  then show ?case
    by (cases e) (fastforce simp: ocatch_app elim!: obind_InrE dest!: encode_lines_topic split: prod.splits sum.splits)+
qed simp

lemma Analytics_Encode_topic:
  "Analytics_Encode k newID trace es s = (Inr ms, s') \<Longrightarrow> \<forall>m \<in> set ms. en_Topic m = AnalyticsTopic"
  by (induction es arbitrary: s ms) (fastforce simp: Let_def elim!: obind_InrE split: sum.splits)+

lemma topics: "Topic \<noteq> ''''" "AnalyticsTopic \<noteq> ''''" "Topic \<noteq> AnalyticsTopic"
  by (simp_all add: Topic_def AnalyticsTopic_def)

definition topical :: "(DomainEvent list \<Rightarrow> (pg, Encoded list) op) \<Rightarrow> bool" where
  "topical enc \<longleftrightarrow> (\<forall>es. appends (enc es)) \<and> (\<forall>es s ms s'. enc es s = (Inr ms, s') \<longrightarrow> (\<forall>m \<in> set ms. en_Topic m \<noteq> ''''))"

lemma pg_encoders_topical: "enc \<in> set (pg_encoders k trace ord) \<Longrightarrow> topical enc"
  unfolding pg_encoders_def topical_def
  using Publisher_Encode_topic [of k pg_mint trace "pg_FindByBuildingAndShift ord"] Analytics_Encode_topic [of k pg_mint trace]
    topics(1,2)
  by (auto intro!: appends_quiet seq_Publisher_Encode seq_Analytics_Encode keeps_Publisher_Encode keeps_Analytics_Encode)

lemma appends_encoders: "(\<And>enc. enc \<in> set encs \<Longrightarrow> topical enc) \<Longrightarrow> appends (outbox_encoders encs es)"
proof (induction encs)
  case Nil
  then show ?case by (simp add: appends_pure)
next
  case (Cons enc encs)
  have t: "topical enc" and rest: "appends (outbox_encoders encs es)" using Cons by auto
  show ?case unfolding appends_def
  proof (intro allI impI)
    fix s r s' assume a: "outbox_encoders (enc # encs) es s = (r, s')"
    obtain q s1 where e: "enc es s = (q, s1)" by fastforce
    have g: "grows s s1" using t e by (auto simp: topical_def dest: appendsD)
    show "grows s s'"
    proof (cases q)
      case (Inl x)
      then show ?thesis using a e g by (auto simp: ocatch_app)
    next
      case (Inr ms)
      obtain u s2 where i: "outbox_insert_all ms s1 = (u, s2)" by fastforce
      have "\<forall>m \<in> set ms. en_Topic m \<noteq> ''''" using t e Inr unfolding topical_def by blast
      then have "grows s1 s2" using outbox_insert_all_cases [OF i] by blast
      then have "grows s s2" using g grows_trans by blast
      moreover have "u = Inr () \<Longrightarrow> grows s2 s'" using a e i Inr appendsD [OF rest] by (auto simp: ocatch_app obind_def)
      moreover have "u \<noteq> Inr () \<Longrightarrow> s' = s2" using a e i Inr by (cases u) (auto simp: ocatch_app obind_def)
      ultimately show ?thesis using grows_trans by (cases "u = Inr ()") auto
    qed
  qed
qed

lemma appends_Publish: "appends (OutboxPublisher_Publish (pg_encoders k trace ord) es)"
  by (simp add: OutboxPublisher_Publish_def appends_pure appends_encoders pg_encoders_topical)

section \<open>Requests\<close>

lemma uow_commit:
  assumes "UnitOfWork_Execute f s = (Inr (), s')" "pg_tx s = None" "pg_keeps db_inv f"
  shows "\<exists>s0 s1. cur s0 = pg_db s \<and> pg_seq s0 = pg_seq s \<and> pg_tx s0 \<noteq> None \<and> f s0 = (Inr (), s1)
    \<and> pg_db s' = cur s1 \<and> pg_seq s' = pg_seq s1 \<and> pg_tx s' = None
    \<and> suffix (pg_ids s0) (pg_ids s) \<and> suffix (pg_ids s') (pg_ids s1)"
proof -
  obtain rb s0 where b: "pg_Begin s = (rb, s0)" by fastforce
  obtain rf s1 where f: "f s0 = (rf, s1)" by fastforce
  obtain rc s2 where c: "pg_Commit s1 = (rc, s2)" by fastforce
  have "(\<exists>u. rb = Inr u) \<and> (\<exists>u. rf = Inr u) \<and> (\<exists>u. rc = Inr u) \<and> s2 = s'"
    using assms(1,2) b f c by (auto simp: UnitOfWork_Execute_def split: sum.splits prod.splits if_splits)
  then have r: "rb = Inr ()" "rf = Inr ()" "rc = Inr ()" "s2 = s'" by auto
  have b': "pg_tx s0 = Some (pg_db s)" "pg_seq s0 = pg_seq s"
    using pg_Begin_cases [OF b assms(2)] seq_fixedD [OF seq_tx(1) b] r(1) by auto
  then obtain d where d: "pg_tx s1 = Some d" using pg_keepsD [OF assms(3) f] by (auto simp: same_conn_def)
  show ?thesis
    using pg_Commit_cases [OF c d] seq_both [OF seq_tx(2) c] seq_fixed_ids [OF seq_tx(1) b] b' f r d
    by (intro exI [of _ s0] exI [of _ s1]) (auto simp: cur_def)
qed

text \<open>The sequence only moves forward, also under a unit of work that fails.\<close>

lemma uow_seq:
  assumes "UnitOfWork_Execute f s = (r, s')" "appends f"
  shows "pg_seq s \<le> pg_seq s'"
proof -
  have f: "f t = (q, t') \<Longrightarrow> pg_seq t \<le> pg_seq t'" for t q t' using appendsD [OF assms(2)] by (auto simp: grows_def)
  show ?thesis using assms(1)
    by (auto simp: UnitOfWork_Execute_def split: if_splits prod.splits sum.splits
        dest!: f seq_fixedD [OF seq_tx(1)] seq_fixedD [OF seq_tx(2)] seq_fixedD [OF seq_tx(3)])
qed

lemma appends_uow:
  assumes "appends f" "pg_keeps db_inv f"
  shows "appends (UnitOfWork_Execute f)"
  unfolding appends_def
proof (intro allI impI)
  fix s r s' assume u: "UnitOfWork_Execute f s = (r, s')"
  show "grows s s'"
  proof (cases "pg_tx s")
    case (Some d)
    then show ?thesis using u appendsD [OF assms(1)] by (simp add: UnitOfWork_Execute_def)
  next
    case None
    have q: "pg_seq s \<le> pg_seq s'" by (rule uow_seq [OF u assms(1)])
    note c = uow_cases [OF u None, unfolded pg_inner_def, OF assms(2)]
    show ?thesis
    proof (cases r)
      case (Inl e)
      then show ?thesis using c None q by (auto simp: grows_def same_conn_def cur_def intro!: exI [of _ "[]"])
    next
      case (Inr x)
      then obtain s0 s1 where w: "cur s0 = pg_db s" "pg_seq s0 = pg_seq s" "f s0 = (Inr (), s1)" "pg_db s' = cur s1"
        "pg_seq s' = pg_seq s1" "pg_tx s' = None"
        using uow_commit [OF _ None assms(2), of s'] u by auto
      have "grows s0 s1" by (rule appendsD [OF assms(1) w(3)])
      then show ?thesis using w None by (auto simp: grows_def same_conn_def cur_def)
    qed
  qed
qed

text \<open>Every request of the service: the reads add nothing, and the atomic scope what it publishes.\<close>

lemma appends_atomically:
  assumes "appends f" "pg_inner f"
  shows "appends (atomically (pg_ports k trace ord) f)"
  using appends_uow assms by (simp add: atomically_def pg_inner_def)

lemmas appends_intros = appends_pure appends_obind appends_ocatch appends_ports appends_Publish

lemma appends_bodies:
  fixes k trace ord
  defines "P \<equiv> pg_ports k trace ord"
  shows "appends (atomically P (save_and_publish P a))" "appends (atomically P (assign_body P ch l))"
    "appends (atomically P (end_body P ch' a))" "appends (atomically P (commit_body P sp))"
    "appends (atomically P (OutboxPublisher_Publish (pg_encoders k trace ord) es))"
  unfolding P_def
  by (rule appends_atomically; auto simp: save_and_publish_def assign_body_def end_body_def commit_body_def
      intro!: appends_intros pg_inner_intros split: option.splits)+



lemma appends_omapM: "(\<And>x. appends (f x)) \<Longrightarrow> appends (omapM f xs)"
  by (induction xs) (auto intro!: appends_intros)

lemma appends_ceiling: "(\<And>c. appends (cap c)) \<Longrightarrow> appends (ceiling_loop cap raws b n memo)"
  by (induction raws arbitrary: b n memo) (auto intro!: appends_intros split: option.splits)

lemma appends_capacities:
  assumes "\<And>c. appends (cap c)" "\<And>p. appends (lookup p)"
  shows "appends (capacities lookup cap lines inst memo)"
  using assms
  by (induction lines arbitrary: inst memo)
    (auto simp: installedCapacityForPath_def intro!: appends_intros appends_ceiling split: option.splits sum.splits)

lemma appends_cmd: "appends (run_cmd (pg_deps k trace ord lk cap mr idle th mx plat) c)"
  by (cases c)
    (auto simp: pg_deps_def done_with_def StartAssociateShift_Execute_def CertifyAssociate_Execute_def StartBreak_Execute_def
      EndBreak_Execute_def AssignLabor_Execute_def assign_prepare_def find_or_new_assignment_def EndAssociateShift_Execute_def
      CommitShiftPlan_Execute_def ProposePathPlan_Execute_def resolve_rate_def applyIdleShareTrim_def GetStaffingGap_Execute_def
      GetStaffingGap_ExecuteAll_def gapForLine_def observedIdlePct_def Let_def
      intro!: appends_intros appends_bodies appends_omapM appends_capacities split: option.splits sum.splits)

section \<open>The relay only marks\<close>

text \<open>A row without the relay's bookkeeping.\<close>

definition core :: "outbox_row \<Rightarrow> outbox_row" where
  "core r = r\<lparr>ob_published_at := None, ob_attempts := 0, ob_last_error := None\<rparr>"

lemma core_sel [simp]: "ob_id (core r) = ob_id r" "ob_topic (core r) = ob_topic r" "ob_headers (core r) = ob_headers r"
  "row_message (core r) = row_message r"
  by (simp_all add: core_def row_message_def row_encoded_def row_headers_def)

definition cores :: "db \<Rightarrow> outbox_row list" where
  "cores d = map core (t_outbox d)"

definition both :: "(db \<Rightarrow> bool) \<Rightarrow> pg \<Rightarrow> bool" where
  "both Q s \<longleftrightarrow> Q (pg_db s) \<and> Q (cur s)"

lemma both_None: "pg_tx s = None \<Longrightarrow> both Q s = Q (pg_db s)"
  by (simp add: both_def cur_def)

lemma both_keeps: "pg_keeps Q m \<Longrightarrow> m s = (r, s') \<Longrightarrow> both Q s \<Longrightarrow> both Q s'"
  by (cases "pg_tx s") (auto simp: both_def same_conn_def cur_def dest!: pg_keepsD split: option.splits)

lemma both_tx:
  "pg_Begin s = (r, s') \<Longrightarrow> both Q s \<Longrightarrow> both Q s'" "pg_Commit s = (r, s') \<Longrightarrow> both Q s \<Longrightarrow> both Q s'"
  "pg_Rollback s = (r, s') \<Longrightarrow> both Q s \<Longrightarrow> both Q s'"
  by (auto simp: both_def cur_def pg_Begin_def pg_Commit_def pg_Rollback_def pg_closed_def
      split: option.splits prod.splits sum.splits if_splits elim!: obind_cases dest!: pg_fault_cases)

lemma update_row_cores:
  assumes "\<And>r. core (f r) = core r"
  shows "pg_keeps (\<lambda>d. cores d = C) (pg_stmt (update_row i f))"
proof (rule pg_keeps_stmt)
  fix d a d' assume "cores d = C" "update_row i f d = Inr (a, d')"
  moreover have "map core (map (\<lambda>r. if ob_id r = i then f r else r) rs) = map core rs" for rs
    using assms by auto
  ultimately show "cores d' = C" by (auto simp: update_row_def cores_def simp del: map_map)
qed

lemma keeps_mark: "pg_keeps (\<lambda>d. cores d = C) (mark_published i)"
  unfolding pg_keeps_def mark_published_def
proof (intro allI impI)
  fix s :: pg and r s'
  let ?f = "\<lambda>r. r\<lparr>ob_published_at := Some (pg_now s), ob_attempts := ob_attempts r + 1, ob_last_error := None\<rparr>"
  assume "pg_stmt (update_row i ?f) s = (r, s')"
  then show "same_conn s s' \<and> (cores (cur s) = C \<longrightarrow> cores (cur s') = C)"
    using pg_keepsD [OF update_row_cores [of ?f C i]] by (simp add: core_def)
qed

lemma keeps_claim: "pg_keeps Q (claim n lk)"
  unfolding claim_def by (auto intro!: pg_keeps_intros split: sum.splits)

lemma seq_relay: "seq_fixed (mark_published i)" "seq_fixed (claim n lk)"
  unfolding claim_def mark_published_def
  by (auto simp: seq_fixed_def dest!: seq_both [OF seq_stmt])
    (auto simp: ocatch_app split: prod.splits sum.splits dest!: seq_both [OF seq_query])

lemma failRow_keeps:
  assumes "failRow p e s = (e', s')"
  shows "pg_seq s' = pg_seq s \<and> (both (\<lambda>d. cores d = C) s \<longrightarrow> both (\<lambda>d. cores d = C) s')"
proof -
  let ?f = "\<lambda>r. r\<lparr>ob_attempts := ob_attempts r + 1, ob_last_error := Some e\<rparr>"
  obtain u s1 where u: "pg_stmt (update_row (fst p) ?f) s = (u, s1)" by fastforce
  obtain c s2 where c: "pg_Commit s1 = (c, s2)" by fastforce
  have s': "s' = s2" using assms u c by (auto simp: failRow_def Let_def)
  have k: "pg_keeps (\<lambda>d. cores d = C) (pg_stmt (update_row (fst p) ?f))" by (rule update_row_cores) (simp add: core_def)
  show ?thesis
    using both_keeps [OF k u] both_tx(2) [OF c] seq_fixedD [OF seq_stmt u] seq_fixedD [OF seq_tx(2) c] s' by auto
qed

lemma flush_keeps:
  "flush send ps n (s, w) = ((k, e), (s', w')) \<Longrightarrow>
    pg_seq s' = pg_seq s \<and> (both (\<lambda>d. cores d = C) s \<longrightarrow> both (\<lambda>d. cores d = C) s')"
proof (induction ps arbitrary: n s w)
  case Nil
  obtain c s1 where c: "pg_Commit s = (c, s1)" by fastforce
  then have "s' = s1" using Nil by (auto split: sum.splits if_splits)
  then show ?case using both_tx(2) [OF c] seq_fixedD [OF seq_tx(2) c] by auto
next
  case (Cons p ps)
  obtain r w1 where r: "send [snd p] w = (r, w1)" by fastforce
  show ?case
  proof (cases r)
    case (Inl x)
    obtain e1 s1 where f: "failRow p x s = (e1, s1)" by fastforce
    then show ?thesis using Cons.prems r Inl failRow_keeps [OF f] by auto
  next
    case (Inr u)
    obtain q s1 where m: "mark_published (fst p) s = (q, s1)" by fastforce
    note k = both_keeps [OF keeps_mark m] seq_fixedD [OF seq_relay(1) m]
    show ?thesis
    proof (cases q)
      case (Inl x)
      then show ?thesis using Cons.prems r Inr m k by auto
    next
      case q: (Inr v)
      then have "flush send ps (n + 1) (s1, w1) = ((k, e), (s', w'))" using Cons.prems r Inr m by simp
      then show ?thesis using Cons.IH k by fastforce
    qed
  qed
qed

lemma RelayOnce_keeps:
  assumes "RelayOnce send n lk (s, w) = (res, (s', w'))"
  shows "pg_seq s' = pg_seq s \<and> (both (\<lambda>d. cores d = C) s \<longrightarrow> both (\<lambda>d. cores d = C) s')"
proof -
  obtain b s0 where b: "pg_Begin s = (b, s0)" by fastforce
  obtain c s1 where c: "claim n lk s0 = (c, s1)" by fastforce
  obtain q s2 where q: "pg_Rollback s1 = (q, s2)" by fastforce
  note k = both_tx(1) [OF b] both_keeps [OF keeps_claim c] both_tx(3) [OF q]
    seq_fixedD [OF seq_tx(1) b] seq_fixedD [OF seq_relay(2) c] seq_fixedD [OF seq_tx(3) q]
  show ?thesis
  proof (cases "b = Inr () \<and> (\<exists>batch. c = Inr batch)")
    case False
    then have "s' = s0 \<or> s' = s2" using assms b c q by (cases b; cases c) (auto simp: RelayOnce_def)
    then show ?thesis using k False assms b c q by (cases b; cases c) (auto simp: RelayOnce_def)
  next
    case True
    then obtain batch where batch: "c = Inr batch" by blast
    obtain ke s3 w3 where f: "flush send batch 0 (s1, w) = (ke, (s3, w3))" by (metis surj_pair)
    obtain q' s4 where q': "pg_Rollback s3 = (q', s4)" by fastforce
    have "s' = s4" using assms b c f q' True batch by (auto simp: RelayOnce_def)
    then show ?thesis
      using k flush_keeps [of send batch 0 s1 w "fst ke" "snd ke" s3 w3] f both_tx(3) [OF q'] seq_fixedD [OF seq_tx(3) q']
      by auto
  qed
qed

section \<open>Requests and relay passes\<close>

text \<open>
  The service and its relays, one request or one pass after the other in any order, each with whatever
  failures the fault script and the broker hold for it.
\<close>

datatype sys_step = Request wf_cmd | Pass int "int set"

fun system :: "pg wf_deps \<Rightarrow> (Encoded list \<Rightarrow> ('w, unit) op) \<Rightarrow> sys_step list \<Rightarrow> 'w relay \<Rightarrow> 'w relay" where
  "system D send [] sw = sw"
| "system D send (Request c # xs) (s, w) = system D send xs (snd (run_cmd D c s), w)"
| "system D send (Pass n lk # xs) sw = system D send xs (snd (RelayOnce send n lk sw))"

text \<open>
  Every row is well-formed and below the sequence, what is marked published has been sent, and what
  has been sent since the broker held \<open>old\<close> is a row.
\<close>

definition pipe_inv :: "('w \<Rightarrow> Message list) \<Rightarrow> Message list \<Rightarrow> 'w relay \<Rightarrow> bool" where
  "pipe_inv dlog old sw \<longleftrightarrow> (case sw of (s, w) \<Rightarrow>
     pg_tx s = None \<and> outbox_ok (pg_db s) \<and> (\<forall>r \<in> set (t_outbox (pg_db s)). ob_id r < pg_seq s)
     \<and> (\<exists>sent. dlog w = old @ sent
          \<and> (\<forall>r \<in> set (t_outbox (pg_db s)). ob_published_at r \<noteq> None \<longrightarrow> row_message r \<in> set sent)
          \<and> set sent \<subseteq> row_message ` set (t_outbox (pg_db s))))"

lemma request_inv:
  assumes "run_cmd (pg_deps k trace ord lk cap mr idle th mx plat) c s = (r, s')" "pipe_inv dlog old (s, w)"
  shows "pipe_inv dlog old (s', w) \<and> (\<exists>more. cores (pg_db s') = cores (pg_db s) @ more)"
proof -
  have g: "grows s s'" by (rule appendsD [OF appends_cmd assms(1)])
  have t: "pg_tx s = None" "pg_tx s' = None" using g assms(2) by (auto simp: grows_def same_conn_def pipe_inv_def)
  then obtain rows where rows: "t_outbox (pg_db s') = t_outbox (pg_db s) @ rows" "new_rows (pg_seq s) (pg_seq s') rows"
    and q: "pg_seq s \<le> pg_seq s'"
    using g by (auto simp: grows_def cur_def)
  have n: "\<forall>r \<in> set rows. pg_seq s \<le> ob_id r \<and> ob_id r < pg_seq s' \<and> ob_published_at r = None \<and> ob_topic r \<noteq> ''''
      \<and> (\<exists>hs. ob_headers r = marshalHeaders hs)" "distinct (map ob_id rows)"
    using rows(2) by (auto simp: new_rows_def strict_sorted_iff)
  have "ob_id ` set (t_outbox (pg_db s)) \<inter> ob_id ` set rows = {}"
    using n(1) assms(2) by (fastforce simp: pipe_inv_def)
  then have "outbox_ok (pg_db s')"
    using assms(2) n rows(1) by (auto simp: pipe_inv_def outbox_ok_def)
  moreover have "\<forall>r \<in> set (t_outbox (pg_db s')). ob_id r < pg_seq s'"
    using assms(2) n(1) q rows(1) by (fastforce simp: pipe_inv_def)
  moreover obtain sent where sent: "dlog w = old @ sent" "set sent \<subseteq> row_message ` set (t_outbox (pg_db s))"
    "\<forall>r \<in> set (t_outbox (pg_db s)). ob_published_at r \<noteq> None \<longrightarrow> row_message r \<in> set sent"
    using assms(2) by (auto simp: pipe_inv_def)
  moreover have "\<forall>r \<in> set (t_outbox (pg_db s')). ob_published_at r \<noteq> None \<longrightarrow> row_message r \<in> set sent"
    using sent(3) n(1) rows(1) by auto
  moreover have "set sent \<subseteq> row_message ` set (t_outbox (pg_db s'))" using sent(2) rows(1) by auto
  ultimately have "pipe_inv dlog old (s', w)" using t(2) by (simp add: pipe_inv_def)
  then show ?thesis using rows(1) by (simp add: cores_def)
qed

lemma marked_row:
  assumes "outbox_ok d'" "cores d' = cores d" "r' \<in> set (t_outbox d')" "ob_published_at r' \<noteq> None"
    and "pub d' = pub d \<union> ob_id ` set rows" "set rows \<subseteq> set (t_outbox d)" "outbox_ok d"
  shows "(\<exists>r \<in> set (t_outbox d). ob_published_at r \<noteq> None \<and> row_message r = row_message r')
    \<or> (\<exists>r \<in> set rows. row_message r = row_message r')"
proof -
  have "core r' \<in> core ` set (t_outbox d)"
    using assms(2,3) unfolding cores_def by (metis image_eqI list.set_map)
  then obtain r where r: "r \<in> set (t_outbox d)" "core r = core r'" by auto
  then have m: "row_message r = row_message r'" "ob_id r = ob_id r'" by (metis core_sel)+
  have uniq: "x = r" if "x \<in> set (t_outbox d)" "ob_id x = ob_id r" for x
    using that r(1) assms(7) by (auto simp: outbox_ok_def distinct_map dest: inj_onD)
  have "ob_id r' \<in> pub d'" using assms(3,4) by (auto simp: pub_def)
  then consider "ob_id r \<in> pub d" | "ob_id r \<in> ob_id ` set rows" using assms(5) m(2) by auto
  then show ?thesis
  proof cases
    case 1
    then show ?thesis using uniq m(1) r(1) by (auto simp: pub_def)
  next
    case 2
    then show ?thesis using uniq m(1) assms(6) by auto
  qed
qed

lemma pass_inv:
  assumes "RelayOnce (RelaySink_Send wr) n lk (s, w) = (res, (s', w'))" "writer_ok wr dlog" "pipe_inv dlog old (s, w)"
  shows "pipe_inv dlog old (s', w') \<and> cores (pg_db s') = cores (pg_db s)"
proof -
  let ?rows = "take (nat n) (claimable lk (pg_db s))"
  have t: "pg_tx s = None" and ok: "outbox_ok (pg_db s)" using assms(3) by (auto simp: pipe_inv_def)
  obtain sent where sent: "dlog w = old @ sent" "set sent \<subseteq> row_message ` set (t_outbox (pg_db s))"
    "\<forall>r \<in> set (t_outbox (pg_db s)). ob_published_at r \<noteq> None \<longrightarrow> row_message r \<in> set sent"
    using assms(3) by (auto simp: pipe_inv_def)
  obtain j m where jm: "j \<le> m" "dlog w' = dlog w @ map row_message (take m ?rows)" "pg_tx s' = None"
    "pg_db s' = pg_db s \<or> pub (pg_db s') = pub (pg_db s) \<union> ob_id ` set (take j ?rows)"
    using RelayOnce_cases [of wr n lk s w "fst res" "snd res" s' w' dlog] assms(1,2) t ok by auto
  have c: "cores (pg_db s') = cores (pg_db s)" and q: "pg_seq s' = pg_seq s"
    using RelayOnce_keeps [OF assms(1), of "cores (pg_db s)"] t jm(3) by (auto simp: both_None)
  have mem: "set ?rows \<subseteq> set (t_outbox (pg_db s))" using claimable_props(3) [OF ok] by (auto dest: in_set_takeD)
  have sub: "set (take j ?rows) \<subseteq> set (take m ?rows)" using jm(1) by (rule set_take_subset_set_take)
  have i: "map ob_id (t_outbox (pg_db s')) = map ob_id (t_outbox (pg_db s))"
    and img: "(\<lambda>r. f (core r)) ` set (t_outbox (pg_db s')) = (\<lambda>r. f (core r)) ` set (t_outbox (pg_db s))" for f :: "outbox_row \<Rightarrow> 'z"
    using arg_cong [OF c [unfolded cores_def], of "map ob_id"] arg_cong [OF c [unfolded cores_def], of "\<lambda>xs. f ` set xs" for f]
    by (simp_all add: o_def image_image)
  have ok': "outbox_ok (pg_db s')"
    using ok i img [of "\<lambda>r. ob_topic r \<noteq> '''' \<and> (\<exists>hs. ob_headers r = marshalHeaders hs)"]
    unfolding outbox_ok_def by auto
  have "ob_id ` set (t_outbox (pg_db s')) = ob_id ` set (t_outbox (pg_db s))" using img [of ob_id] by simp
  moreover have "\<forall>i \<in> ob_id ` set (t_outbox (pg_db s)). i < pg_seq s" using assms(3) by (auto simp: pipe_inv_def)
  ultimately have "\<forall>i \<in> ob_id ` set (t_outbox (pg_db s')). i < pg_seq s'" using q by simp
  then have seq: "\<forall>r \<in> set (t_outbox (pg_db s')). ob_id r < pg_seq s'" by simp
  have msgs: "row_message ` set (t_outbox (pg_db s')) = row_message ` set (t_outbox (pg_db s))"
    using img [of row_message] by simp
  have marked: "row_message r' \<in> set (sent @ map row_message (take m ?rows))"
    if r': "r' \<in> set (t_outbox (pg_db s'))" "ob_published_at r' \<noteq> None" for r'
  proof (cases "pg_db s' = pg_db s")
    case True
    then show ?thesis using r' sent(3) by auto
  next
    case False
    then have p: "pub (pg_db s') = pub (pg_db s) \<union> ob_id ` set (take j ?rows)" using jm(4) by simp
    have "set (take j ?rows) \<subseteq> set (t_outbox (pg_db s))" by (rule subset_trans [OF set_take_subset mem])
    from marked_row [OF ok' c r' p this ok] show ?thesis
    proof (elim disjE bexE conjE)
      fix r assume "r \<in> set (t_outbox (pg_db s))" "ob_published_at r \<noteq> None" "row_message r = row_message r'"
      then have "row_message r' \<in> set sent" using sent(3) by metis
      then show ?thesis by simp
    next
      fix r assume "r \<in> set (take j ?rows)" "row_message r = row_message r'"
      then have "row_message r' \<in> row_message ` set (take m ?rows)" using sub by (metis image_eqI subsetD)
      then show ?thesis by simp
    qed
  qed
  have "pipe_inv dlog old (s', w')"
    unfolding pipe_inv_def prod.case
    using jm(2,3) sent(1,2) ok' seq marked msgs subset_trans [OF set_take_subset mem, of m]
    by (intro conjI exI [of _ "sent @ map row_message (take m ?rows)"]) (auto simp del: take_take)
  then show ?thesis using c by simp
qed

lemma system_inv:
  assumes "writer_ok wr dlog"
  shows "pipe_inv dlog old sw \<Longrightarrow>
    pipe_inv dlog old (system (pg_deps k trace ord lk cap mr idle th mx plat) (RelaySink_Send wr) xs sw)
    \<and> (\<exists>more. cores (pg_db (fst (system (pg_deps k trace ord lk cap mr idle th mx plat) (RelaySink_Send wr) xs sw)))
          = cores (pg_db (fst sw)) @ more)"
proof (induction xs arbitrary: sw)
  case Nil
  then show ?case by simp
next
  case (Cons x xs)
  let ?D = "pg_deps k trace ord lk cap mr idle th mx plat"
  obtain s w where sw: "sw = (s, w)" by fastforce
  obtain sw1 where 1: "system ?D (RelaySink_Send wr) (x # xs) sw = system ?D (RelaySink_Send wr) xs sw1"
    "pipe_inv dlog old sw1" "\<exists>more. cores (pg_db (fst sw1)) = cores (pg_db s) @ more"
  proof (cases x)
    case (Request c)
    obtain r s1 where r: "run_cmd ?D c s = (r, s1)" by fastforce
    have "pipe_inv dlog old (s1, w) \<and> (\<exists>more. cores (pg_db s1) = cores (pg_db s) @ more)"
      by (rule request_inv [OF r]) (use Cons.prems sw in simp)
    then show ?thesis using r that [of "(s1, w)"] by (simp add: sw Request)
  next
    case (Pass n lk)
    obtain res s1 w1 where r: "RelayOnce (RelaySink_Send wr) n lk (s, w) = (res, (s1, w1))" by (metis surj_pair)
    show ?thesis using pass_inv [OF r assms] Cons.prems r that [of "(s1, w1)"] by (simp add: sw Pass)
  qed
  then show ?case using Cons.IH [OF 1(2)] by (auto simp: sw)
qed

text \<open>
  C12: the outbox neither loses nor invents an event. From an empty outbox, after any requests and relay
  passes in any order, whatever statements and sends fail: a row once committed is still there,
  unchanged, after whatever else happens (\<open>ys\<close>); a row marked published has been sent; the broker
  has been sent nothing but committed rows; and as soon as database and broker work, the
  relay's \<open>Run\<close> has sent every committed row before it answers a cancelled context.
\<close>

theorem outbox_delivers:
  fixes k trace ord lk cap mr idle th mx plat
  defines "D \<equiv> pg_deps k trace ord lk cap mr idle th mx plat"
  assumes "writer_ok wr dlog" "pg_tx s0 = None" "t_outbox (pg_db s0) = []" "dlog w0 = []"
    and "system D (RelaySink_Send wr) xs (s0, w0) = (s1, w1)" "system D (RelaySink_Send wr) ys (s1, w1) = (s2, w2)"
  shows "(\<exists>more. map core (t_outbox (pg_db s2)) = map core (t_outbox (pg_db s1)) @ more)
    \<and> (\<forall>r \<in> set (t_outbox (pg_db s2)). ob_published_at r \<noteq> None \<longrightarrow> row_message r \<in> set (dlog w2))
    \<and> set (dlog w2) \<subseteq> row_message ` set (t_outbox (pg_db s2))
    \<and> (healthy s2 \<and> writer_up wr \<and> 0 < n \<and> length (claimable {} (pg_db s2)) < fuel * nat n \<longrightarrow>
        (\<exists>s3 w3. relay_Run fuel (RelaySink_Send wr) n [True] (s2, w2) = Some (Sentinel ContextCanceled, (s3, w3))
          \<and> row_message ` set (t_outbox (pg_db s2)) \<subseteq> set (dlog w3)))"
proof -
  have "pipe_inv dlog [] (s0, w0)" using assms(3-5) by (simp add: pipe_inv_def outbox_ok_def)
  then have 1: "pipe_inv dlog [] (s1, w1)" using system_inv [OF assms(2)] assms(6) unfolding D_def by metis
  then have 2: "pipe_inv dlog [] (s2, w2)" "\<exists>more. cores (pg_db s2) = cores (pg_db s1) @ more"
    using system_inv [OF assms(2) 1] assms(7) unfolding D_def by (metis fst_conv)+
  have run: "\<exists>s3 w3. relay_Run fuel (RelaySink_Send wr) n [True] (s2, w2) = Some (Sentinel ContextCanceled, (s3, w3))
      \<and> row_message ` set (t_outbox (pg_db s2)) \<subseteq> set (dlog w3)"
    if h: "healthy s2" "writer_up wr" "0 < n" "length (claimable {} (pg_db s2)) < fuel * nat n"
  proof -
    have i: "pg_tx s2 = None" "outbox_ok (pg_db s2)" using 2(1) by (auto simp: pipe_inv_def)
    obtain s3 w3 where r: "relay_Run fuel (RelaySink_Send wr) n [True] (s2, w2) = Some (Sentinel ContextCanceled, (s3, w3))"
      "dlog w3 = dlog w2 @ map row_message (claimable {} (pg_db s2))"
      using relay_Run_drains [OF assms(2) h(2,3,1) i h(4), of w2] by blast
    have "row_message r \<in> set (dlog w3)" if "r \<in> set (t_outbox (pg_db s2))" for r
      using that r(2) 2(1) claimable_props(3) [OF i(2), of "{}"] by (cases "ob_published_at r") (auto simp: pipe_inv_def)
    then show ?thesis using r(1) by blast
  qed
  show ?thesis using 2 run by (auto simp: pipe_inv_def cores_def)
qed

definition one_start :: sys_step where
  "one_start = Request (CmdStart ''a'' [])"

lemma one_start_run:
  "\<exists>s1. system demo_deps (RelaySink_Send all_taker) [one_start] (demo_pg [] [0] empty_db, []) = (s1, [])
    \<and> length (t_outbox (pg_db s1)) = 1 \<and> healthy s1 \<and> length (claimable {} (pg_db s1)) = 1"
  by (simp add: one_start_def demo_eval domain_simps healthy_def claimable_def)

theorem outbox_delivers_witness:
  "\<exists>s1 s3 w3. system demo_deps (RelaySink_Send all_taker) [one_start] (demo_pg [] [0] empty_db, []) = (s1, [])
    \<and> length (t_outbox (pg_db s1)) = 1
    \<and> relay_Run 1 (RelaySink_Send all_taker) 100 [True] (s1, []) = Some (Sentinel ContextCanceled, (s3, w3))
    \<and> row_message ` set (t_outbox (pg_db s1)) \<subseteq> set w3"
proof -
  obtain s1 where s1: "system demo_deps (RelaySink_Send all_taker) [one_start] (demo_pg [] [0] empty_db, []) = (s1, [])"
    "length (t_outbox (pg_db s1)) = 1" "healthy s1" "length (claimable {} (pg_db s1)) = 1"
    using one_start_run by blast
  have "pg_tx (demo_pg [] [0] empty_db) = None" "t_outbox (pg_db (demo_pg [] [0] empty_db)) = []"
    by (simp_all add: demo_pg_def empty_db_def)
  from outbox_delivers [OF takers_ok(2) this, of "[]" PgProperties.demo_sdk "[]" "\<lambda>rs. rs" None "\<lambda>_. Inr 0" None None "Fin 0" "Fin 8"
      "\<lambda>_. 0" "[one_start]" s1 "[]" "[]" s1 "[]" 100 1]
  show ?thesis using s1 takers_ok(3) by auto
qed

section \<open>From a commit to the read model\<close>

text \<open>The service's atomic scopes, each with the domain events it announces.\<close>

definition scopes :: "'s ports \<Rightarrow> (('s, unit) op \<times> DomainEvent list) set" where
  "scopes P = {(save_and_publish P a, fst (as_PullEvents a)) | a. True}
     \<union> {(assign_body P ch la, fst (la_PullEvents la)) | ch la. True}
     \<union> {(end_body P ch a, fst (as_PullEvents a)) | ch a. True}
     \<union> {(commit_body P sp, fst (sp_PullEvents sp)) | sp. True}
     \<union> {(Publish P es, es) | es. True}"

definition saves :: "(pg, unit) op \<Rightarrow> bool" where
  "saves f \<longleftrightarrow> seq_fixed f \<and> pg_keeps db_inv f \<and> (\<forall>X. pg_keeps (\<lambda>d. t_outbox d = X) f)"

lemma saves_intros:
  "saves (oret ())" "saves f \<Longrightarrow> saves g \<Longrightarrow> saves (obind f (\<lambda>_. g))" "saves (pg_Save_assoc a)" "saves (pg_Save_asg l)"
  "saves (pg_Save_plan sp)"
  by (auto simp: saves_def intro: seq_saves keeps_outbox keeps_Save_assoc keeps_Save_asg keeps_Save_plan
      intro!: seq_obind pg_keeps_obind seq_pure pg_keeps_pure)

lemma scope_split:
  assumes "(f, evs) \<in> scopes (pg_ports k trace ord)"
  shows "\<exists>g. f = obind g (\<lambda>_. Publish (pg_ports k trace ord) evs) \<and> saves g"
proof -
  have 1: "obind m (\<lambda>_. obind n (\<lambda>_. p)) = obind (obind m (\<lambda>_. n)) (\<lambda>_. p)" for m n :: "(pg, unit) op" and p :: "(pg, unit) op"
    by (simp add: obind_assoc)
  have 2: "Publish (pg_ports k trace ord) es = obind (oret ()) (\<lambda>_. Publish (pg_ports k trace ord) es)" for es by simp
  show ?thesis
    using assms 2 unfolding scopes_def save_and_publish_def assign_body_def end_body_def commit_body_def 1
    by (fastforce intro: saves_intros split: option.splits)
qed

lemma Publish_rows:
  assumes "OutboxPublisher_Publish (pg_encoders k trace ord) evs s = (Inr (), s')"
  shows "\<exists>ims ams t t' rows. Analytics_Encode k pg_mint trace evs t = (Inr ams, t') \<and> (\<forall>m \<in> set ims. en_Topic m = Topic)
    \<and> suffix (pg_ids t) (pg_ids s) \<and> suffix (pg_ids s') (pg_ids t')
    \<and> t_outbox (cur s') = t_outbox (cur s) @ rows \<and> new_rows (pg_seq s) (pg_seq s') rows \<and> list_all2 stored_as (ims @ ams) rows"
proof (cases "evs = []")
  case True
  then show ?thesis using assms by (intro exI [of _ "[]"]) (auto simp: OutboxPublisher_Publish_def)
next
  case False
  let ?p = "Publisher_Encode k pg_mint trace (pg_FindByBuildingAndShift ord) evs"
  obtain ims s1 s2 ams s3 where e: "?p s = (Inr ims, s1)" "outbox_insert_all ims s1 = (Inr (), s2)"
    "Analytics_Encode k pg_mint trace evs s2 = (Inr ams, s3)" "outbox_insert_all ams s3 = (Inr (), s')"
    using assms False
    by (auto simp: OutboxPublisher_Publish_def pg_encoders_def ocatch_app obind_def split: prod.splits sum.splits)
  have ti: "\<forall>m \<in> set ims. en_Topic m = Topic" by (rule Publisher_Encode_topic [OF e(1)])
  have ta: "\<forall>m \<in> set ams. en_Topic m = AnalyticsTopic" by (rule Analytics_Encode_topic [OF e(3)])
  obtain ri where ri: "t_outbox (cur s2) = t_outbox (cur s1) @ ri" "new_rows (pg_seq s1) (pg_seq s2) ri" "list_all2 stored_as ims ri"
    using outbox_insert_all_cases [OF e(2)] ti topics(1) by auto
  obtain ra where ra: "t_outbox (cur s') = t_outbox (cur s3) @ ra" "new_rows (pg_seq s3) (pg_seq s') ra" "list_all2 stored_as ams ra"
    using outbox_insert_all_cases [OF e(4)] ta topics(2) by auto
  have g: "pg_seq s1 \<le> pg_seq s2" "pg_seq s3 \<le> pg_seq s'"
    using outbox_insert_all_cases [OF e(2)] outbox_insert_all_cases [OF e(4)] ti ta topics by (auto simp: grows_def)
  have c: "cur s1 = cur s" "cur s3 = cur s2"
    by (rule reads_cur [OF keeps_Publisher_Encode e(1)], rule reads_cur [OF keeps_Analytics_Encode e(3)])
  have i: "suffix (pg_ids s2) (pg_ids s)" "suffix (pg_ids s') (pg_ids s3)"
    using seq_fixed_ids [OF seq_Publisher_Encode e(1)] outbox_insert_all_ids [OF e(2)] outbox_insert_all_ids [OF e(4)]
    by (auto intro: suffix_order.trans)
  have q: "pg_seq s1 = pg_seq s" "pg_seq s3 = pg_seq s2"
    by (rule seq_fixedD [OF seq_Publisher_Encode e(1)], rule seq_fixedD [OF seq_Analytics_Encode e(3)])
  show ?thesis
    by (rule exI [of _ ims], rule exI [of _ ams], rule exI [of _ s2], rule exI [of _ s3], rule exI [of _ "ri @ ra"])
      (use e(3) i ti ri ra c q g new_rows_append [OF ri(2)] list_all2_appendI [OF ri(3) ra(3)] in simp)
qed

text \<open>What a committed scope has added to the outbox.\<close>

lemma scope_rows:
  assumes "(f, evs) \<in> scopes (pg_ports k trace ord)" "atomically (pg_ports k trace ord) f s = (Inr (), s')" "pg_tx s = None"
  shows "\<exists>ims ams t t' rows. Analytics_Encode k pg_mint trace evs t = (Inr ams, t') \<and> (\<forall>m \<in> set ims. en_Topic m = Topic)
    \<and> suffix (pg_ids t) (pg_ids s) \<and> suffix (pg_ids s') (pg_ids t')
    \<and> t_outbox (pg_db s') = t_outbox (pg_db s) @ rows \<and> new_rows (pg_seq s) (pg_seq s') rows
    \<and> list_all2 stored_as (ims @ ams) rows \<and> pg_tx s' = None"
proof -
  obtain g where g: "f = obind g (\<lambda>_. OutboxPublisher_Publish (pg_encoders k trace ord) evs)" "saves g"
    using scope_split [OF assms(1)] by auto
  have kf: "pg_keeps db_inv f" using g keeps_Publish [OF outbox_free_view(2)] by (auto simp: saves_def intro: pg_keeps_obind)
  obtain s0 s1 where u: "cur s0 = pg_db s" "pg_seq s0 = pg_seq s" "f s0 = (Inr (), s1)" "pg_db s' = cur s1"
    "pg_seq s' = pg_seq s1" "pg_tx s' = None" "suffix (pg_ids s0) (pg_ids s)" "suffix (pg_ids s') (pg_ids s1)"
    using uow_commit [OF _ assms(3) kf] assms(2) by (auto simp: atomically_def)
  then obtain t where t: "g s0 = (Inr (), t)" "OutboxPublisher_Publish (pg_encoders k trace ord) evs t = (Inr (), s1)"
    using g(1) by (auto elim: obind_InrE)
  have "pg_seq t = pg_seq s0" using g(2) t(1) by (auto simp: saves_def dest: seq_fixedD)
  moreover have "pg_keeps (\<lambda>d. t_outbox d = t_outbox (cur s0)) g" using g(2) by (simp add: saves_def)
  from pg_keepsD [OF this t(1)] have "t_outbox (cur t) = t_outbox (cur s0)" by simp
  moreover have "suffix (pg_ids t) (pg_ids s)"
    using g(2) t(1) u(7) by (auto simp: saves_def dest!: seq_fixed_ids intro: suffix_order.trans)
  moreover obtain ims ams t1 t2 rows where "Analytics_Encode k pg_mint trace evs t1 = (Inr ams, t2)" "\<forall>m \<in> set ims. en_Topic m = Topic"
    "suffix (pg_ids t1) (pg_ids t)" "suffix (pg_ids s1) (pg_ids t2)" "t_outbox (cur s1) = t_outbox (cur t) @ rows"
    "new_rows (pg_seq t) (pg_seq s1) rows" "list_all2 stored_as (ims @ ams) rows"
    using Publish_rows [OF t(2)] by blast
  ultimately show ?thesis using u
    by (intro exI [of _ ims] exI [of _ ams] exI [of _ t1] exI [of _ t2] exI [of _ rows]) (auto intro: suffix_order.trans)
qed

text \<open>With everything before it published, what is left to claim is what was added.\<close>

lemma claimable_added:
  assumes "claimable {} d = []" "t_outbox d' = t_outbox d @ rows" "new_rows lo hi rows"
  shows "claimable {} d' = rows"
proof -
  have "filter (\<lambda>r. ob_published_at r = None) (t_outbox d) = []"
    using assms(1) by (metis (no_types, lifting) claimable_def empty_iff length_0_conv length_sort filter_cong)
  moreover have "filter (\<lambda>r. ob_published_at r = None) rows = rows"
    using assms(3) by (auto simp: new_rows_def)
  moreover have "sort_key ob_id rows = rows"
    using assms(3) by (auto simp: new_rows_def strict_sorted_iff intro: sort_key_id_if_sorted)
  ultimately show ?thesis using assms(2) by (simp add: claimable_def)
qed

lemma stored_message: "stored_as m r \<Longrightarrow> ms_Topic (row_message r) = en_Topic m \<and> ms_Value (row_message r) = en_Value m"
  by (simp add: stored_as_def row_message_def message_def row_encoded_def)

lemma analytics_messages:
  assumes "list_all2 stored_as (ims @ ams) rows" "\<forall>m \<in> set ims. en_Topic m = Topic" "\<forall>m \<in> set ams. en_Topic m = AnalyticsTopic"
  shows "map ms_Value (filter (\<lambda>m. ms_Topic m = AnalyticsTopic) (map row_message rows)) = map en_Value ams"
proof -
  have "list_all2 stored_as ms rs \<Longrightarrow> \<forall>m \<in> set ms. en_Topic m = Topic \<Longrightarrow> filter (\<lambda>m. ms_Topic m = AnalyticsTopic) (map row_message rs) = []"
    for ms rs by (induction rule: list_all2_induct) (auto simp: topics(3) dest: stored_message)
  moreover have "list_all2 stored_as ms rs \<Longrightarrow> \<forall>m \<in> set ms. en_Topic m = AnalyticsTopic \<Longrightarrow>
      map ms_Value (filter (\<lambda>m. ms_Topic m = AnalyticsTopic) (map row_message rs)) = map en_Value ms"
    for ms rs by (induction rule: list_all2_induct) (auto dest: stored_message)
  ultimately show ?thesis using assms by (auto simp: list_all2_append1)
qed

text \<open>The ids minted are a run of the supply, as long as it has not dried up.\<close>

lemma minted_ids:
  "omapM (\<lambda>_. omint pg_mint) evs t = (Inr is', t') \<Longrightarrow> pg_ids t' \<noteq> [] \<Longrightarrow> pg_ids t = is' @ pg_ids t'"
proof (induction evs arbitrary: t is')
  case (Cons e evs)
  obtain i t1 where i: "omint pg_mint t = (Inr i, t1)" by (cases "pg_mint t") (auto simp: omint_def)
  obtain js where js: "omapM (\<lambda>_. omint pg_mint) evs t1 = (Inr js, t')" "is' = i # js"
    using Cons.prems(1) i by (auto elim!: obind_InrE)
  note r = Cons.IH [OF js(1) Cons.prems(2)]
  then have "pg_ids t1 \<noteq> []" using Cons.prems(2) by auto
  then show ?case using r i js(2) by (auto simp: omint_def pg_mint_def split: list.splits)
qed simp

definition decodes_to :: "sdk \<Rightarrow> string \<times> DomainEvent \<Rightarrow> string \<Rightarrow> bool" where
  "decodes_to k p v \<longleftrightarrow> (\<exists>env. decodeAnalyticsEvent k v = Inr env \<and> (case projected (fst p) (snd p) of
      Some pe \<Rightarrow> isProjectingEventType (ae_Type env) \<and> event_of env = pe
    | None \<Rightarrow> \<not> isProjectingEventType (ae_Type env)))"

lemma projected_id: "projected i ev = Some pe \<Longrightarrow> pe_Id pe = i"
  by (cases ev) auto

text \<open>A record, beside the broker, of what the projector's writer has been given so far, whatever it answered.\<close>

definition records :: "'k broker \<Rightarrow> ('k \<Rightarrow> Message list) \<Rightarrow> bool" where
  "records K handed \<longleftrightarrow> (\<forall>cfg m b r b'. br_commit K cfg m b = (r, b') \<longrightarrow> handed b' = handed b)
     \<and> (\<forall>cfg ms b r b'. br_write K cfg ms b = (r, b') \<longrightarrow> handed b' = handed b @ ms)
     \<and> (\<forall>b r b'. br_failedAt K b = (r, b') \<longrightarrow> handed b' = handed b)"

lemma records_commit: "records K handed \<Longrightarrow> commits K bs m b b' \<Longrightarrow> handed b' = handed b"
  by (auto simp: records_def commits_def)

lemma records_dead: "records K handed \<Longrightarrow> dead_lettered K bs m b b' \<Longrightarrow> \<exists>x. handed b' = handed b @ [x]"
  unfolding records_def dead_lettered_def commits_def by fastforce

text \<open>One message that is not dead-lettered, its id not yet marked.\<close>

lemma handle_projects:
  assumes "handleFetchedMessage k (newAnalyticsPipeline K mr ar et bs) m (a, b) = (Inr (), (a', b'))"
    and "retry_ok mr" "retry_ok ar" "records K handed" "at_inv a"
    and "decodes_to k p (ms_Value m)" "fst p \<notin> set (at_consumed (an_db a))" "handed b' = handed b"
  shows "at_view a' = fold (proj_step trunc_us) (List.map_filter (\<lambda>(i, ev). projected i ev) [p]) (at_view a)
    \<and> set (at_consumed (an_db a')) \<subseteq> insert (fst p) (set (at_consumed (an_db a)))"
proof -
  have np: "\<not> dead_lettered K bs m b b'" using assms(8) records_dead [OF assms(4)] by fastforce
  obtain env where env: "decodeAnalyticsEvent k (ms_Value m) = Inr env" "case projected (fst p) (snd p) of
      Some pe \<Rightarrow> isProjectingEventType (ae_Type env) \<and> event_of env = pe | None \<Rightarrow> \<not> isProjectingEventType (ae_Type env)"
    using assms(6) by (auto simp: decodes_to_def)
  note h = handle_cases [OF assms(1-3,5)]
  show ?thesis
  proof (cases "projected (fst p) (snd p)")
    case None
    then show ?thesis using h env by (auto simp: List.map_filter_simps case_prod_unfold)
  next
    case (Some pe)
    then have e: "isProjectingEventType (ae_Type env)" "event_of env = pe" "ae_ID env = fst p"
      using env projected_id [OF Some] by auto
    then show ?thesis using h env(1) np assms(7) Some by (auto simp: List.map_filter_simps case_prod_unfold)
  qed
qed

lemma Run_handed:
  assumes "retry_ok mr" "retry_ok ar" "records K handed"
  shows "analytics_Run k (newAnalyticsPipeline K mr ar et bs) (map ReadMsg ms) (a, b) = (None, (a', b')) \<Longrightarrow> at_inv a \<Longrightarrow>
    length (handed b) \<le> length (handed b')"
proof (induction ms arbitrary: a b)
  case (Cons m ms)
  obtain q a1 b1 where h: "handleFetchedMessage k (newAnalyticsPipeline K mr ar et bs) m (a, b) = (q, (a1, b1))" by (metis surj_pair)
  then have q: "q = Inr ()" and r: "analytics_Run k (newAnalyticsPipeline K mr ar et bs) (map ReadMsg ms) (a1, b1) = (None, (a', b'))"
    using Cons.prems(1) by (auto split: sum.splits)
  note c = handle_cases [OF h assms(1,2) Cons.prems(2)]
  have "commits K bs m b b1 \<or> dead_lettered K bs m b b1" using c q by (auto split: sum.splits if_splits)
  then have "length (handed b) \<le> length (handed b1)" using records_commit [OF assms(3)] records_dead [OF assms(3)] by fastforce
  then show ?case using Cons.IH [OF r] c by auto
qed simp

lemma Run_projects:
  assumes "retry_ok mr" "retry_ok ar" "records K handed"
  shows "analytics_Run k (newAnalyticsPipeline K mr ar et bs) (map ReadMsg ms) (a, b) = (None, (a', b')) \<Longrightarrow> at_inv a \<Longrightarrow>
    list_all2 (\<lambda>p m. decodes_to k p (ms_Value m)) ps ms \<Longrightarrow> distinct (map fst ps) \<Longrightarrow>
    set (map fst ps) \<inter> set (at_consumed (an_db a)) = {} \<Longrightarrow> handed b' = handed b \<Longrightarrow>
    at_view a' = fold (proj_step trunc_us) (List.map_filter (\<lambda>(i, ev). projected i ev) ps) (at_view a)"
proof (induction ps arbitrary: ms a b)
  case Nil
  then show ?case by (simp add: List.map_filter_simps)
next
  case (Cons p ps)
  obtain m ms' where ms: "ms = m # ms'" "decodes_to k p (ms_Value m)" "list_all2 (\<lambda>p m. decodes_to k p (ms_Value m)) ps ms'"
    using Cons.prems(3) by (auto simp: list_all2_Cons1)
  obtain q a1 b1 where h0: "handleFetchedMessage k (newAnalyticsPipeline K mr ar et bs) m (a, b) = (q, (a1, b1))" by (metis surj_pair)
  then have q: "q = Inr ()" and r: "analytics_Run k (newAnalyticsPipeline K mr ar et bs) (map ReadMsg ms') (a1, b1) = (None, (a', b'))"
    using Cons.prems(1) ms(1) by (auto split: sum.splits)
  note h = h0 [unfolded q]
  note c = handle_cases [OF h assms(1,2) Cons.prems(2)]
  have i: "at_inv a1" using c by simp
  have "commits K bs m b b1 \<or> dead_lettered K bs m b b1" using c by (auto split: sum.splits if_splits)
  then have d: "handed b1 = handed b" "handed b' = handed b1"
    using Run_handed [OF assms r i] Cons.prems(6) records_commit [OF assms(3)] records_dead [OF assms(3)] by fastforce+
  have "fst p \<notin> set (at_consumed (an_db a))" using Cons.prems(5) by auto
  from handle_projects [OF h assms Cons.prems(2) ms(2) this d(1)]
  have v: "at_view a1 = fold (proj_step trunc_us) (List.map_filter (\<lambda>(i, ev). projected i ev) [p]) (at_view a)"
    "set (at_consumed (an_db a1)) \<subseteq> insert (fst p) (set (at_consumed (an_db a)))" by auto
  have dis: "distinct (map fst ps)" "fst p \<notin> set (map fst ps)" using Cons.prems(4) by auto
  moreover have "set (map fst ps) \<inter> set (at_consumed (an_db a)) = {}" using Cons.prems(5) by auto
  ultimately have "set (map fst ps) \<inter> set (at_consumed (an_db a1)) = {}" using v(2) by blast
  from Cons.IH [OF r i ms(3) dis(1) this d(2)] show ?case
    using v(1) by (cases "(\<lambda>(i, ev). projected i ev) p") (simp_all add: List.map_filter_simps)
qed

text \<open>
  C13: what the service announced is what the reports count. Take any scope that committed while everything before it
  was published, let the relay's \<open>Run\<close> drain with database and broker working, and let the projector consume
  the analytics messages this sends, whatever statements fail on its way. Unless it hands one of them to
  its dead-letter writer, the read model has moved by exactly the announced events, each once and in order,
  under ids the scope drew from its supply: one each, a contiguous run of it. The supply's ids are distinct, as
  UUIDs are, none of them is marked in the projector's database yet, and it has not dried up.
\<close>

theorem committed_is_reported:
  assumes "codec_ok k" "(f, evs) \<in> scopes (pg_ports k trace ord)" "atomically (pg_ports k trace ord) f s = (Inr (), s1)"
    and "pg_tx s = None" "outbox_ok (pg_db s)" "\<forall>r \<in> set (t_outbox (pg_db s)). ob_id r < pg_seq s" "claimable {} (pg_db s) = []"
    and "healthy s1" "writer_ok wr dlog" "writer_up wr" "0 < n" "length (claimable {} (pg_db s1)) < fuel * nat n"
    and "distinct (pg_ids s)" "pg_ids s1 \<noteq> []"
  shows "\<exists>ids s2 w2. length ids = length evs \<and> (\<exists>pre post. pg_ids s = pre @ ids @ post)
    \<and> relay_Run fuel (RelaySink_Send wr) n [True] (s1, w) = Some (Sentinel ContextCanceled, (s2, w2))
    \<and> (\<forall>ms K mr ar et bs handed a b a' b'.
        map ms_Value ms = map ms_Value (filter (\<lambda>m. ms_Topic m = AnalyticsTopic) (drop (length (dlog w)) (dlog w2))) \<longrightarrow>
        retry_ok mr \<and> retry_ok ar \<and> records K handed \<and> at_inv a \<and> set (pg_ids s) \<inter> set (at_consumed (an_db a)) = {} \<longrightarrow>
        analytics_Run k (newAnalyticsPipeline K mr ar et bs) (map ReadMsg ms) (a, b) = (None, (a', b')) \<longrightarrow>
        handed b' = handed b \<longrightarrow>
        at_view a' = fold (proj_step trunc_us) (List.map_filter (\<lambda>(i, ev). projected i ev) (zip ids evs)) (at_view a))"
proof -
  obtain ims ams t t' rows where r: "Analytics_Encode k pg_mint trace evs t = (Inr ams, t')" "\<forall>m \<in> set ims. en_Topic m = Topic"
    "t_outbox (pg_db s1) = t_outbox (pg_db s) @ rows" "new_rows (pg_seq s) (pg_seq s1) rows" "list_all2 stored_as (ims @ ams) rows"
    "pg_tx s1 = None" "suffix (pg_ids t) (pg_ids s)" "suffix (pg_ids s1) (pg_ids t')"
    using scope_rows [OF assms(2-4)] by blast
  obtain ids where ids: "omapM (\<lambda>_. omint pg_mint) evs t = (Inr ids, t')"
    "list_all2 (\<lambda>p m. decodes_to k p (en_Value m)) (zip ids evs) ams"
    using Analytics_Encode_events [OF assms(1) r(1)] by (auto simp: decodes_to_def case_prod_unfold)
  have len: "length ids = length evs" by (rule omapM_length [OF ids(1)])
  have "pg_ids t = ids @ pg_ids t'" by (rule minted_ids [OF ids(1)]) (use r(8) assms(14) in auto)
  then obtain pre where pre: "pg_ids s = pre @ ids @ pg_ids t'" using r(7) by (auto simp: suffix_def)
  have dis: "distinct ids" "set ids \<subseteq> set (pg_ids s)" using assms(13) pre by auto
  have n: "\<forall>r \<in> set rows. pg_seq s \<le> ob_id r \<and> ob_topic r \<noteq> '''' \<and> (\<exists>hs. ob_headers r = marshalHeaders hs)" "distinct (map ob_id rows)"
    using r(4) by (auto simp: new_rows_def strict_sorted_iff)
  have "ob_id ` set (t_outbox (pg_db s)) \<inter> ob_id ` set rows = {}" using n(1) assms(6) by fastforce
  then have ok: "outbox_ok (pg_db s1)" using assms(5) n r(3) by (auto simp: outbox_ok_def)
  have c: "claimable {} (pg_db s1) = rows" by (rule claimable_added [OF assms(7) r(3,4)])
  obtain s2 w2 where run: "relay_Run fuel (RelaySink_Send wr) n [True] (s1, w) = Some (Sentinel ContextCanceled, (s2, w2))"
    "dlog w2 = dlog w @ map row_message rows"
    using relay_Run_drains [OF assms(9-11,8) r(6) ok assms(12)] unfolding c by blast
  have sent: "map ms_Value (filter (\<lambda>m. ms_Topic m = AnalyticsTopic) (drop (length (dlog w)) (dlog w2))) = map en_Value ams"
    using run(2) analytics_messages [OF r(5,2) Analytics_Encode_topic [OF r(1)]] by simp
  have dec: "list_all2 (\<lambda>p m. decodes_to k p (ms_Value m)) (zip ids evs) ms" if "map ms_Value ms = map en_Value ams" for ms :: "InMessage list"
  proof -
    have "list_all2 (\<lambda>p v. decodes_to k p v) (zip ids evs) (map en_Value ams)" using ids(2) by (simp add: list_all2_map2)
    then show ?thesis by (simp add: list_all2_map2 flip: that)
  qed
  have fst: "map fst (zip ids evs) = ids" using len by simp
  show ?thesis
  proof (rule exI [of _ ids], rule exI [of _ s2], rule exI [of _ w2], intro conjI allI impI)
    fix ms :: "InMessage list" and K :: "'b broker" and mr ar et bs handed a b a' b'
    assume "map ms_Value ms = map ms_Value (filter (\<lambda>m. ms_Topic m = AnalyticsTopic) (drop (length (dlog w)) (dlog w2)))"
      and oks: "retry_ok mr \<and> retry_ok ar \<and> records K handed \<and> at_inv a \<and> set (pg_ids s) \<inter> set (at_consumed (an_db a)) = {}"
      and run: "analytics_Run k (newAnalyticsPipeline K mr ar et bs) (map ReadMsg ms) (a, b) = (None, (a', b'))" "handed b' = handed b"
    then have "map ms_Value ms = map en_Value ams" using sent by simp
    note d = dec [OF this]
    show "at_view a' = fold (proj_step trunc_us) (List.map_filter (\<lambda>(i, ev). projected i ev) (zip ids evs)) (at_view a)"
      by (rule Run_projects [OF _ _ _ run(1) _ d _ _ run(2)]) (use oks dis fst in auto)
  qed (use len run(1) pre in auto)
qed

lemma published_decode: "decodeAnalyticsEvent demo_codec ''m1'' = Inr \<lparr>ae_ID = ''e1'', ae_Type = TypeLaborAssigned, ae_Time = 5,
    ae_Data = \<lparr>aa_AssociateId = ''a'', aa_PathId = ''pick'', aa_ToPathId = ''''\<rparr>\<rparr>"
  by (simp add: decodeAnalyticsEvent_def ce_Decode_def demo_codec_def demo_published_def decode_analyticsData_def dec_object_def
      dec_field_def field_values_def fold_names no_data_def Let_def del: foldName.simps)

lemma published_apply: "ae_Type env = TypeLaborAssigned \<Longrightarrow>
    applyEvent db_projection env = on_db (at_ApplyLaborAssigned (ae_ID env) (aa_PathId (ae_Data env)) (ae_Time env))"
  by (simp add: applyEvent_def db_projection_def postgres_projection_def projecting_types Let_def)

lemma published_run:
  "\<exists>a b. analytics_Run demo_codec demo_projector [ReadMsg (demo_message 0 7 ''m1'')] (an_empty [], ([], [], {})) = (None, (a, b))
    \<and> fst (snd b) = []"
  by (simp add: handleFetchedMessage_def published_decode published_apply ocatch_def markProcessedWithRetry_def
      applyWithRetry_def demo_retry demo_commit on_db_def at_MarkProcessed_def an_exec_def obind_def
      an_fault_def an_empty_def at_ApplyLaborAssigned_def applyRollup_def claimed_def inTx_def an_claim_def insert_processed_def
      upsertRollup_def upsert_row_def an_Commit_def Let_def)

lemma demo_records: "records demo_broker (\<lambda>(_, dl, _). dl)"
  by (auto simp: records_def demo_broker_def split: list.splits bool.splits)

definition published_row :: outbox_row where
  "published_row = \<lparr>ob_id = 1, ob_topic = AnalyticsTopic, ob_event_type = TypeLaborAssigned, ob_key = ''a'', ob_value = ''m1'',
     ob_headers = marshalHeaders (inject [] [ContentTypeHeader]), ob_created_at = 0, ob_published_at = None, ob_attempts = 0,
     ob_last_error = None\<rparr>"

lemma published_row_ok: "map ms_Value (filter (\<lambda>m. ms_Topic m = AnalyticsTopic) [row_message published_row]) = [''m1'']"
  "t_outbox d = [published_row] \<Longrightarrow> outbox_ok d \<and> claimable {} d = [published_row]"
  using topics(2) by (auto simp: published_row_def row_message_def message_def row_encoded_def outbox_ok_def claimable_def)

lemma published_scope:
  "\<exists>s1. atomically (pg_ports demo_codec [] (\<lambda>rs. rs)) (Publish (pg_ports demo_codec [] (\<lambda>rs. rs)) [LaborAssigned 5 ''a'' ''pick''])
      (demo_pg [] [] empty_db) = (Inr (), s1)
    \<and> healthy s1 \<and> pg_tx s1 = None \<and> t_outbox (pg_db s1) = [published_row] \<and> pg_ids s1 \<noteq> []"
  by (simp add: demo_eval demo_codec_def demo_published_def types_eq healthy_def published_row_def)

theorem committed_is_reported_witness:
  "\<exists>s1 i s2 w2 a b. atomically (pg_ports demo_codec [] (\<lambda>rs. rs)) (Publish (pg_ports demo_codec [] (\<lambda>rs. rs)) [LaborAssigned 5 ''a'' ''pick''])
      (demo_pg [] [] empty_db) = (Inr (), s1)
    \<and> relay_Run 1 (RelaySink_Send all_taker) 100 [True] (s1, []) = Some (Sentinel ContextCanceled, (s2, w2))
    \<and> analytics_Run demo_codec demo_projector [ReadMsg (demo_message 0 7 ''m1'')] (an_empty [], ([], [], {})) = (None, (a, b))
    \<and> at_view a = proj_step trunc_us \<lparr>pe_Kind = KLaborAssigned, pe_Id = i, pe_Subject = ''pick'', pe_At = 5\<rparr> (at_view (an_empty []))"
proof -
  let ?P = "pg_ports demo_codec [] (\<lambda>rs. rs)" and ?evs = "[LaborAssigned 5 ''a'' ''pick'']"
  obtain s1 where s1: "atomically ?P (Publish ?P ?evs) (demo_pg [] [] empty_db) = (Inr (), s1)" "healthy s1"
    "pg_tx s1 = None" "t_outbox (pg_db s1) = [published_row]" "pg_ids s1 \<noteq> []"
    using published_scope by blast
  note o = published_row_ok(2) [OF s1(4)]
  obtain a b where ab: "analytics_Run demo_codec demo_projector [ReadMsg (demo_message 0 7 ''m1'')] (an_empty [], ([], [], {})) = (None, (a, b))"
    "fst (snd b) = []" using published_run by blast
  have sc: "(Publish ?P ?evs, ?evs) \<in> scopes ?P" by (auto simp: scopes_def)
  have st: "pg_tx (demo_pg [] [] empty_db) = None" "outbox_ok (pg_db (demo_pg [] [] empty_db))"
    "\<forall>r \<in> set (t_outbox (pg_db (demo_pg [] [] empty_db))). ob_id r < pg_seq (demo_pg [] [] empty_db)"
    "claimable {} (pg_db (demo_pg [] [] empty_db)) = []"
    by (simp_all add: demo_pg_def empty_db_def outbox_ok_def claimable_def)
  have dist: "distinct (pg_ids (demo_pg [] [] empty_db))" by (simp add: demo_pg_def)
  have few: "length (claimable {} (pg_db s1)) < 1 * nat 100" using o by simp
  obtain ids s2 w2 where w: "length ids = length ?evs"
    "relay_Run 1 (RelaySink_Send all_taker) 100 [True] (s1, []) = Some (Sentinel ContextCanceled, (s2, w2))"
    and view: "\<forall>ms (K :: demo_kafka broker) mr ar et bs handed a b a' b'.
        map ms_Value ms = map ms_Value (filter (\<lambda>m. ms_Topic m = AnalyticsTopic) (drop (length (id [])) (id w2))) \<longrightarrow>
        retry_ok mr \<and> retry_ok ar \<and> records K handed \<and> at_inv a
          \<and> set (pg_ids (demo_pg [] [] empty_db)) \<inter> set (at_consumed (an_db a)) = {} \<longrightarrow>
        analytics_Run demo_codec (newAnalyticsPipeline K mr ar et bs) (map ReadMsg ms) (a, b) = (None, (a', b')) \<longrightarrow>
        handed b' = handed b \<longrightarrow>
        at_view a' = fold (proj_step trunc_us) (List.map_filter (\<lambda>(i, ev). projected i ev) (zip ids ?evs)) (at_view a)"
    using committed_is_reported [where 'b = demo_kafka, OF demo_codec_ok sc s1(1) st s1(2) takers_ok(2,3) _ few dist s1(5), of "[]"]
    by auto
  have "w2 = [row_message published_row]"
    using relay_Run_drains [OF takers_ok(2,3) _ s1(2,3) _ few, of "[]"] w(2) o by auto
  then have v: "map ms_Value [demo_message 0 7 ''m1''] = map ms_Value (filter (\<lambda>m. ms_Topic m = AnalyticsTopic) (drop (length (id [])) (id w2)))"
    using published_row_ok(1) by simp
  obtain i where i: "ids = [i]" using w(1) by (auto simp: length_Suc_conv)
  have "at_view a = fold (proj_step trunc_us) (List.map_filter (\<lambda>(i, ev). projected i ev) (zip ids ?evs)) (at_view (an_empty []))"
  proof (rule view [rule_format, OF v])
    show "retry_ok plain_backoff \<and> retry_ok plain_backoff \<and> records demo_broker (\<lambda>(_, dl, _). dl)
      \<and> at_inv (an_empty []) \<and> set (pg_ids (demo_pg [] [] empty_db)) \<inter> set (at_consumed (an_db (an_empty []))) = {}"
      by (intro conjI plain_backoff_ok demo_records an_empty_ok(1)) (simp add: an_empty_def)
    show "analytics_Run demo_codec (newAnalyticsPipeline demo_broker plain_backoff plain_backoff (\<lambda>_. ''error'') [''kafka''])
      (map ReadMsg [demo_message 0 7 ''m1'']) (an_empty [], ([], [], {})) = (None, (a, b))"
      using ab(1) unfolding demo_projector_def list.map .
    show "(\<lambda>(_, dl, _). dl) b = (\<lambda>(_, dl, _). dl) ([], [], {})" using ab(2) by (simp add: case_prod_unfold)
  qed
  then have "at_view a = proj_step trunc_us \<lparr>pe_Kind = KLaborAssigned, pe_Id = i, pe_Subject = ''pick'', pe_At = 5\<rparr> (at_view (an_empty []))"
    by (simp add: i List.map_filter_simps)
  then show ?thesis using s1(1) w(2) ab(1) by blast
qed

end
