(* ===== verification/GoDate.thy ===== *)
theory GoDate
  imports Encode
begin

text \<open>
  The calendar of Go's \<open>time\<close> package, as far as the reports API uses it: \<open>t.UTC().Format(time.RFC3339)\<close>
  and \<open>time.Parse(time.RFC3339, s)\<close>. A parsed time is its instant; parse errors carry no detail
  that the code looks at. Main result: parsing what was formatted gives the time back, in whole
  seconds.
\<close>

section \<open>The calendar\<close>

definition isLeap :: "int \<Rightarrow> bool" where
  "isLeap y \<longleftrightarrow> y mod 4 = 0 \<and> (y mod 100 \<noteq> 0 \<or> y mod 400 = 0)"

definition month_lengths :: "bool \<Rightarrow> int list" where
  "month_lengths leap = [31, if leap then 29 else 28, 31, 30, 31, 30, 31, 31, 30, 31, 30, 31]"

definition daysIn :: "int \<Rightarrow> int \<Rightarrow> int" where
  "daysIn month y = month_lengths (isLeap y) ! nat (month - 1)"

definition days_before_year :: "int \<Rightarrow> int" where
  "days_before_year y = (let n = y - 1 in 365 * n + n div 4 - n div 100 + n div 400)"

definition days_before_month :: "int \<Rightarrow> int \<Rightarrow> int" where
  "days_before_month month y = sum_list (take (nat (month - 1)) (month_lengths (isLeap y)))"

text \<open>\<open>time.Date(year, month, day, hour, min, sec, nsec, time.UTC)\<close>, in range.\<close>

definition time_Date :: "int \<Rightarrow> int \<Rightarrow> int \<Rightarrow> int \<Rightarrow> int \<Rightarrow> int \<Rightarrow> int \<Rightarrow> time" where
  "time_Date year month day hour mins sec nsec =
     (((days_before_year year + days_before_month month year + day - 1) * 86400 + hour * 3600 + mins * 60 + sec)
       * second_ns) + nsec"

text \<open>Year and day of the year of a day number: cycles of 400, 100, 4 and 1 years.\<close>

definition year_yday :: "int \<Rightarrow> int \<times> int" where
  "year_yday d =
     (let n400 = d div 146097; d = d mod 146097;
          n100 = min 3 (d div 36524); d = d - 36524 * n100;
          n4 = d div 1461; d = d mod 1461;
          n1 = min 3 (d div 365)
      in (400 * n400 + 100 * n100 + 4 * n4 + n1 + 1, d - 365 * n1))"

fun month_day :: "int list \<Rightarrow> int \<Rightarrow> int \<Rightarrow> int \<times> int" where
  "month_day [] m d = (m, d + 1)"
| "month_day (l # ls) m d = (if d < l then (m, d + 1) else month_day ls (m + 1) (d - l))"

section \<open>Printing and parsing\<close>

definition appendInt :: "int \<Rightarrow> nat \<Rightarrow> string" where
  "appendInt n width = (let s = digits (nat \<bar>n\<bar>) in
     (if n < 0 then ''-'' else '''') @ replicate (width - length s) (CHR ''0'') @ s)"

definition Format_RFC3339 :: "time \<Rightarrow> string" where
  "Format_RFC3339 t =
     (let secs = t div second_ns; d = secs div 86400; s = secs mod 86400;
          (y, yday) = year_yday d; (m, day) = month_day (month_lengths (isLeap y)) 1 yday
      in appendInt y 4 @ ''-'' @ appendInt m 2 @ ''-'' @ appendInt day 2 @ ''T'' @ appendInt (s div 3600) 2
         @ '':'' @ appendInt (s mod 3600 div 60) 2 @ '':'' @ appendInt (s mod 60) 2 @ ''Z'')"

definition isDigit :: "char \<Rightarrow> bool" where
  "isDigit c \<longleftrightarrow> 48 \<le> (of_char c :: nat) \<and> (of_char c :: nat) \<le> 57"

definition digit_val :: "char \<Rightarrow> int" where
  "digit_val c = int (of_char c) - 48"

definition leadingInt :: "string \<Rightarrow> int" where
  "leadingInt s = fold (\<lambda>c n. 10 * n + digit_val c) s 0"

fun getnum :: "bool \<Rightarrow> string \<Rightarrow> (int \<times> string) option" where
  "getnum fixed (c # d # s) =
     (if \<not> isDigit c then None
      else if \<not> isDigit d then (if fixed then None else Some (digit_val c, d # s))
      else Some (10 * digit_val c + digit_val d, s))"
| "getnum fixed [c] = (if \<not> isDigit c \<or> fixed then None else Some (digit_val c, []))"
| "getnum fixed [] = None"

fun skip :: "char \<Rightarrow> string \<Rightarrow> string option" where
  "skip c (d # s) = (if c = d then Some s else None)"
| "skip c [] = None"

definition get_year :: "string \<Rightarrow> (int \<times> string) option" where
  "get_year s = (if length s < 4 \<or> \<not> list_all isDigit (take 4 s) then None
     else Some (leadingInt (take 4 s), drop 4 s))"

text \<open>A fractional second, which the layout need not mention; at most nine digits count.\<close>

definition get_frac :: "string \<Rightarrow> int \<times> string" where
  "get_frac s = (case s of
       c # d # r \<Rightarrow>
         if (c = CHR ''.'' \<or> c = CHR '','') \<and> isDigit d
         then let ds = takeWhile isDigit (d # r); nine = take 9 ds
           in (leadingInt nine * 10 ^ (9 - length nine), dropWhile isDigit (d # r))
         else (0, s)
     | _ \<Rightarrow> (0, s))"

text \<open>\<open>Z07:00\<close>: the offset in seconds. Offsets of 24 hours or 60 minutes pass.\<close>

definition get_zone :: "string \<Rightarrow> (int \<times> string) option" where
  "get_zone s = (case s of
       CHR ''Z'' # r \<Rightarrow> Some (0, r)
     | sign # h1 # h2 # colon # m1 # m2 # r \<Rightarrow>
         if colon \<noteq> CHR '':'' then None
         else (case (getnum True [h1, h2], getnum True [m1, m2]) of
             (Some (hr, _), Some (mm, _)) \<Rightarrow>
               if hr > 24 \<or> mm > 60 then None
               else if sign = CHR ''+'' then Some ((hr * 60 + mm) * 60, r)
               else if sign = CHR ''-'' then Some (- ((hr * 60 + mm) * 60), r)
               else None
           | _ \<Rightarrow> None)
     | _ \<Rightarrow> None)"

definition obindp :: "('a \<times> string) option \<Rightarrow> ('a \<Rightarrow> string \<Rightarrow> 'b option) \<Rightarrow> 'b option" where
  "obindp m f = (case m of None \<Rightarrow> None | Some (a, s) \<Rightarrow> f a s)"

definition obinds :: "string option \<Rightarrow> (string \<Rightarrow> 'b option) \<Rightarrow> 'b option" where
  "obinds m f = (case m of None \<Rightarrow> None | Some s \<Rightarrow> f s)"

definition Parse_RFC3339 :: "string \<Rightarrow> time option" where
  "Parse_RFC3339 s =
     obindp (get_year s) (\<lambda>y s. obinds (skip (CHR ''-'') s) (\<lambda>s.
     obindp (getnum True s) (\<lambda>mo s. if mo \<le> 0 \<or> 12 < mo then None else obinds (skip (CHR ''-'') s) (\<lambda>s.
     obindp (getnum True s) (\<lambda>d s. obinds (skip (CHR ''T'') s) (\<lambda>s.
     obindp (getnum False s) (\<lambda>h s. if 24 \<le> h then None else obinds (skip (CHR '':'') s) (\<lambda>s.
     obindp (getnum True s) (\<lambda>mi s. if 60 \<le> mi then None else obinds (skip (CHR '':'') s) (\<lambda>s.
     obindp (getnum True s) (\<lambda>sec s. if 60 \<le> sec then None else (case get_frac s of (nsec, s) \<Rightarrow>
     obindp (get_zone s) (\<lambda>offset s.
       if s \<noteq> [] \<or> d < 1 \<or> d > daysIn mo y then None
       else Some (time_Date y mo d h mi sec nsec - offset * second_ns))))))))))))))"

section \<open>A day number and its date\<close>

lemma year_yday_ok:
  assumes "year_yday d = (y, yd)"
  shows "days_before_year y + yd = d \<and> 0 \<le> yd \<and> yd < (if isLeap y then 366 else 365)"
proof -
  define a where "a = d div 146097"
  define r1 where "r1 = d mod 146097"
  define b where "b = min 3 (r1 div 36524)"
  define r2 where "r2 = r1 - 36524 * b"
  define c where "c = r2 div 1461"
  define r3 where "r3 = r2 mod 1461"
  define e where "e = min 3 (r3 div 365)"
  have y: "y = 400 * a + 100 * b + 4 * c + e + 1" and yd: "yd = r3 - 365 * e"
    using assms by (simp_all add: year_yday_def Let_def a_def r1_def b_def r2_def c_def r3_def e_def)
  have d: "d = 146097 * a + r1" "0 \<le> r1" "r1 < 146097" by (simp_all add: a_def r1_def)
  have b: "0 \<le> b" "b \<le> 3" "0 \<le> r2" "r2 \<le> 36524" "b < 3 \<Longrightarrow> r2 < 36524"
    using d by (auto simp: b_def r2_def min_def)
  have c: "r2 = 1461 * c + r3" "0 \<le> r3" "r3 < 1461" "0 \<le> c" "c \<le> 24" using b by (auto simp: c_def r3_def)
  have e: "0 \<le> e" "e \<le> 3" "0 \<le> yd" "yd \<le> 365" "yd = 365 \<Longrightarrow> e = 3 \<and> r3 = 1460"
  proof -
    have q: "365 * (r3 div 365) \<le> r3" "r3 < 365 * (r3 div 365) + 365" "0 \<le> r3 div 365" using c(2) by auto
    have "e = (if 3 \<le> r3 div 365 then 3 else r3 div 365)" by (simp add: e_def min_def)
    with q c(2,3) show "0 \<le> e" "e \<le> 3" "0 \<le> yd" "yd \<le> 365" "yd = 365 \<Longrightarrow> e = 3 \<and> r3 = 1460"
      by (simp_all add: yd split: if_splits)
  qed
  have "(400 * a + 100 * b + 4 * c + e) div 4 = 100 * a + 25 * b + c" using e by auto
  moreover have "(400 * a + 100 * b + 4 * c + e) div 100 = 4 * a + b" using c e by auto
  moreover have "(400 * a + 100 * b + 4 * c + e) div 400 = a" using b c e by auto
  ultimately have "days_before_year y + yd = d"
    using d(1) c(1) r2_def by (simp add: days_before_year_def y yd)
  moreover have "isLeap y" if "yd = 365"
  proof -
    have e3: "e = 3" "r3 = 1460" using e(5) that by auto
    have "c < 24 \<or> c = 24 \<and> b = 3" using b(2,5) c(1,5) e3(2) by linarith
    then show ?thesis
    proof
      assume "c < 24"
      have "y = 4 * (c + 1) + 100 * (4 * a + b)" using e3 by (simp add: y)
      then have "y mod 100 = 4 * (c + 1) mod 100" by (metis mod_mult_self2)
      also have "\<dots> = 4 * (c + 1)" using c(4) \<open>c < 24\<close> by (intro mod_pos_pos_trivial) auto
      finally have "y mod 100 \<noteq> 0" using c(4) by simp
      moreover have "y = 4 * (25 * (4 * a + b) + c + 1)" using e3 by (simp add: y)
      then have "y mod 4 = 0" by simp
      ultimately show ?thesis by (simp add: isLeap_def)
    next
      assume "c = 24 \<and> b = 3"
      then have "y = 400 * (a + 1)" using e3 by (simp add: y)
      then show ?thesis by (simp add: isLeap_def)
    qed
  qed
  ultimately show ?thesis using e(3,4) by (cases "yd = 365") auto
qed

lemma month_day_ok:
  assumes "month_day ls m yd = (m', d')" "0 \<le> yd" "yd < sum_list ls"
  shows "\<exists>k < length ls. m' = m + int k \<and> 1 \<le> d' \<and> d' \<le> ls ! k \<and> sum_list (take k ls) + d' - 1 = yd"
  using assms
proof (induction ls m yd rule: month_day.induct)
  case (2 l ls m d)
  show ?case
  proof (cases "d < l")
    case True
    then show ?thesis using "2.prems" by (intro exI [of _ 0]) auto
  next
    case False
    then obtain k where "k < length ls" "m' = m + 1 + int k" "1 \<le> d'" "d' \<le> ls ! k" "sum_list (take k ls) + d' - 1 = d - l"
      using 2 by auto
    then show ?thesis by (intro exI [of _ "Suc k"]) auto
  qed
qed simp

lemma date_ok:
  assumes "year_yday n = (y, yd)" "month_day (month_lengths (isLeap y)) 1 yd = (m, d)"
  shows "days_before_year y + days_before_month m y + d - 1 = n \<and> 1 \<le> m \<and> m \<le> 12 \<and> 1 \<le> d \<and> d \<le> daysIn m y \<and> d \<le> 31"
proof -
  have "sum_list (month_lengths (isLeap y)) = (if isLeap y then 366 else 365)" by (simp add: month_lengths_def)
  then obtain k where k: "k < length (month_lengths (isLeap y))" "m = 1 + int k" "1 \<le> d" "d \<le> month_lengths (isLeap y) ! k"
    "sum_list (take k (month_lengths (isLeap y))) + d - 1 = yd"
    using month_day_ok [OF assms(2)] year_yday_ok [OF assms(1)] by auto
  have "k < 12" using k(1) by (simp add: month_lengths_def)
  moreover have "\<forall>l \<in> set (month_lengths (isLeap y)). l \<le> 31" by (simp add: month_lengths_def)
  then have "month_lengths (isLeap y) ! k \<le> 31" using k(1) by simp
  ultimately show ?thesis
    using k year_yday_ok [OF assms(1)] by (auto simp: days_before_month_def daysIn_def)
qed

section \<open>Digits\<close>

lemma isDigit_char [simp]: "n < 10 \<Longrightarrow> isDigit (char_of (48 + n :: nat))"
  by (simp add: isDigit_def)

lemma digit_val_char [simp]: "n < 10 \<Longrightarrow> digit_val (char_of (48 + n :: nat)) = int n"
  by (simp add: digit_val_def of_char_of)

lemma char_48 [simp]: "char_of (48 :: nat) = CHR ''0''"
  by code_simp

lemma append2:
  assumes "k < 10" "l < 10"
  shows "appendInt (int (10 * k + l)) 2 = [char_of (48 + k), char_of (48 + l)]"
proof (cases "k = 0")
  case True
  then show ?thesis using assms by (simp add: appendInt_def digits.simps [of l])
next
  case False
  then have "\<not> 10 * k + l < 10" "(10 * k + l) div 10 = k" "(10 * k + l) mod 10 = l" using assms by auto
  then show ?thesis using assms
    by (simp add: appendInt_def digits.simps [of "10 * k + l"] digits.simps [of k] del: of_nat_add of_nat_mult)
qed

lemma getnum_append2:
  assumes "0 \<le> n" "n < 100"
  shows "getnum fixed (appendInt n 2 @ s) = Some (n, s)"
proof -
  obtain k l where k: "n = int (10 * k + l)" "k < 10" "l < 10"
    using assms that [of "nat n div 10" "nat n mod 10"] by auto
  then show ?thesis using append2 [OF k(2,3)] by simp
qed

lemma digits_length: "0 < k \<Longrightarrow> n < 10 ^ k \<Longrightarrow> length (digits n) \<le> k"
proof (induction n arbitrary: k rule: digits.induct)
  case (1 n)
  show ?case
  proof (cases "n < 10")
    case False
    have "k \<noteq> 1" using 1(3) False by (metis power_one_right)
    then have k: "1 < k" using 1(2) by linarith
    have "n div 10 < 10 ^ (k - 1)" using 1(2,3) by (cases k) (auto simp: div_less_iff_less_mult)
    then have "length (digits (n div 10)) \<le> k - 1" using 1(1) False k by simp
    then show ?thesis using False k by (simp add: digits.simps [of n])
  qed (use 1 in \<open>simp add: digits.simps [of n]\<close>)
qed

lemma leadingInt_from: "fold (\<lambda>c n. 10 * n + digit_val c) t n = n * 10 ^ length t + leadingInt t"
  unfolding leadingInt_def
proof (induction t arbitrary: n)
  case (Cons c t)
  show ?case using Cons [of "10 * n + digit_val c"] Cons [of "digit_val c"] by (simp add: algebra_simps)
qed simp

lemma leadingInt_append: "leadingInt (s @ t) = leadingInt s * 10 ^ length t + leadingInt t"
  using leadingInt_from [of t "leadingInt s"] by (simp add: leadingInt_def)

lemma leadingInt_digits: "leadingInt (digits n) = int n \<and> list_all isDigit (digits n)"
proof (induction n rule: digits.induct)
  case (1 n)
  show ?case
  proof (cases "n < 10")
    case True
    then show ?thesis by (simp add: digits.simps [of n] leadingInt_def)
  next
    case False
    from False have "leadingInt (digits n) = int (n div 10) * 10 + int (n mod 10)"
      using 1 leadingInt_append [of "digits (n div 10)" "[char_of (48 + n mod 10)]"]
      by (simp add: digits.simps [of n] leadingInt_def)
    also have "\<dots> = int (n div 10 * 10 + n mod 10)" by (simp only: of_nat_add of_nat_mult of_nat_numeral)
    finally show ?thesis using 1 False by (simp add: digits.simps [of n])
  qed
qed

lemma leadingInt_zeros: "leadingInt (replicate k (CHR ''0'')) = 0 \<and> list_all isDigit (replicate k (CHR ''0''))"
  by (induction k) (simp_all add: leadingInt_def digit_val_def isDigit_def list_all_iff)

lemma get_year_append:
  assumes "0 \<le> y" "y < 10000"
  shows "get_year (appendInt y 4 @ s) = Some (y, s)"
proof -
  let ?p = "appendInt y 4"
  have "length (digits (nat y)) \<le> 4" using digits_length [of 4 "nat y"] assms by simp
  then have "length ?p = 4" using assms by (simp add: appendInt_def Let_def)
  moreover have "leadingInt ?p = y" "list_all isDigit ?p"
    using assms leadingInt_digits [of "nat y"] leadingInt_zeros by (simp_all add: appendInt_def Let_def leadingInt_append)
  ultimately show ?thesis by (simp add: get_year_def)
qed

section \<open>The round trip\<close>

lemma year_range:
  assumes "0 \<le> n" "n < 3652059" "year_yday n = (y, yd)"
  shows "1 \<le> y \<and> y < 10000"
proof -
  define r1 where "r1 = n mod 146097"
  define b where "b = min 3 (r1 div 36524)"
  define r2 where "r2 = r1 - 36524 * b"
  define e where "e = min 3 (r2 mod 1461 div 365)"
  have y: "y = 400 * (n div 146097) + 100 * b + 4 * (r2 div 1461) + e + 1"
    using assms(3) by (simp add: year_yday_def Let_def r1_def b_def r2_def e_def)
  have n: "n = 146097 * (n div 146097) + r1" "0 \<le> n div 146097" "0 \<le> r1" using assms(1) by (simp_all add: r1_def)
  have "0 \<le> r1 div 36524" "36524 * (r1 div 36524) \<le> r1" using n(3) by simp_all
  then have b: "b \<le> 3" "36524 * b \<le> r1" "0 \<le> b" unfolding b_def min_def by (simp_all del: pos_imp_zdiv_nonneg_iff)
  then have r2: "0 \<le> r2" by (simp add: r2_def)
  have "0 \<le> r2 mod 1461 div 365" by (simp add: pos_imp_zdiv_nonneg_iff)
  then have e: "e \<le> 3" "e \<le> r2 mod 1461 div 365" "0 \<le> e" unfolding e_def min_def by auto
  have "365 * (r2 mod 1461 div 365) \<le> r2 mod 1461" "r2 = 1461 * (r2 div 1461) + r2 mod 1461" by simp_all
  then have "1461 * (r2 div 1461) + 365 * e \<le> r2" using e(2) by linarith
  moreover have "r2 = r1 - 36524 * b" by (rule r2_def)
  moreover have "0 \<le> r2 div 1461" using r2 by simp
  ultimately show ?thesis using assms(2) y n b(1,3) e(1,3) by linarith
qed

theorem Parse_Format:
  assumes "0 \<le> t" "t < 315537897600 * second_ns"
  shows "Parse_RFC3339 (Format_RFC3339 t) = Some (t - t mod second_ns)"
proof -
  define secs where "secs = t div second_ns"
  define n where "n = secs div 86400"
  define sod where "sod = secs mod 86400"
  have sr: "0 \<le> secs" "secs < 315537897600" using assms by (auto simp: secs_def)
  have nr: "0 \<le> n" "n < 3652059" using sr by (auto simp: n_def)
  have so: "0 \<le> sod" "sod < 86400" by (simp_all add: sod_def)
  obtain y yd where y: "year_yday n = (y, yd)" by fastforce
  obtain m d where md: "month_day (month_lengths (isLeap y)) 1 yd = (m, d)" by fastforce
  note dt = date_ok [OF y md]
  note yr = year_range [OF nr y]
  define h where "h = sod div 3600"
  define mi where "mi = sod mod 3600 div 60"
  define se where "se = sod mod 60"
  have hms: "0 \<le> h" "h < 24" "0 \<le> mi" "mi < 60" "0 \<le> se" "se < 60" using so by (auto simp: h_def mi_def se_def)
  have sod_eq: "h * 3600 + mi * 60 + se = sod"
  proof -
    have "sod mod 3600 = 60 * mi + sod mod 3600 mod 60" by (simp add: mi_def)
    moreover have "sod mod 3600 mod 60 = se" by (simp add: se_def mod_mod_cancel)
    moreover have "sod = 3600 * h + sod mod 3600" by (simp add: h_def)
    ultimately show ?thesis by linarith
  qed
  have "Format_RFC3339 t = appendInt y 4 @ ''-'' @ appendInt m 2 @ ''-'' @ appendInt d 2 @ ''T'' @ appendInt h 2
      @ '':'' @ appendInt mi 2 @ '':'' @ appendInt se 2 @ ''Z''"
    by (simp add: Format_RFC3339_def Let_def y md h_def mi_def se_def flip: secs_def n_def sod_def)
  then have "Parse_RFC3339 (Format_RFC3339 t) = Some (time_Date y m d h mi se 0)"
    using dt yr hms
    by (simp add: Parse_RFC3339_def obindp_def obinds_def get_year_append getnum_append2 get_frac_def get_zone_def)
  moreover have "time_Date y m d h mi se 0 = secs * second_ns"
  proof -
    have "(days_before_year y + days_before_month m y + d - 1) * 86400 + h * 3600 + mi * 60 + se = n * 86400 + sod"
      using dt sod_eq by simp
    also have "\<dots> = secs" by (simp add: n_def sod_def)
    finally show ?thesis by (simp add: time_Date_def)
  qed
  moreover have "secs * second_ns = t - t mod second_ns" by (simp add: secs_def minus_mod_eq_div_mult)
  ultimately show ?thesis by simp
qed

end
