(* ===== verification/HttpApi.thy ===== *)
theory HttpApi
  imports Workforce GoJson GoDate Report
begin

text \<open>
  \<open>internal/adapters/inbound/http\<close>: the REST API of the service and of the reports reader. A
  request is what the router hands to a handler: its URL parameters, what the JSON decoder
  finds at the start of its body, its query values and its path. A response has its status,
  content type, \<open>Location\<close> and body; the \<open>detail\<close> of a problem is the error whose text is written
  there. The chi router, the middlewares and the server are not modelled.
\<close>

section \<open>Requests and responses\<close>

record http_request =
  hq_URLParam :: "string \<Rightarrow> string"
  hq_Body :: "err + json"
  hq_Query :: "string \<Rightarrow> string"
  hq_Path :: string

record problemDetails =
  pb_Type :: string
  pb_Title :: string
  pb_Status :: int
  pb_Detail :: err
  pb_Instance :: string

datatype body = NoBody | JsonBody json | Problem problemDetails

record http_response =
  hs_Status :: int
  hs_ContentType :: string
  hs_Location :: "string option"
  hs_Body :: body

type_synonym 's handler = "'s \<Rightarrow> http_response \<times> 's"

text \<open>
  The header is written before the body is encoded, so a value JSON has no number for (a NaN)
  leaves the status as it is and the body empty.
\<close>

definition writeJSON :: "int \<Rightarrow> string option \<Rightarrow> json \<Rightarrow> http_response" where
  "writeJSON status location v = \<lparr>hs_Status = status, hs_ContentType = ''application/json'', hs_Location = location,
     hs_Body = (if marshalable v then JsonBody v else NoBody)\<rparr>"

definition writeNoContent :: http_response where
  "writeNoContent = \<lparr>hs_Status = 204, hs_ContentType = '''', hs_Location = None, hs_Body = NoBody\<rparr>"

section \<open>Errors and their statuses\<close>

definition statusFor :: "err \<Rightarrow> int" where
  "statusFor e =
     (if errors_is e ErrNotFound then 404
      else if list_ex (errors_is e) [ErrEmptyAssociateId, ErrEmptyPathId, ErrEmptyCertification, ErrUnknownPath,
          ErrNoPathPlans, ErrMissingInstalledStations] then 400
      else if list_ex (errors_is e) [ErrAlreadyOnBreak, ErrNotOnBreak, ErrOnBreak, ErrShiftEnded, ErrMaxHoursExceeded,
          ErrCertificationRequired, ErrPlannedHeadsExceedInstalled, ErrExceedsInstalledCapacity,
          ErrPlannedHoursExceedCapacity] then 409
      else if errors_is e ErrConcurrentModification then 409
      else if errors_is e ErrInstalledCapacityUnavailable then 503
      else 500)"

type_synonym problemCategory = "string \<times> string"

definition problemCategoryCatalog :: "(sentinel \<times> problemCategory) list" where
  "problemCategoryCatalog =
     [(ErrNotFound, ''resource-not-found'', ''Resource not found''),
      (ErrEmptyAssociateId, ''empty-associate-id'', ''Associate id must not be empty''),
      (ErrEmptyPathId, ''empty-path-id'', ''Path id must not be empty''),
      (ErrUnknownPath, ''unknown-path-id'', ''Unrecognized process-path id''),
      (ErrEmptyCertification, ''empty-certification'', ''Certification must not be empty''),
      (ErrNoPathPlans, ''shift-plan-no-path-plans'', ''Shift plan must have at least one path plan line''),
      (ErrMissingInstalledStations, ''shift-plan-missing-installed-stations'',
         ''Missing installed station count for path''),
      (ErrMissingBuildingId, ''missing-building-id'', ''buildingId is required''),
      (ErrMissingShiftId, ''missing-shift-id'', ''shiftId is required''),
      (ErrMissingCharge, ''missing-charge'', ''charge is required''),
      (ErrAlreadyOnBreak, ''associate-already-on-break'', ''Associate is already on break''),
      (ErrNotOnBreak, ''associate-not-on-break'', ''Associate is not on break''),
      (ErrOnBreak, ''associate-on-break'', ''Associate on break cannot be assigned''),
      (ErrShiftEnded, ''associate-shift-ended'', ''Associate shift has already ended''),
      (ErrMaxHoursExceeded, ''max-hours-exceeded'', ''Max hours per shift exceeded''),
      (ErrCertificationRequired, ''certification-required'',
         ''Associate lacks the certification required for this path''),
      (ErrPlannedHeadsExceedInstalled, ''planned-heads-exceed-installed'',
         ''Planned heads exceed installed stations for path''),
      (ErrExceedsInstalledCapacity, ''exceeds-installed-capacity'',
         ''Planned heads exceed the live installed capacity reported by fulfillment-execution''),
      (ErrPlannedHoursExceedCapacity, ''planned-hours-exceed-capacity'',
         ''Planned hours exceed capacity for planned heads within max hours per shift''),
      (ErrInstalledCapacityUnavailable, ''installed-capacity-unavailable'',
         ''Could not verify installed capacity against fulfillment-execution''),
      (ErrConcurrentModification, ''concurrent-modification'',
         ''The resource was modified by another request; reload and retry'')]"

fun category_loop :: "err \<Rightarrow> (sentinel \<times> problemCategory) list \<Rightarrow> problemCategory option" where
  "category_loop e [] = None"
| "category_loop e ((s, c) # entries) = (if errors_is e s then Some c else category_loop e entries)"

definition categoryFor :: "int \<Rightarrow> err \<Rightarrow> problemCategory" where
  "categoryFor status e = (case category_loop e problemCategoryCatalog of
       Some c \<Rightarrow> c
     | None \<Rightarrow> if status = 400 then (''malformed-request-body'', ''Malformed request body'')
         else (''internal-error'', ''Internal server error''))"

definition problemErrorsURIBase :: string where
  "problemErrorsURIBase = ''https://errors.workforce-management.warehouse-systems.dev''"

definition writeError :: "http_request \<Rightarrow> int \<Rightarrow> err \<Rightarrow> http_response" where
  "writeError r status e =
     (let cat = categoryFor status e in
      \<lparr>hs_Status = status, hs_ContentType = ''application/problem+json'', hs_Location = None,
       hs_Body = Problem \<lparr>pb_Type = problemErrorsURIBase @ ''/'' @ fst cat, pb_Title = snd cat, pb_Status = status,
         pb_Detail = e, pb_Instance = hq_Path r\<rparr>\<rparr>)"

text \<open>What the router's \<open>Recoverer\<close> answers when a handler panics: a bare 500, no problem document.\<close>

definition recovered :: http_response where
  "recovered = \<lparr>hs_Status = 500, hs_ContentType = '''', hs_Location = None, hs_Body = NoBody\<rparr>"

text \<open>
  The handlers' early returns: a failed check answers 400, a failed use case the status of its
  error; otherwise the handler goes on. A use case that panics is answered by \<open>Recoverer\<close>; no check panics.
\<close>

definition check400 :: "http_request \<Rightarrow> ('s, 'a) op \<Rightarrow> ('a \<Rightarrow> 's handler) \<Rightarrow> 's handler" where
  "check400 r m k = (\<lambda>s. case m s of (Inl e, s') \<Rightarrow> (writeError r 400 e, s') | (Inr a, s') \<Rightarrow> k a s')"

definition execute :: "http_request \<Rightarrow> ('s, 'a) op \<Rightarrow> ('a \<Rightarrow> http_response) \<Rightarrow> 's handler" where
  "execute r m k = (\<lambda>s. case m s of (Inl e, s') \<Rightarrow>
       (if is_panic e then recovered else writeError r (statusFor e) e, s') | (Inr a, s') \<Rightarrow> (k a, s'))"

definition required :: "string \<Rightarrow> sentinel \<Rightarrow> err + unit" where
  "required v e = (if v = '''' then Inl (Sentinel e) else Inr ())"

section \<open>Request bodies\<close>

record proposePathPlanRequest =
  pr_BuildingId :: string
  pr_Charge :: "f64 option"
  pr_PlannedRate :: f64

record pathPlanLineRequest =
  lr_PathId :: string
  lr_PlannedHeads :: int
  lr_PlannedRate :: f64
  lr_PlannedHours :: f64
  lr_InstalledStations :: int

record commitShiftPlanRequest =
  cr_BuildingId :: string
  cr_ShiftId :: string
  cr_Lines :: "pathPlanLineRequest list"

text \<open>\<open>startShiftRequest\<close> is decoded into a pointer: None is a null body.\<close>

definition decode_startShift :: "json \<Rightarrow> err + string list option" where
  "decode_startShift j = dec_ptr [] (\<lambda>j v. dec_object v (\<lambda>kvs.
     dec_field ''certifications'' (dec_slice '''' dec_string) kvs v) j) j None"

definition decode_certify :: "json \<Rightarrow> err + string" where
  "decode_certify = dec_object '''' (\<lambda>kvs. dec_field ''certification'' dec_string kvs '''')"

definition decode_proposePathPlan :: "json \<Rightarrow> err + proposePathPlanRequest" where
  "decode_proposePathPlan = dec_object \<lparr>pr_BuildingId = '''', pr_Charge = None, pr_PlannedRate = Fin 0\<rparr> (\<lambda>kvs.
     sbind (dec_field ''buildingId'' dec_string kvs '''') (\<lambda>b.
     sbind (dec_field ''charge'' (dec_ptr (Fin 0) dec_float64) kvs None) (\<lambda>c.
     sbind (dec_field ''plannedRate'' dec_float64 kvs (Fin 0)) (\<lambda>r.
     Inr \<lparr>pr_BuildingId = b, pr_Charge = c, pr_PlannedRate = r\<rparr>))))"

definition decode_pathPlanLine :: "pathPlanLineRequest decoder" where
  "decode_pathPlanLine j v = dec_object v (\<lambda>kvs.
     sbind (dec_field ''pathId'' dec_string kvs (lr_PathId v)) (\<lambda>p.
     sbind (dec_field ''plannedHeads'' dec_int64 kvs (lr_PlannedHeads v)) (\<lambda>n.
     sbind (dec_field ''plannedRate'' dec_float64 kvs (lr_PlannedRate v)) (\<lambda>r.
     sbind (dec_field ''plannedHours'' dec_float64 kvs (lr_PlannedHours v)) (\<lambda>h.
     sbind (dec_field ''installedStations'' dec_int64 kvs (lr_InstalledStations v)) (\<lambda>i.
     Inr \<lparr>lr_PathId = p, lr_PlannedHeads = n, lr_PlannedRate = r, lr_PlannedHours = h, lr_InstalledStations = i\<rparr>)))))) j"

definition decode_commitShiftPlan :: "json \<Rightarrow> err + commitShiftPlanRequest" where
  "decode_commitShiftPlan = dec_object \<lparr>cr_BuildingId = '''', cr_ShiftId = '''', cr_Lines = []\<rparr> (\<lambda>kvs.
     sbind (dec_field ''buildingId'' dec_string kvs '''') (\<lambda>b.
     sbind (dec_field ''shiftId'' dec_string kvs '''') (\<lambda>sh.
     sbind (dec_field ''lines'' (dec_slice \<lparr>lr_PathId = '''', lr_PlannedHeads = 0, lr_PlannedRate = Fin 0,
         lr_PlannedHours = Fin 0, lr_InstalledStations = 0\<rparr> decode_pathPlanLine) kvs []) (\<lambda>ls.
     Inr \<lparr>cr_BuildingId = b, cr_ShiftId = sh, cr_Lines = ls\<rparr>))))"

definition decode_assignLabor :: "json \<Rightarrow> err + string" where
  "decode_assignLabor = dec_object '''' (\<lambda>kvs. dec_field ''pathId'' dec_string kvs '''')"

section \<open>Response bodies\<close>

text \<open>\<open>omitempty\<close>: the empty string and the nil pointer are left out.\<close>

definition omit_string :: "string \<Rightarrow> string \<Rightarrow> (string \<times> json) list" where
  "omit_string k v = (if v = '''' then [] else [(k, JStr v)])"

definition omit_float :: "string \<Rightarrow> f64 option \<Rightarrow> (string \<times> json) list" where
  "omit_float k v = (case v of None \<Rightarrow> [] | Some x \<Rightarrow> [(k, JNum x)])"

text \<open>\<open>fmt\<close>'s \<open>%.1f\<close>, and \<open>%q\<close> for ASCII strings; \<open>uniq\<close> quotes a string with other characters.\<close>

fun fmt_1f :: "f64 \<Rightarrow> string" where
  "fmt_1f (Fin q) = (let n = rne (\<bar>q\<bar> * 10) in
     (if q < 0 then ''-'' else '''') @ print_int (n div 10) @ ''.'' @ print_int (n mod 10))"
| "fmt_1f (Inf s) = (if s then ''+Inf'' else ''-Inf'')"
| "fmt_1f NaN = ''NaN''"

definition hex_digit :: "nat \<Rightarrow> char" where
  "hex_digit n = (if n < 10 then char_of (48 + n) else char_of (87 + n))"

definition quote_char :: "char \<Rightarrow> string" where
  "quote_char c = (let n = of_char c :: nat in
     if n = 34 \<or> n = 92 then [char_of (92 :: nat), c]
     else if 32 \<le> n \<and> n < 127 then [c]
     else if 7 \<le> n \<and> n \<le> 13 then [char_of (92 :: nat), ''abtnvfr'' ! (n - 7)]
     else [char_of (92 :: nat), CHR ''x'', hex_digit (n div 16), hex_digit (n mod 16)])"

definition quote :: "(string \<Rightarrow> string) \<Rightarrow> string \<Rightarrow> string" where
  "quote uniq s = (if is_ascii s then [char_of (34 :: nat)] @ concat (map quote_char s) @ [char_of (34 :: nat)]
     else uniq s)"

fun trim_text :: "(string \<Rightarrow> string) \<Rightarrow> trim_reason \<Rightarrow> string" where
  "trim_text uniq NoTrim = ''''"
| "trim_text uniq (Trimmed sh p th heads trimmed) =
     ''observed idle share '' @ fmt_1f sh @ ''% for path '' @ quote uniq p @ '' exceeds the '' @ fmt_1f th
       @ ''% trim threshold; heads trimmed from '' @ print_int heads @ '' to '' @ print_int trimmed"

fun source_text :: "rate_source \<Rightarrow> string" where
  "source_text RateSourceCaller = ''caller''"
| "source_text RateSourceMeasured = ''measured''"

definition proposePathPlanResponse :: "(string \<Rightarrow> string) \<Rightarrow> PathId \<Rightarrow> int \<times> f64 \<times> rate_source \<times> trim_reason \<Rightarrow> json" where
  "proposePathPlanResponse uniq pathId res = (case res of (heads, resolvedRate, rateSource, trimReason) \<Rightarrow>
     JObj ([(''pathId'', JStr pathId), (''proposedHeads'', JInt heads), (''resolvedRate'', JNum resolvedRate),
       (''rateSource'', JStr (source_text rateSource))] @ omit_string ''trimReason'' (trim_text uniq trimReason)))"

definition pathPlanLineResp :: "PathPlan \<Rightarrow> json" where
  "pathPlanLineResp l = JObj [(''pathId'', JStr (pp_PathId l)), (''plannedHeads'', JInt (pp_PlannedHeads l)),
     (''plannedRate'', JNum (pp_PlannedRate l)), (''plannedHours'', JNum (pp_PlannedHours l))]"

definition shiftPlanResponse :: "ShiftPlan \<Rightarrow> json" where
  "shiftPlanResponse sp = JObj [(''buildingId'', JStr (sp_buildingId sp)), (''shiftId'', JStr (sp_shiftId sp)),
     (''lines'', JArr (map pathPlanLineResp (sp_lines sp)))]"

definition assignmentResponse :: "LaborAssignment \<Rightarrow> json" where
  "assignmentResponse la = (case ActivePathId la of (activePathId, active) \<Rightarrow>
     JObj ([(''associateId'', JStr (la_associateId la))] @ omit_string ''activePathId'' activePathId
       @ [(''active'', JBool active)]))"

definition toStaffingGapResponse :: "StaffingGap \<Rightarrow> json" where
  "toStaffingGapResponse g = JObj ([(''pathId'', JStr (sg_PathId g)), (''plannedHeads'', JInt (sg_PlannedHeads g)),
     (''activeHeads'', JInt (sg_ActiveHeads g)), (''understaffed'', JBool (sg_Understaffed g))]
     @ omit_float ''observedIdlePct'' (sg_ObservedIdlePct g))"

definition toStaffingGapResponses :: "StaffingGap list \<Rightarrow> json" where
  "toStaffingGapResponses gaps = JArr (map toStaffingGapResponse gaps)"

section \<open>The handlers\<close>

text \<open>A nil gate and the zero value are ready.\<close>

type_synonym Readiness = "int option"

definition SetNotReady :: "Readiness \<Rightarrow> Readiness" where
  "SetNotReady g = (case g of None \<Rightarrow> None | Some _ \<Rightarrow> Some 1)"

definition gate_Ready :: "Readiness \<Rightarrow> bool" where
  "gate_Ready g = (case g of None \<Rightarrow> True | Some notReady \<Rightarrow> notReady = 0)"

record 's Handler =
  h_UseCases :: "'s wf_deps"
  h_Catalogue :: "(string \<Rightarrow> ('s, PathDefinition) op) option"
  h_Readiness :: Readiness

definition validatePathId :: "'s Handler \<Rightarrow> PathId \<Rightarrow> ('s, unit) op" where
  "validatePathId h pathId = (case h_Catalogue h of
       None \<Rightarrow> oret ()
     | Some lookup \<Rightarrow> obind (lookup pathId) (\<lambda>_. oret ()))"

definition healthz :: "'s handler" where
  "healthz = Pair (writeJSON 200 None (JObj [(''status'', JStr ''ok'')]))"

definition handleReadyz :: "'s Handler \<Rightarrow> 's handler" where
  "handleReadyz h = (if \<not> gate_Ready (h_Readiness h)
     then Pair (writeJSON 503 None (JObj [(''status'', JStr ''not_ready'')]))
     else Pair (writeJSON 200 None (JObj [(''status'', JStr ''ready'')])))"

fun certifications :: "string list \<Rightarrow> err + Certification list" where
  "certifications [] = Inr []"
| "certifications (c # cs) = sbind (NewCertification c) (\<lambda>cert. map_sum id (\<lambda>certs. cert # certs) (certifications cs))"

definition startShift :: "'s Handler \<Rightarrow> http_request \<Rightarrow> 's handler" where
  "startShift h r =
     check400 r (olift (NewAssociateId (hq_URLParam r ''id''))) (\<lambda>associateId.
     check400 r (olift (sbind (hq_Body r) decode_startShift)) (\<lambda>req. case req of
       None \<Rightarrow> Pair (writeError r 400 (Sentinel ErrNullBody))
     | Some cs \<Rightarrow>
         check400 r (olift (certifications cs)) (\<lambda>certs.
         execute r (StartAssociateShift_Execute (dp_ports (h_UseCases h)) associateId certs) (\<lambda>shift.
         writeJSON 201 (Some (''/associates/'' @ as_associateId shift))
           (JObj [(''associateId'', JStr (as_associateId shift))])))))"

definition certify :: "'s Handler \<Rightarrow> http_request \<Rightarrow> 's handler" where
  "certify h r =
     check400 r (olift (NewAssociateId (hq_URLParam r ''id''))) (\<lambda>associateId.
     check400 r (olift (sbind (hq_Body r) decode_certify)) (\<lambda>c.
     check400 r (olift (NewCertification c)) (\<lambda>certification.
     execute r (CertifyAssociate_Execute (dp_ports (h_UseCases h)) associateId certification) (\<lambda>_.
     writeNoContent))))"

definition proposePathPlan :: "(string \<Rightarrow> string) \<Rightarrow> 's Handler \<Rightarrow> http_request \<Rightarrow> 's handler" where
  "proposePathPlan uniq h r =
     check400 r (olift (NewPathId (hq_URLParam r ''pathId''))) (\<lambda>pathId.
     check400 r (validatePathId h pathId) (\<lambda>_.
     check400 r (olift (sbind (hq_Body r) decode_proposePathPlan)) (\<lambda>req.
     check400 r (olift (required (pr_BuildingId req) ErrMissingBuildingId)) (\<lambda>_. case pr_Charge req of
       None \<Rightarrow> Pair (writeError r 400 (Sentinel ErrMissingCharge))
     | Some charge \<Rightarrow> (let D = h_UseCases h in
         execute r (ProposePathPlan_Execute (dp_plat D) (dp_ports D) (dp_measured D) (dp_idle D) (dp_threshold D)
             (pr_BuildingId req) pathId charge (pr_PlannedRate req)) (\<lambda>res.
         writeJSON 200 None (proposePathPlanResponse uniq pathId res)))))))"

text \<open>The loop over the lines of a commit: every line checked, then its stations noted.\<close>

fun commit_lines :: "'s Handler \<Rightarrow> pathPlanLineRequest list \<Rightarrow> PathPlan list \<Rightarrow> (PathId \<rightharpoonup> int) \<Rightarrow>
    ('s, PathPlan list \<times> (PathId \<rightharpoonup> int)) op" where
  "commit_lines h [] lines installed = oret (lines, installed)"
| "commit_lines h (l # ls) lines installed =
     obind (olift (NewPathId (lr_PathId l))) (\<lambda>pathId.
     obind (validatePathId h pathId) (\<lambda>_.
     commit_lines h ls (lines @ [\<lparr>pp_PathId = pathId, pp_PlannedHeads = lr_PlannedHeads l,
         pp_PlannedRate = lr_PlannedRate l, pp_PlannedHours = lr_PlannedHours l\<rparr>])
       (installed(pathId \<mapsto> lr_InstalledStations l))))"

definition plan_created :: "ShiftPlan \<Rightarrow> http_response" where
  "plan_created sp =
     writeJSON 201 (Some (''/shift-plans/'' @ sp_buildingId sp @ ''/'' @ sp_shiftId sp)) (shiftPlanResponse sp)"

definition commitShiftPlan :: "'s Handler \<Rightarrow> http_request \<Rightarrow> 's handler" where
  "commitShiftPlan h r =
     check400 r (olift (sbind (hq_Body r) decode_commitShiftPlan)) (\<lambda>req.
     check400 r (olift (required (cr_BuildingId req) ErrMissingBuildingId)) (\<lambda>_.
     check400 r (olift (required (cr_ShiftId req) ErrMissingShiftId)) (\<lambda>_.
     check400 r (commit_lines h (cr_Lines req) [] Map.empty) (\<lambda>(lines, installed). (let D = h_UseCases h in
     execute r (CommitShiftPlan_Execute (dp_ports D) (dp_lookup D) (dp_capacity D) (dp_maxHours D)
         (cr_BuildingId req) (cr_ShiftId req) lines installed) plan_created)))))"

definition assignLabor :: "'s Handler \<Rightarrow> http_request \<Rightarrow> 's handler" where
  "assignLabor h r =
     check400 r (olift (NewAssociateId (hq_URLParam r ''id''))) (\<lambda>associateId.
     check400 r (olift (sbind (hq_Body r) decode_assignLabor)) (\<lambda>p.
     check400 r (olift (NewPathId p)) (\<lambda>pathId.
     check400 r (validatePathId h pathId) (\<lambda>_.
     execute r (AssignLabor_Execute (dp_ports (h_UseCases h)) (dp_maxHours (h_UseCases h)) associateId pathId) (\<lambda>la.
     writeJSON 201 (Some (''/associates/'' @ associateId @ ''/assignments'')) (assignmentResponse la))))))"

definition startBreak :: "'s Handler \<Rightarrow> http_request \<Rightarrow> 's handler" where
  "startBreak h r =
     check400 r (olift (NewAssociateId (hq_URLParam r ''id''))) (\<lambda>associateId.
     execute r (StartBreak_Execute (dp_ports (h_UseCases h)) associateId) (\<lambda>_. writeNoContent))"

definition endBreak :: "'s Handler \<Rightarrow> http_request \<Rightarrow> 's handler" where
  "endBreak h r =
     check400 r (olift (NewAssociateId (hq_URLParam r ''id''))) (\<lambda>associateId.
     execute r (EndBreak_Execute (dp_ports (h_UseCases h)) associateId) (\<lambda>_. writeNoContent))"

definition staffingGap :: "'s Handler \<Rightarrow> http_request \<Rightarrow> 's handler" where
  "staffingGap h r =
     check400 r (olift (NewPathId (hq_URLParam r ''pathId''))) (\<lambda>pathId.
     check400 r (validatePathId h pathId) (\<lambda>_.
     let buildingId = hq_Query r ''buildingId'' in
     check400 r (olift (required buildingId ErrMissingBuildingId)) (\<lambda>_.
     let shiftId = hq_Query r ''shiftId'' in
     check400 r (olift (required shiftId ErrMissingShiftId)) (\<lambda>_.
     execute r (GetStaffingGap_Execute (dp_ports (h_UseCases h)) (dp_idle (h_UseCases h)) buildingId shiftId pathId) (\<lambda>gap.
     writeJSON 200 None (toStaffingGapResponse gap))))))"

definition staffingGapForShift :: "'s Handler \<Rightarrow> http_request \<Rightarrow> 's handler" where
  "staffingGapForShift h r =
     execute r (GetStaffingGap_ExecuteAll (dp_ports (h_UseCases h)) (dp_idle (h_UseCases h))
         (hq_URLParam r ''buildingId'') (hq_URLParam r ''shiftId'')) (\<lambda>gaps.
     writeJSON 200 None (toStaffingGapResponses gaps))"

definition endShift :: "'s Handler \<Rightarrow> http_request \<Rightarrow> 's handler" where
  "endShift h r =
     check400 r (olift (NewAssociateId (hq_URLParam r ''id''))) (\<lambda>associateId.
     execute r (EndAssociateShift_Execute (dp_ports (h_UseCases h)) (dp_maxHours (h_UseCases h)) associateId) (\<lambda>_.
     writeNoContent))"

text \<open>The route table of \<open>NewRouter\<close>.\<close>

datatype route = GET_healthz | GET_readyz | POST_start_shift | POST_certifications | POST_propose | POST_shift_plans
  | POST_assignments | POST_break_start | POST_break_end | GET_path_gap | GET_shift_gap | POST_end_shift

fun serve :: "(string \<Rightarrow> string) \<Rightarrow> 's Handler \<Rightarrow> route \<Rightarrow> http_request \<Rightarrow> 's handler" where
  "serve uniq h GET_healthz r = healthz"
| "serve uniq h GET_readyz r = handleReadyz h"
| "serve uniq h POST_start_shift r = startShift h r"
| "serve uniq h POST_certifications r = certify h r"
| "serve uniq h POST_propose r = proposePathPlan uniq h r"
| "serve uniq h POST_shift_plans r = commitShiftPlan h r"
| "serve uniq h POST_assignments r = assignLabor h r"
| "serve uniq h POST_break_start r = startBreak h r"
| "serve uniq h POST_break_end r = endBreak h r"
| "serve uniq h GET_path_gap r = staffingGap h r"
| "serve uniq h GET_shift_gap r = staffingGapForShift h r"
| "serve uniq h POST_end_shift r = endShift h r"

text \<open>\<open>CORS_ALLOWED_ORIGINS\<close>, and what the logger writes of a path.\<close>

fun split_char :: "char \<Rightarrow> string \<Rightarrow> string list" where
  "split_char sep [] = ['''']"
| "split_char sep (c # s) = (if c = sep then '''' # split_char sep s
     else (c # hd (split_char sep s)) # tl (split_char sep s))"

definition cors_origins :: "string \<Rightarrow> string list" where
  "cors_origins v = (if v \<noteq> '''' then split_char (CHR '','') v else [''http://localhost:5173'', ''http://localhost:5185''])"

definition sanitizeForLog :: "string \<Rightarrow> string" where
  "sanitizeForLog s = filter (\<lambda>c. c \<noteq> char_of (10 :: nat) \<and> c \<noteq> char_of (13 :: nat)) s"

definition request_log_level :: "int \<Rightarrow> string" where
  "request_log_level status = (if status \<ge> 500 then ''ERROR'' else ''INFO'')"

section \<open>The reports reader\<close>

definition writeReportProblem :: "http_request \<Rightarrow> int \<Rightarrow> string \<Rightarrow> string \<Rightarrow> err \<Rightarrow> http_response" where
  "writeReportProblem r status slug title detail =
     \<lparr>hs_Status = status, hs_ContentType = ''application/problem+json'', hs_Location = None,
      hs_Body = Problem \<lparr>pb_Type = problemErrorsURIBase @ ''/'' @ slug, pb_Title = title, pb_Status = status,
        pb_Detail = detail, pb_Instance = hq_Path r\<rparr>\<rparr>"

definition writeReportBadRequest :: "http_request \<Rightarrow> string \<Rightarrow> http_response" where
  "writeReportBadRequest r detail = writeReportProblem r 400 ''invalid-report-query''
     ''The report query is malformed or missing a required parameter'' (Other detail)"

definition writeReportInternal :: "http_request \<Rightarrow> err \<Rightarrow> http_response" where
  "writeReportInternal r e = writeReportProblem r 500 ''report-store-error'' ''The report could not be served'' e"

text \<open>\<open>parseRequiredTime\<close> answers the time, or the response it has written.\<close>

definition parseRequiredTime :: "http_request \<Rightarrow> string \<Rightarrow> string \<Rightarrow> http_response + time" where
  "parseRequiredTime r raw name =
     (if raw = '''' then Inl (writeReportBadRequest r (''query parameter '' @ [CHR 0x27] @ name @ [CHR 0x27] @ '' is required (RFC3339)''))
      else case Parse_RFC3339 raw of
          None \<Rightarrow> Inl (writeReportBadRequest r (''query parameter '' @ [CHR 0x27] @ name @ [CHR 0x27] @ '' must be an RFC3339 timestamp''))
        | Some t \<Rightarrow> Inr t)"

definition laborRowDTO :: "Row \<Rightarrow> json" where
  "laborRowDTO row = JObj [(''pathId'', JStr (rk_PathId (rw_Key row))),
     (''hourBucket'', JStr (Format_RFC3339 (rk_HourBucket (rw_Key row)))),
     (''shiftsStarted'', JInt (rw_ShiftsStarted row)), (''shiftsEnded'', JInt (rw_ShiftsEnded row)),
     (''breaks'', JInt (rw_Breaks row)), (''avgBreakSeconds'', JNum (rw_AvgBreakSeconds row)),
     (''certifications'', JInt (rw_Certifications row)), (''laborAssigned'', JInt (rw_LaborAssigned row)),
     (''laborReassigned'', JInt (rw_LaborReassigned row)),
     (''understaffingEvents'', JInt (rw_UnderstaffingEvents row))]"

definition laborReportDTO :: "LaborReport \<Rightarrow> json" where
  "laborReportDTO rep = JObj [(''rows'', JArr (map laborRowDTO rep))]"

definition GetLabor :: "'s ReportStore \<Rightarrow> http_request \<Rightarrow> 's handler" where
  "GetLabor store r = (case parseRequiredTime r (hq_Query r ''from'') ''from'' of
       Inl resp \<Rightarrow> Pair resp
     | Inr from_time \<Rightarrow> (case parseRequiredTime r (hq_Query r ''to'') ''to'' of
         Inl resp \<Rightarrow> Pair resp
       | Inr to_time \<Rightarrow> (let g = hq_Query r ''granularity'' in
           if g \<noteq> '''' \<and> g \<noteq> ''hour''
           then Pair (writeReportBadRequest r (''granularity must be '' @ [CHR 0x27] @ ''hour'' @ [CHR 0x27]))
           else (\<lambda>s. case Query store \<lparr>rq_From = from_time, rq_To = to_time, rq_PathId = hq_Query r ''pathId'',
                   rq_Granularity = ''hour''\<rparr> s of
                 (Inl e, s') \<Rightarrow> (writeReportInternal r e, s')
               | (Inr rep, s') \<Rightarrow> (writeJSON 200 None (laborReportDTO rep), s')))))"

definition GetFreshness :: "'s ReportStore \<Rightarrow> http_request \<Rightarrow> 's handler" where
  "GetFreshness store r = (\<lambda>s. case FreshnessLag store s of
       (Inl e, s') \<Rightarrow> (writeReportInternal r e, s')
     | (Inr lag, s') \<Rightarrow> (writeJSON 200 None (JObj [(''lagSeconds'', JNum (Seconds lag))]), s'))"

definition GetReportsHealthz :: "'s handler" where
  "GetReportsHealthz = Pair (writeJSON 200 None (JObj [(''status'', JStr ''ok'')]))"

datatype reports_route = GET_reports_healthz | GET_labor | GET_freshness

fun serve_reports :: "'s ReportStore \<Rightarrow> reports_route \<Rightarrow> http_request \<Rightarrow> 's handler" where
  "serve_reports store GET_reports_healthz r = GetReportsHealthz"
| "serve_reports store GET_labor r = GetLabor store r"
| "serve_reports store GET_freshness r = GetFreshness store r"

section \<open>Every response is well formed\<close>

text \<open>
  What a client may rely on, route by route, written down without the handlers. A JSON answer has its status
  and \<open>Location\<close>, and its value unless JSON cannot carry it.
\<close>

definition json_answer :: "int \<Rightarrow> string option \<Rightarrow> json \<Rightarrow> http_response \<Rightarrow> bool" where
  "json_answer status location v p \<longleftrightarrow> hs_Status p = status \<and> hs_ContentType p = ''application/json''
     \<and> hs_Location p = location \<and> hs_Body p = (if marshalable v then JsonBody v else NoBody)"

definition empty_answer :: "int \<Rightarrow> http_response \<Rightarrow> bool" where
  "empty_answer status p \<longleftrightarrow> hs_Status p = status \<and> hs_ContentType p = '''' \<and> hs_Location p = None \<and> hs_Body p = NoBody"

text \<open>A problem repeats its status and names its category and the request.\<close>

definition problem_ok :: "http_request \<Rightarrow> http_response \<Rightarrow> bool" where
  "problem_ok r p \<longleftrightarrow> hs_Status p \<in> {400, 404, 409, 500, 503} \<and> hs_ContentType p = ''application/problem+json''
     \<and> hs_Location p = None
     \<and> (case hs_Body p of Problem d \<Rightarrow> pb_Status d = hs_Status p \<and> pb_Instance d = hq_Path r
          \<and> HasPrefix (pb_Type d) (problemErrorsURIBase @ ''/'') | _ \<Rightarrow> False)"

fun success_of :: "(string \<Rightarrow> string) \<Rightarrow> Readiness \<Rightarrow> route \<Rightarrow> http_request \<Rightarrow> http_response \<Rightarrow> bool" where
  "success_of uniq g GET_healthz r p = json_answer 200 None (JObj [(''status'', JStr ''ok'')]) p"
| "success_of uniq g GET_readyz r p =
     (if gate_Ready g then json_answer 200 None (JObj [(''status'', JStr ''ready'')]) p
      else json_answer 503 None (JObj [(''status'', JStr ''not_ready'')]) p)"
| "success_of uniq g POST_start_shift r p = (\<exists>i. NewAssociateId (hq_URLParam r ''id'') = Inr i
     \<and> json_answer 201 (Some (''/associates/'' @ i)) (JObj [(''associateId'', JStr i)]) p)"
| "success_of uniq g POST_certifications r p = empty_answer 204 p"
| "success_of uniq g POST_propose r p = (\<exists>q heads rate source trim. NewPathId (hq_URLParam r ''pathId'') = Inr q
     \<and> json_answer 200 None (proposePathPlanResponse uniq q (heads, rate, source, trim)) p)"
| "success_of uniq g POST_shift_plans r p = (\<exists>req sp. sbind (hq_Body r) decode_commitShiftPlan = Inr req
     \<and> sp_buildingId sp = cr_BuildingId req \<and> sp_shiftId sp = cr_ShiftId req
     \<and> json_answer 201 (Some (''/shift-plans/'' @ cr_BuildingId req @ ''/'' @ cr_ShiftId req)) (shiftPlanResponse sp) p)"
| "success_of uniq g POST_assignments r p = (\<exists>i q la. NewAssociateId (hq_URLParam r ''id'') = Inr i
     \<and> sbind (sbind (hq_Body r) decode_assignLabor) NewPathId = Inr q \<and> active_on q la
     \<and> json_answer 201 (Some (''/associates/'' @ i @ ''/assignments'')) (assignmentResponse la) p)"
| "success_of uniq g POST_break_start r p = empty_answer 204 p"
| "success_of uniq g POST_break_end r p = empty_answer 204 p"
| "success_of uniq g GET_path_gap r p = (\<exists>gap. NewPathId (hq_URLParam r ''pathId'') = Inr (sg_PathId gap)
     \<and> json_answer 200 None (toStaffingGapResponse gap) p)"
| "success_of uniq g GET_shift_gap r p = (\<exists>gaps. json_answer 200 None (JArr (map toStaffingGapResponse gaps)) p)"
| "success_of uniq g POST_end_shift r p = empty_answer 204 p"

definition response_ok :: "(string \<Rightarrow> string) \<Rightarrow> Readiness \<Rightarrow> route \<Rightarrow> http_request \<Rightarrow> http_response \<Rightarrow> bool" where
  "response_ok uniq g rt r p \<longleftrightarrow> success_of uniq g rt r p
     \<or> rt \<notin> {GET_healthz, GET_readyz} \<and> (problem_ok r p \<or> empty_answer 500 p)"

definition answers :: "(http_response \<Rightarrow> bool) \<Rightarrow> 's handler \<Rightarrow> bool" where
  "answers Q m \<longleftrightarrow> (\<forall>s. Q (fst (m s)))"

lemma answersD: "answers Q m \<Longrightarrow> Q (fst (m s))"
  by (simp add: answers_def)

lemma writeError_ok: "status \<in> {400, 404, 409, 500, 503} \<Longrightarrow> problem_ok r (writeError r status e)"
  by (auto simp: problem_ok_def writeError_def Let_def HasPrefix_iff)

lemma recovered_ok: "empty_answer 500 recovered"
  by (simp add: empty_answer_def recovered_def)

lemma statusFor_range: "statusFor e \<in> {400, 404, 409, 500, 503}"
  by (simp add: statusFor_def)

lemma statusFor_panic: "is_panic e \<Longrightarrow> statusFor e = hs_Status recovered"
  by (cases e) (simp_all add: statusFor_def recovered_def)

lemma json_answers [simp]: "json_answer n l v (writeJSON n l v)" "empty_answer 204 writeNoContent"
  by (simp_all add: json_answer_def writeJSON_def empty_answer_def writeNoContent_def)

definition tolerant :: "http_request \<Rightarrow> (http_response \<Rightarrow> bool) \<Rightarrow> bool" where
  "tolerant r Q \<longleftrightarrow> (\<forall>p. problem_ok r p \<or> empty_answer 500 p \<longrightarrow> Q p)"

lemma tolerant_ok: "rt \<noteq> GET_healthz \<Longrightarrow> rt \<noteq> GET_readyz \<Longrightarrow> tolerant r (response_ok uniq g rt r)"
  by (auto simp: tolerant_def response_ok_def)

lemma answers_error: "tolerant r Q \<Longrightarrow> status \<in> {400, 404, 409, 500, 503} \<Longrightarrow> answers Q (Pair (writeError r status e))"
  using writeError_ok by (auto simp: answers_def tolerant_def)

lemma answers_check400:
  assumes "tolerant r Q" "\<And>a s s'. m s = (Inr a, s') \<Longrightarrow> answers Q (k a)"
  shows "answers Q (check400 r m k)"
  using assms writeError_ok [of 400 r] answersD
  by (fastforce simp: check400_def tolerant_def answers_def split: prod.split sum.split)

lemma answers_olift:
  assumes "tolerant r Q" "\<And>a. x = Inr a \<Longrightarrow> answers Q (k a)"
  shows "answers Q (check400 r (olift x) k)"
  by (rule answers_check400 [OF assms(1)]) (simp add: assms(2))

lemma answers_execute:
  assumes "tolerant r Q" "\<And>a s s'. m s = (Inr a, s') \<Longrightarrow> Q (k a)"
  shows "answers Q (execute r m k)"
  using assms writeError_ok [OF statusFor_range, of r] recovered_ok
  by (fastforce simp: execute_def tolerant_def answers_def split: prod.split sum.split)

text \<open>What the use cases return, whatever the ports do.\<close>

lemma Start_id: "StartAssociateShift_Execute P i certs s = (Inr a, s') \<Longrightarrow> as_associateId a = i"
  by (auto simp: StartAssociateShift_Execute_def domain_simps Let_def ocatch_app elim!: obind_InrE
      split: prod.splits sum.splits if_splits)

lemma Assign_active: "AssignLabor_Execute P mx i q s = (Inr la, s') \<Longrightarrow> active_on q la"
  by (auto simp: AssignLabor_Execute_def assign_prepare_def active_on_def Let_def domain_simps elim!: obind_InrE
      split: if_splits option.splits)

lemma Commit_key: "CommitShiftPlan_Execute P cat cap mx b sh lines st s = (Inr sp, s') \<Longrightarrow> sp_buildingId sp = b \<and> sp_shiftId sp = sh"
  by (auto simp: CommitShiftPlan_Execute_def domain_simps elim!: obind_InrE split: option.splits sum.splits if_splits)

lemma answers_no_content:
  assumes "tolerant r Q" "Q writeNoContent"
  shows "answers Q (certify h r)" "answers Q (startBreak h r)" "answers Q (endBreak h r)" "answers Q (endShift h r)"
  unfolding certify_def startBreak_def endBreak_def endShift_def
  by (intro answers_olift [OF assms(1)] answers_execute [OF assms(1)] assms(2))+

lemma plan_created_ok: "sp_buildingId sp = b \<and> sp_shiftId sp = sh \<Longrightarrow> \<exists>sp'. sp_buildingId sp' = b \<and> sp_shiftId sp' = sh
    \<and> json_answer 201 (Some (''/shift-plans/'' @ b @ ''/'' @ sh)) (shiftPlanResponse sp') (plan_created sp)"
  by (auto simp: plan_created_def simp del: append.simps intro!: exI [of _ sp])

lemma Gap_path: "GetStaffingGap_Execute P idle b sh q s = (Inr gap, s') \<Longrightarrow> sg_PathId gap = q"
  by (auto simp: GetStaffingGap_Execute_def gapForLine_def Let_def elim!: obind_InrE split: if_splits)

text \<open>
  C19: every response of the service, to any request on any route and in any state, is what the API promises
  for that route. A success has the route's status, \<open>Location\<close> and body, about the associate, path or plan the
  request named; the readiness probe answers 503 exactly when the gate is closed; and any other answer
  is a problem document that repeats its status and names the request and a category, or, when a
  handler panicked, the bare 500 of \<open>Recoverer\<close>.
\<close>

theorem serve_well_formed: "response_ok uniq (h_Readiness h) rt r (fst (serve uniq h rt r s))"
proof (cases "rt = GET_healthz \<or> rt = GET_readyz")
  case True
  then show ?thesis by (auto simp: response_ok_def healthz_def handleReadyz_def)
next
  case False
  let ?Q = "response_ok uniq (h_Readiness h) rt r"
  have t: "tolerant r ?Q" using False by (intro tolerant_ok) auto
  have ok: "?Q p" if "success_of uniq (h_Readiness h) rt r p" for p using that by (simp add: response_ok_def)
  note rules = answers_olift [OF t] answers_check400 [OF t] answers_execute [OF t] answers_error [OF t] ok
  have "answers ?Q (serve uniq h rt r)"
  proof (cases rt)
    case POST_start_shift
    show ?thesis unfolding POST_start_shift
      by (auto simp: startShift_def split: option.split intro!: rules [unfolded POST_start_shift] dest!: Start_id)
  next
    case POST_propose
    show ?thesis unfolding POST_propose
      by (auto simp: proposePathPlan_def Let_def split: option.split intro!: rules [unfolded POST_propose] exI json_answers(1))
  next
    case POST_shift_plans
    show ?thesis unfolding POST_shift_plans
      by (auto simp: commitShiftPlan_def Let_def simp del: append.simps
          intro!: rules [unfolded POST_shift_plans] plan_created_ok dest!: Commit_key)
  next
    case POST_assignments
    show ?thesis unfolding POST_assignments
      by (auto simp: assignLabor_def sbind_Inr intro!: rules [unfolded POST_assignments] dest!: Assign_active)
        (blast intro: json_answers(1))
  next
    case GET_path_gap
    show ?thesis unfolding GET_path_gap
      by (auto simp: staffingGap_def Let_def intro!: rules [unfolded GET_path_gap] dest!: Gap_path)
        (blast intro: json_answers(1))
  next
    case GET_shift_gap
    show ?thesis unfolding GET_shift_gap
      by (auto simp: staffingGapForShift_def toStaffingGapResponses_def intro!: rules [unfolded GET_shift_gap])
        (blast intro: json_answers(1))
  qed (use False answers_no_content [OF t ok] in simp_all)
  then show ?thesis by (simp add: answers_def)
qed

section \<open>Status and category agree\<close>

text \<open>The status under which the API documents each category.\<close>

definition category_status :: "problemCategory option \<Rightarrow> int" where
  "category_status c = (case c of None \<Rightarrow> 500 | Some (slug, _) \<Rightarrow>
     if slug = ''resource-not-found'' then 404
     else if slug = ''installed-capacity-unavailable'' then 503
     else if slug \<in> {''empty-associate-id'', ''empty-path-id'', ''unknown-path-id'', ''empty-certification'',
         ''shift-plan-no-path-plans'', ''shift-plan-missing-installed-stations'', ''missing-building-id'',
         ''missing-shift-id'', ''missing-charge''} then 400
     else 409)"

text \<open>Errors a use case returns: none of the adapter's own sentinels, no two writers' failures at once.\<close>

definition use_case_error :: "err \<Rightarrow> bool" where
  "use_case_error e \<longleftrightarrow> \<not> list_ex (errors_is e) [ErrMissingBuildingId, ErrMissingShiftId, ErrMissingCharge]
     \<and> \<not> (errors_is e ErrConcurrentModification \<and> errors_is e ErrInstalledCapacityUnavailable)"

lemma category_slugs:
  "category_status (Some (''resource-not-found'', t)) = 404"
  "category_status (Some (''empty-associate-id'', t)) = 400"
  "category_status (Some (''empty-path-id'', t)) = 400"
  "category_status (Some (''unknown-path-id'', t)) = 400"
  "category_status (Some (''empty-certification'', t)) = 400"
  "category_status (Some (''shift-plan-no-path-plans'', t)) = 400"
  "category_status (Some (''shift-plan-missing-installed-stations'', t)) = 400"
  "category_status (Some (''associate-already-on-break'', t)) = 409"
  "category_status (Some (''associate-not-on-break'', t)) = 409"
  "category_status (Some (''associate-on-break'', t)) = 409"
  "category_status (Some (''associate-shift-ended'', t)) = 409"
  "category_status (Some (''max-hours-exceeded'', t)) = 409"
  "category_status (Some (''certification-required'', t)) = 409"
  "category_status (Some (''planned-heads-exceed-installed'', t)) = 409"
  "category_status (Some (''exceeds-installed-capacity'', t)) = 409"
  "category_status (Some (''planned-hours-exceed-capacity'', t)) = 409"
  "category_status (Some (''installed-capacity-unavailable'', t)) = 503"
  "category_status (Some (''concurrent-modification'', t)) = 409"
  "category_status None = 500"
  by (simp_all add: category_status_def)

text \<open>
  C18: the two tables of the error mapping agree: the status of a use case's error is the one
  its problem category is documented with, 500 exactly for an error no category knows.
\<close>

theorem status_matches_category:
  assumes "use_case_error e"
  shows "statusFor e = category_status (category_loop e problemCategoryCatalog)"
  using assms
  by (simp add: use_case_error_def statusFor_def problemCategoryCatalog_def category_slugs)

theorem status_matches_category_witness:
  "statusFor (Wrap ''save'' (Sentinel ErrConcurrentModification)) = 409"
  using status_matches_category [of "Wrap ''save'' (Sentinel ErrConcurrentModification)"]
  by (simp add: use_case_error_def problemCategoryCatalog_def category_slugs)

section \<open>A failure changes nothing\<close>

text \<open>
  The API over any wiring of the use cases on a transactional state. The catalogue the handler
  validates ids against only reads.
\<close>

locale http_service = tx_service vw inv P inner D
  for vw :: "'s \<Rightarrow> 'v" and inv :: "'s \<Rightarrow> bool" and P :: "'s ports" and inner and D :: "'s wf_deps" +
  fixes h :: "'s Handler"
  assumes wired: "h_UseCases h = D"
    and validates: "h_Catalogue h = Some lookup \<Longrightarrow> quiet (lookup p)"
begin

definition safe :: "'s handler \<Rightarrow> bool" where
  "safe m \<longleftrightarrow> (\<forall>s p s'. m s = (p, s') \<longrightarrow> inv s \<longrightarrow> 400 \<le> hs_Status p \<longrightarrow> vw s' = vw s)"

lemma safeD: "safe m \<Longrightarrow> m s = (p, s') \<Longrightarrow> inv s \<Longrightarrow> 400 \<le> hs_Status p \<Longrightarrow> vw s' = vw s"
  by (simp add: safe_def)

lemma safe_Pair: "safe (Pair p)"
  by (simp add: safe_def)

lemma safe_check400: "quiet m \<Longrightarrow> (\<And>a. safe (k a)) \<Longrightarrow> safe (check400 r m k)"
  unfolding safe_def check400_def quiet_def
  by (auto split: prod.splits sum.splits)

lemma safe_execute:
  assumes "\<And>s e s'. m s = (Inl e, s') \<Longrightarrow> inv s \<Longrightarrow> vw s' = vw s" "\<And>a. hs_Status (k a) < 400"
  shows "safe (execute r m k)"
proof -
  have "\<not> 400 \<le> hs_Status (k a)" for a using assms(2) [of a] by simp
  then show ?thesis unfolding safe_def execute_def using assms(1) by (auto split: prod.splits sum.splits)
qed

lemma quiet_validatePathId: "quiet (validatePathId h p)"
  by (auto simp: validatePathId_def intro!: quiet_intros validates split: option.split)

lemma quiet_commit_lines: "quiet (commit_lines h ls lines inst)"
  by (induction ls arbitrary: lines inst) (auto intro!: quiet_intros quiet_validatePathId)

lemma success_status [simp]:
  "hs_Status (writeJSON st l v) = st" "hs_Status writeNoContent = 204"
  by (simp_all add: writeJSON_def writeNoContent_def)

lemmas safe_intros = safe_Pair safe_check400 safe_execute quiet_pure quiet_validatePathId quiet_commit_lines

lemma safe_serve: "safe (serve uniq h rt r)"
proof -
  note [simp] = wired dp_P Let_def
  show ?thesis
  proof (cases rt)
    case GET_healthz
    then show ?thesis by (simp add: healthz_def safe_Pair)
  next
    case GET_readyz
    then show ?thesis by (simp add: handleReadyz_def safe_Pair)
  next
    case POST_start_shift
    then show ?thesis by (auto simp: startShift_def intro!: safe_intros split: option.split elim: StartAssociateShift_fails)
  next
    case POST_certifications
    then show ?thesis by (auto simp: certify_def intro!: safe_intros elim: CertifyAssociate_fails)
  next
    case POST_propose
    then show ?thesis
      by (auto simp: proposePathPlan_def intro!: safe_intros split: option.split
          elim!: Propose_fails intro: measured_quiet idle_quiet)
  next
    case POST_shift_plans
    then show ?thesis
      by (auto simp: commitShiftPlan_def plan_created_def intro!: safe_intros elim!: CommitShiftPlan_fails intro: cap_quiet lookup_quiet)
  next
    case POST_assignments
    then show ?thesis by (auto simp: assignLabor_def intro!: safe_intros elim: AssignLabor_fails)
  next
    case POST_break_start
    then show ?thesis by (auto simp: startBreak_def intro!: safe_intros elim: StartBreak_fails)
  next
    case POST_break_end
    then show ?thesis by (auto simp: endBreak_def intro!: safe_intros elim: EndBreak_fails)
  next
    case GET_path_gap
    then show ?thesis by (auto simp: staffingGap_def intro!: safe_intros elim!: Gap_fails intro: idle_quiet)
  next
    case GET_shift_gap
    then show ?thesis by (auto simp: staffingGapForShift_def intro!: safe_intros elim!: GapAll_fails intro: idle_quiet)
  next
    case POST_end_shift
    then show ?thesis by (auto simp: endShift_def intro!: safe_intros elim: EndAssociateShift_fails)
  qed
qed

end

section \<open>On the in-memory adapters\<close>

text \<open>The handler as the composition root wires it, its catalogue answering by a function.\<close>

definition http_handler :: "'s wf_deps \<Rightarrow> (string \<Rightarrow> err + PathDefinition) option \<Rightarrow> Readiness \<Rightarrow> 's Handler" where
  "http_handler D lk readiness =
     \<lparr>h_UseCases = D, h_Catalogue = map_option (\<lambda>f p. olift (f p)) lk, h_Readiness = readiness\<rparr>"

interpretation mem_http: http_service mem_view mem_inv mem_ports mem_inner
  "mem_deps lk cap mr idle th (Fin 8) plat" "http_handler (mem_deps lk cap mr idle th (Fin 8) plat) lk' readiness"
  for lk cap mr idle th plat lk' readiness
  by unfold_locales (auto simp: http_handler_def mem_wf.quiet_pure)

text \<open>What decides an assignment: the associate's shift, and the hours of the interval it would close.\<close>

definition closes_over :: "f64 \<Rightarrow> mem \<Rightarrow> AssociateId \<Rightarrow> AssociateShift \<Rightarrow> bool" where
  "closes_over mx s i a = (case map_of (mem_asg s) i of None \<Rightarrow> False | Some l \<Rightarrow> (case la_active l of
       None \<Rightarrow> False
     | Some iv \<Rightarrow> flt mx (fadd (as_hoursLogged a) (Hours (time_Sub (fst (mem_Now s)) (iv_Start iv))))))"

definition assignment_verdict :: "f64 \<Rightarrow> mem \<Rightarrow> AssociateId \<Rightarrow> PathId \<Rightarrow> int" where
  "assignment_verdict mx s i p = (case map_of (mem_assoc s) i of
       None \<Rightarrow> 404
     | Some a \<Rightarrow> if as_ended a \<or> as_onBreak a \<or> p \<notin> as_certifications a \<or> closes_over mx s i a then 409 else 201)"

definition assignment_status :: "(string \<Rightarrow> err + PathDefinition) option \<Rightarrow> f64 \<Rightarrow> mem \<Rightarrow> http_request \<Rightarrow> int" where
  "assignment_status lk mx s r =
     (if hq_URLParam r ''id'' = '''' then 400
      else case sbind (hq_Body r) decode_assignLabor of
          Inl _ \<Rightarrow> 400
        | Inr p \<Rightarrow>
            if p = '''' \<or> (case lk of None \<Rightarrow> False | Some f \<Rightarrow> isl (f p)) then 400
            else assignment_verdict mx s (hq_URLParam r ''id'') p)"

lemma hs_Status_simps [simp]:
  "hs_Status (writeJSON st l v) = st" "hs_Status (writeError r st e) = st" "hs_Status writeNoContent = 204"
  by (simp_all add: writeJSON_def writeError_def writeNoContent_def Let_def)

lemma statusFor_sentinels:
  "statusFor (Sentinel ErrNotFound) = 404" "statusFor (Sentinel ErrShiftEnded) = 409"
  "statusFor (Sentinel ErrOnBreak) = 409" "statusFor (Sentinel ErrCertificationRequired) = 409"
  "statusFor (Sentinel ErrMaxHoursExceeded) = 409" "statusFor (Sentinel ErrAlreadyOnBreak) = 409"
  "statusFor (Sentinel ErrNotOnBreak) = 409"
  by (simp_all add: statusFor_def)

lemma mem_assign_status:
  assumes "AssignLabor_Execute mem_ports mx i p s = (res, s')"
  shows "(case res of Inl e \<Rightarrow> statusFor e | Inr _ \<Rightarrow> 201) = assignment_verdict mx s i p"
proof (cases "map_of (mem_assoc s) i")
  case None
  then show ?thesis using assms
    by (auto simp: AssignLabor_Execute_def assign_prepare_def mem_FindByID_def obind_app assignment_verdict_def
        statusFor_sentinels)
next
  case (Some a)
  let ?b = "a\<lparr>as_events := []\<rparr>"
  have f: "mem_FindByID i s = (Inr ?b, s)" using Some by (simp add: mem_FindByID_def RehydrateAssociate_def)
  note [simp] = AssignLabor_Execute_def assign_prepare_def obind_app f CanBeAssigned_def assignment_verdict_def Some
    statusFor_sentinels Let_def HasCertification_def
  consider (ended) "as_ended a" | (break) "\<not> as_ended a" "as_onBreak a"
    | (uncertified) "\<not> as_ended a" "\<not> as_onBreak a" "p \<notin> as_certifications a"
    | (free) "\<not> as_ended a" "\<not> as_onBreak a" "p \<in> as_certifications a" by blast
  then show ?thesis
  proof cases
    case uncertified
    then show ?thesis using assms
      by (auto simp: find_or_new_assignment_def ocatch_app mem_FindByAssociateID_def onow_def Assign_def
          split: option.splits prod.splits)
  next
    case free
    note [simp] = onow_def mem_Now_def atomically_def assign_body_def mem_Save_assoc_def mem_Save_asg_def log_Publish_def
    show ?thesis
    proof (cases "\<exists>l iv. map_of (mem_asg s) i = Some l \<and> la_active l = Some iv")
      case True
      then show ?thesis using assms free
        by (auto simp: find_or_new_assignment_def ocatch_app mem_FindByAssociateID_def Assign_def
            log_closed_def LogHours_def closeActive_def la_record_def interval_Hours_def closes_over_def
            split: list.splits if_splits)
    next
      case False
      then show ?thesis using assms free
        by (auto simp: find_or_new_assignment_def ocatch_app mem_FindByAssociateID_def Assign_def NewLaborAssignment_def
            log_closed_def closeActive_def la_record_def closes_over_def split: option.splits list.splits)
    qed
  qed (use assms Some in auto)
qed

text \<open>
  C23: the status of an assignment request on the in-memory service, in every case: 400 for an
  empty id, a body that does not decode, an empty path or one the catalogue does not know;
  404 for an associate not on the roster; 409 for one who may not take the path (shift ended, on
  break, not certified, or over the limit with the interval it would close); 201 otherwise.
\<close>

theorem assignments_status_exact:
  "hs_Status (fst (assignLabor (http_handler (mem_deps lk' cap mr idle th mx plat) lk readiness) r s))
   = assignment_status lk mx s r"
proof -
  let ?i = "hq_URLParam r ''id''"
  have X: "hs_Status (fst (execute r (AssignLabor_Execute mem_ports mx i p) k s)) = assignment_verdict mx s i p"
    if "\<And>la. hs_Status (k la) = 201" for i p k
    using mem_assign_status [of mx i p s] that
    by (auto simp: execute_def statusFor_panic split: prod.splits sum.splits)
  show ?thesis
    by (auto simp: assignLabor_def assignment_status_def check400_def NewAssociateId_def NewPathId_def
        http_handler_def validatePathId_def mem_deps_def X obind_app split: sum.splits option.splits)
qed

section \<open>Hours of the report\<close>

lemma parseRequiredTime_Inr: "parseRequiredTime r raw name = Inr t \<longleftrightarrow> raw \<noteq> '''' \<and> Parse_RFC3339 raw = Some t"
  by (auto simp: parseRequiredTime_def split: option.splits)

lemma Format_nonempty: "Format_RFC3339 t \<noteq> ''''"
  by (auto simp: Format_RFC3339_def Let_def split: prod.splits)

text \<open>
  An hour the report names can be given back as a bound of the next query: printed in a
  row and parsed from a query value, an hour of the years 1 to 9999 is the same instant.
\<close>

theorem report_hour_roundtrip:
  assumes "0 \<le> t" "t < 315537897600 * second_ns"
  shows "parseRequiredTime r (Format_RFC3339 (truncate_hour t)) name = Inr (truncate_hour t)"
proof -
  have "0 \<le> truncate_hour t" "truncate_hour t < 315537897600 * second_ns"
    using assms truncate_hour_le [of t] zmod_le_nonneg_dividend [OF assms(1)] by (auto simp: truncate_hour_def)
  moreover have "truncate_hour t mod second_ns = 0"
    by (auto simp: truncate_hour_def intro!: dvd_imp_mod_0 dvd_trans [OF _ dvd_minus_mod])
  ultimately show ?thesis using Parse_Format [of "truncate_hour t"] by (simp add: parseRequiredTime_Inr Format_nonempty)
qed

end
