(* ===== verification/HttpPg.thy ===== *)
theory HttpPg
  imports HttpApi PgProperties
begin

text \<open>
  The REST API over the Postgres adapters: a failed request has changed nothing, and what a
  created shift plan promises.
\<close>

abbreviation pg_handler ::
  "sdk \<Rightarrow> (string \<times> string) list \<Rightarrow> (path_row list \<Rightarrow> path_row list) \<Rightarrow>
   (string \<Rightarrow> err + PathDefinition) option \<Rightarrow> (Capability \<Rightarrow> err + int) \<Rightarrow> (PathId \<Rightarrow> err + f64) option \<Rightarrow>
     (PathId \<Rightarrow> err + f64) option \<Rightarrow> f64 \<Rightarrow> f64 \<Rightarrow> (f64 \<Rightarrow> int) \<Rightarrow> Readiness \<Rightarrow> pg Handler" where
  "pg_handler k trace ord lk cap mr idle th mx plat readiness \<equiv>
     http_handler (pg_deps k trace ord lk cap mr idle th mx plat) lk readiness"

interpretation pg_http: http_service pg_db pg_inv "pg_ports k trace ord" pg_inner
  "pg_deps k trace ord lk cap mr idle th mx plat" "pg_handler k trace ord lk cap mr idle th mx plat readiness"
  for k trace ord lk cap mr idle th mx plat readiness
  by unfold_locales (auto simp: http_handler_def pg_tables.quiet_pure)

text \<open>
  C3: a request answered with an error, on any route, for any request and whatever database
  statement failed, has changed nothing: the committed database, aggregates and outbox both, is
  the one before the request.
\<close>

theorem http_error_changes_nothing:
  assumes "serve uniq (pg_handler k trace ord lk cap mr idle th mx plat readiness) rt r s = (p, s')"
    and "pg_inv s" "400 \<le> hs_Status p"
  shows "pg_db s' = pg_db s"
  by (rule pg_http.safeD [OF pg_http.safe_serve assms])

section \<open>Created plans\<close>

lemma commit_lines_spec:
  assumes "commit_lines h ls lines inst s = (Inr (out, inst'), s')"
  shows "out = lines @ map (\<lambda>l. \<lparr>pp_PathId = lr_PathId l, pp_PlannedHeads = lr_PlannedHeads l,
    pp_PlannedRate = lr_PlannedRate l, pp_PlannedHours = lr_PlannedHours l\<rparr>) ls"
  using assms
proof (induction ls arbitrary: lines inst s)
  case (Cons l ls)
  then obtain s1 where "commit_lines h ls (lines @ [\<lparr>pp_PathId = lr_PathId l, pp_PlannedHeads = lr_PlannedHeads l,
      pp_PlannedRate = lr_PlannedRate l, pp_PlannedHours = lr_PlannedHours l\<rparr>])
      (inst(lr_PathId l \<mapsto> lr_InstalledStations l)) s1 = (Inr (out, inst'), s')"
    by (auto elim!: obind_InrE)
  from Cons.IH [OF this] show ?case by simp
qed simp

definition requested_lines :: "commitShiftPlanRequest \<Rightarrow> PathPlan list" where
  "requested_lines req = map (\<lambda>l. \<lparr>pp_PathId = lr_PathId l, pp_PlannedHeads = lr_PlannedHeads l,
     pp_PlannedRate = lr_PlannedRate l, pp_PlannedHours = lr_PlannedHours l\<rparr>) (cr_Lines req)"

lemma pg_commit_distinct:
  assumes "CommitShiftPlan_Execute (pg_ports k trace ord) (Some (\<lambda>p. olift (lk p))) (\<lambda>c. olift (cap c)) mx b sh lines st s
      = (Inr sp, s')" "pg_inv s"
  shows "distinct (map pp_PathId lines)"
proof -
  from assms(1) obtain inst s1 t s2 sp0 where 1:
    "capacities (\<lambda>p. olift (lk p)) (\<lambda>c. olift (cap c)) lines Map.empty Map.empty s = (Inr inst, s1)"
    "onow (pg_ports k trace ord) s1 = (Inr t, s2)" "CommitShiftPlan b sh lines st inst mx t = Inr sp0"
    "atomically (pg_ports k trace ord) (commit_body (pg_ports k trace ord) sp0) s2 = (Inr (), s')"
    by (auto simp: CommitShiftPlan_Execute_def simp del: olift_app elim!: obind_InrE dest!: olift_InrD)
  have "s1 = s" using capacities_spec [OF 1(1)] by (simp add: memo_ok_def)
  then have tx: "pg_tx s2 = None"
    using 1(2) assms(2) by (auto simp: onow_def pg_Now_def pg_inv_def split: list.splits)
  have "UnitOfWork_Execute (commit_body (pg_ports k trace ord) sp0) s2 = (Inr (), s')"
    using 1(4) by (simp add: atomically_def)
  moreover have "pg_inner (commit_body (pg_ports k trace ord) sp0)" by (rule pg_tables.inner_bodies(4))
  ultimately obtain s3 s4 where "commit_body (pg_ports k trace ord) sp0 s3 = (Inr (), s4)"
    using uow_cases [OF _ tx] by fastforce
  then obtain s5 where "pg_Save_plan sp0 s3 = (Inr (), s5)" by (auto simp: commit_body_def elim!: obind_InrE)
  then have "distinct (map pp_PathId (sp_lines sp0))" using pg_Save_plan_Inr by blast
  then show ?thesis using 1(3) by (auto simp: CommitShiftPlan_Inr)
qed

lemma check400_success:
  assumes "hs_Status p < 400"
  shows "check400 r m k s = (p, s') \<longleftrightarrow> (\<exists>a s1. m s = (Inr a, s1) \<and> k a s1 = (p, s'))"
  using assms by (auto simp: check400_def split: prod.splits sum.splits)

lemma execute_success:
  assumes "execute r m k s = (p, s')" "hs_Status p < 400"
  obtains a where "m s = (Inr a, s')" "p = k a"
proof -
  obtain x s1 where x: "m s = (x, s1)" by fastforce
  show thesis
  proof (cases x)
    case (Inl e)
    then have "p = (if is_panic e then recovered else writeError r (statusFor e) e)" using assms(1) x by (simp add: execute_def)
    then show thesis using assms(2) statusFor_range [of e] by (auto simp: recovered_def split: if_splits)
  next
    case (Inr a)
    then show thesis using assms(1) x that by (simp add: execute_def)
  qed
qed

lemma validate_pure:
  assumes "h_Catalogue h = map_option (\<lambda>f p. olift (f p)) lk"
  shows "validatePathId h p = olift (case lk of None \<Rightarrow> Inr () | Some f \<Rightarrow> map_sum id (\<lambda>_. ()) (f p))"
  using assms by (auto simp: validatePathId_def fun_eq_iff obind_app split: option.split sum.split)

lemma commit_lines_pure:
  assumes "h_Catalogue h = map_option (\<lambda>f p. olift (f p)) lk"
  shows "snd (commit_lines h ls lines inst s) = s"
proof (induction ls arbitrary: lines inst)
  case (Cons l ls)
  then show ?case
    by (simp add: validate_pure [OF assms] obind_app split: sum.split)
qed simp

lemma commitShiftPlan_success:
  assumes "commitShiftPlan h r s = (p, s')" "hs_Status p < 400"
  shows "\<exists>req lines inst s1. sbind (hq_Body r) decode_commitShiftPlan = Inr req
    \<and> commit_lines h (cr_Lines req) [] Map.empty s = (Inr (lines, inst), s1)
    \<and> execute r (CommitShiftPlan_Execute (dp_ports (h_UseCases h)) (dp_lookup (h_UseCases h)) (dp_capacity (h_UseCases h))
         (dp_maxHours (h_UseCases h)) (cr_BuildingId req) (cr_ShiftId req) lines inst) plan_created s1 = (p, s')"
  using assms(1) unfolding commitShiftPlan_def Let_def check400_success [OF assms(2)] olift_app prod.inject
  by (auto simp del: commit_lines.simps)

text \<open>
  C9: a shift plan is reported created only if it is stored as requested: the plan that is read
  from then on for that building and shift has the requested lines, all of them and no others,
  and no path is planned twice; nothing else the service stores has changed.
\<close>

theorem created_plan_stored:
  assumes "\<And>rs. mset (ord rs) = mset rs" "pg_inv s"
    and "commitShiftPlan (pg_handler k trace ord lk cap mr idle th mx plat readiness) r s = (p, s')"
    and "hs_Status p = 201"
  shows "\<exists>req q. sbind (hq_Body r) decode_commitShiftPlan = Inr req
    \<and> pg_view ord s' = (pg_view ord s)\<lparr>v_plan := (v_plan (pg_view ord s))((cr_BuildingId req, cr_ShiftId req) \<mapsto> q)\<rparr>
    \<and> mset (sp_lines q) = mset (requested_lines req) \<and> distinct (map lr_PathId (cr_Lines req))
    \<and> hs_Location p = Some (''/shift-plans/'' @ cr_BuildingId req @ ''/'' @ cr_ShiftId req)"
proof -
  let ?h = "pg_handler k trace ord lk cap mr idle th mx plat readiness"
  let ?D = "pg_deps k trace ord lk cap mr idle th mx plat"
  have st: "hs_Status p < 400" using assms(4) by simp
  have h: "h_UseCases ?h = ?D" "h_Catalogue ?h = map_option (\<lambda>f p. olift (f p)) lk" by (simp_all add: http_handler_def)
  from commitShiftPlan_success [OF assms(3) st] obtain req lines inst s1 where 1: "sbind (hq_Body r) decode_commitShiftPlan = Inr req"
    "commit_lines ?h (cr_Lines req) [] Map.empty s = (Inr (lines, inst), s1)"
    "execute r (CommitShiftPlan_Execute (dp_ports ?D) (dp_lookup ?D) (dp_capacity ?D) (dp_maxHours ?D)
         (cr_BuildingId req) (cr_ShiftId req) lines inst) plan_created s1 = (p, s')"
    unfolding h(1) by blast
  have s1: "s1 = s" using commit_lines_pure [OF h(2), of "cr_Lines req" "[]" Map.empty s] 1(2) by simp
  have lines: "lines = requested_lines req" using commit_lines_spec [OF 1(2)] by (simp add: requested_lines_def)
  from execute_success [OF 1(3) st] obtain sp where sp:
    "CommitShiftPlan_Execute (dp_ports ?D) (dp_lookup ?D) (dp_capacity ?D) (dp_maxHours ?D)
       (cr_BuildingId req) (cr_ShiftId req) lines inst s = (Inr sp, s')"
    "p = plan_created sp"
    unfolding s1 by blast
  obtain f where f: "lk = Some f" using sp(1) by (cases lk) (simp_all add: pg_deps_def CommitShiftPlan_Execute_def)
  have loc: "hs_Location (plan_created x) = Some (''/shift-plans/'' @ sp_buildingId x @ ''/'' @ sp_shiftId x)" for x
    by (simp add: plan_created_def writeJSON_def)
  note sp' = sp(1) [unfolded pg_deps_def f, simplified]
  have d: "distinct (map pp_PathId lines)" by (rule pg_commit_distinct [OF sp' assms(2)])
  note Q = transactional.quiet_pure(3) [OF workforce.all_or_nothing_view [OF pg_workforce [OF assms(1)]]]
  from workforce.CommitShiftPlan_effect [OF pg_workforce [OF assms(1)] sp' assms(2) Q Q]
  obtain q inst' t sp0 where q: "stored_plan sp q"
    "pg_view ord s' = (pg_view ord s)\<lparr>v_plan := (v_plan (pg_view ord s))((cr_BuildingId req, cr_ShiftId req) \<mapsto> q)\<rparr>"
    "CommitShiftPlan (cr_BuildingId req) (cr_ShiftId req) lines inst inst' mx t = Inr sp0" "sp = sp0\<lparr>sp_events := []\<rparr>"
    by blast
  have "sp_lines sp = lines" "sp_buildingId sp = cr_BuildingId req" "sp_shiftId sp = cr_ShiftId req"
    using q(3,4) by (auto simp: CommitShiftPlan_Inr)
  then show ?thesis using 1(1) q(1,2) d sp(2) lines loc [of sp]
    by (intro exI [of _ req] exI [of _ q]) (simp add: stored_plan_def requested_lines_def o_def)
qed

section \<open>Concrete requests\<close>

definition demo_lines :: "string list \<Rightarrow> json" where
  "demo_lines ps = JArr (map (\<lambda>p. JObj [(''pathId'', JStr p), (''plannedHeads'', JInt 2), (''plannedRate'', JInt 30),
     (''plannedHours'', JInt 8), (''installedStations'', JInt 4)]) ps)"

definition demo_commit :: "string list \<Rightarrow> http_request" where
  "demo_commit ps = \<lparr>hq_URLParam = (\<lambda>_. ''''),
     hq_Body = Inr (JObj [(''buildingId'', JStr ''b1''), (''shiftId'', JStr ''s1''), (''lines'', demo_lines ps)]),
     hq_Query = (\<lambda>_. ''''), hq_Path = ''/shift-plans''\<rparr>"

abbreviation demo_handler :: "pg Handler" where
  "demo_handler \<equiv> pg_handler demo_sdk [] (\<lambda>rs. rs) (Some (\<lambda>_. Inr demo_path)) (\<lambda>_. Inr 3) None None (Fin 0) (Fin 8)
     (\<lambda>_. 0) None"

lemma demo_folds:
  "foldName ''buildingId'' = ''BUILDINGID''" "foldName ''shiftId'' = ''SHIFTID''" "foldName ''lines'' = ''LINES''"
  "foldName ''pathId'' = ''PATHID''" "foldName ''plannedHeads'' = ''PLANNEDHEADS''"
  "foldName ''plannedRate'' = ''PLANNEDRATE''" "foldName ''plannedHours'' = ''PLANNEDHOURS''"
  "foldName ''installedStations'' = ''INSTALLEDSTATIONS''"
  by code_simp+

lemma demo_floats: "f64_of_int 30 = Fin 30" "f64_of_int 8 = Fin 8"
  by (simp_all add: f64_of_int_small)

definition demo_line_request :: "string \<Rightarrow> pathPlanLineRequest" where
  "demo_line_request p = \<lparr>lr_PathId = p, lr_PlannedHeads = 2, lr_PlannedRate = Fin 30, lr_PlannedHours = Fin 8,
     lr_InstalledStations = 4\<rparr>"

lemma demo_decode_line:
  "decode_pathPlanLine (JObj [(''pathId'', JStr p), (''plannedHeads'', JInt 2), (''plannedRate'', JInt 30),
     (''plannedHours'', JInt 8), (''installedStations'', JInt 4)]) v = Inr (demo_line_request p)"
  by (simp add: decode_pathPlanLine_def dec_object_def dec_field_def field_values_def demo_folds demo_floats
      demo_line_request_def del: foldName.simps)

lemma demo_decode_lines: "dec_each z decode_pathPlanLine (map (\<lambda>p. JObj [(''pathId'', JStr p), (''plannedHeads'', JInt 2),
     (''plannedRate'', JInt 30), (''plannedHours'', JInt 8), (''installedStations'', JInt 4)]) ps)
   = Inr (map demo_line_request ps)"
  by (induction ps) (simp_all add: demo_decode_line)

lemma demo_commit_decode:
  "sbind (hq_Body (demo_commit ps)) decode_commitShiftPlan
   = Inr \<lparr>cr_BuildingId = ''b1'', cr_ShiftId = ''s1'', cr_Lines = map demo_line_request ps\<rparr>"
  by (simp add: decode_commitShiftPlan_def demo_commit_def dec_object_def dec_field_def field_values_def demo_folds
      demo_lines_def demo_decode_lines del: foldName.simps)

lemma demo_commit_lines:
  "commit_lines demo_handler (map demo_line_request [''pack'', p]) [] Map.empty s =
     (if p = '''' then (Inl (Sentinel ErrEmptyPathId), s) else
      (Inr ([\<lparr>pp_PathId = ''pack'', pp_PlannedHeads = 2, pp_PlannedRate = Fin 30, pp_PlannedHours = Fin 8\<rparr>,
             \<lparr>pp_PathId = p, pp_PlannedHeads = 2, pp_PlannedRate = Fin 30, pp_PlannedHours = Fin 8\<rparr>],
         [''pack'' \<mapsto> 4, p \<mapsto> 4]), s))"
  by (simp add: http_handler_def pg_deps_def validatePathId_def NewPathId_def demo_line_request_def)

lemma demo_heads: "\<not> flt (fmul (f64_of_int 2) (Fin 8)) (Fin 8)"
proof -
  have "flround 16 = Fin 16" using f64_of_int_small [of 16] by (simp add: f64_of_int_def)
  then show ?thesis by (simp add: f64_of_int_small)
qed

abbreviation demo_pp :: "PathId \<Rightarrow> PathPlan" where
  "demo_pp p \<equiv> \<lparr>pp_PathId = p, pp_PlannedHeads = 2, pp_PlannedRate = Fin 30, pp_PlannedHours = Fin 8\<rparr>"

lemma demo_capacities:
  "\<exists>inst. capacities (\<lambda>p. olift (Inr demo_path)) (\<lambda>c. olift (Inr 3)) [demo_pp ''pack'', demo_pp p] Map.empty Map.empty s
     = (Inr inst, s) \<and> inst ''pack'' = Some 3 \<and> inst p = Some 3"
  by (auto simp: installedCapacityForPath_def demo_path_def obind_app ocatch_app)

abbreviation demo_plan_of :: "PathId \<Rightarrow> ShiftPlan" where
  "demo_plan_of p \<equiv> \<lparr>sp_buildingId = ''b1'', sp_shiftId = ''s1'', sp_lines = [demo_pp ''pack'', demo_pp p],
     sp_events = [ShiftPlanCommitted 1 ''b1'' ''s1'']\<rparr>"

lemma demo_plan:
  "inst ''pack'' = Some 3 \<Longrightarrow> inst p = Some 3 \<Longrightarrow>
   CommitShiftPlan ''b1'' ''s1'' [demo_pp ''pack'', demo_pp p] [''pack'' \<mapsto> 4, p \<mapsto> 4] inst (Fin 8) 1 = Inr (demo_plan_of p)"
  by (simp add: CommitShiftPlan_Inr line_ok_def demo_heads)

lemmas plan_eval = demo_eval pg_Save_plan_def insert_plan_def delete_paths_def insert_path_def plan_rows_def
  commit_body_def sp_PullEvents_def pg_FindByBuildingAndShift_def row_line_def RehydratePlan_def shiftPlanCommittedData_def
  shiftPlanKey_def

lemma demo_uow:
  "fst (UnitOfWork_Execute (commit_body demo_ports (demo_plan_of ''pack'')) (demo_pg [] [] empty_db))
     = Inl (Other ''duplicate key value violates unique constraint path_plan_pkey'')"
  "fst (UnitOfWork_Execute (commit_body demo_ports (demo_plan_of ''pick'')) (demo_pg [] [] empty_db)) = Inr ()"
  by (simp_all add: plan_eval)

lemma demo_execute:
  assumes "p \<in> {''pack'', ''pick''}"
  shows "\<exists>x s'. CommitShiftPlan_Execute demo_ports (Some (\<lambda>p. olift (Inr demo_path))) (\<lambda>c. olift (Inr 3)) (Fin 8) ''b1'' ''s1''
     [demo_pp ''pack'', demo_pp p] [''pack'' \<mapsto> 4, p \<mapsto> 4] (demo_pg [] [1] empty_db) = (x, s')
     \<and> (if p = ''pack'' then x = Inl (Other ''duplicate key value violates unique constraint path_plan_pkey'') else isl x = False)"
proof -
  from demo_capacities [of p "demo_pg [] [1] empty_db"] obtain inst where i: "capacities (\<lambda>p. olift (Inr demo_path)) (\<lambda>c. olift (Inr 3)) [demo_pp ''pack'', demo_pp p]
      Map.empty Map.empty (demo_pg [] [1] empty_db) = (Inr inst, demo_pg [] [1] empty_db)"
    "inst ''pack'' = Some 3" "inst p = Some 3" by (elim exE conjE)
  have n: "onow demo_ports (demo_pg [] [1] empty_db) = (Inr 1, demo_pg [] [] empty_db)"
    by (simp add: onow_def pg_Now_def demo_pg_def)
  obtain u s' where u: "UnitOfWork_Execute (commit_body demo_ports (demo_plan_of p)) (demo_pg [] [] empty_db) = (u, s')"
    by fastforce
  have "u = fst (UnitOfWork_Execute (commit_body demo_ports (demo_plan_of p)) (demo_pg [] [] empty_db))"
    unfolding u by simp
  then have U: "u = (if p = ''pack'' then Inl (Other ''duplicate key value violates unique constraint path_plan_pkey'') else Inr ())"
    using assms demo_uow by auto
  show ?thesis
    unfolding CommitShiftPlan_Execute_def option.case obind_app i(1) n prod.case sum.case demo_plan [OF i(2,3)] olift_app
      atomically_def pg_ports_sel u
    by (simp add: U)
qed

lemma demo_commit_response:
  assumes "p \<in> {''pack'', ''pick''}"
  shows "hs_Status (fst (commitShiftPlan demo_handler (demo_commit [''pack'', p]) (demo_pg [] [1] empty_db)))
     = (if p = ''pack'' then 500 else 201)"
proof -
  have d: "dp_lookup (h_UseCases demo_handler) = Some (\<lambda>p. olift (Inr demo_path))"
    "dp_capacity (h_UseCases demo_handler) = (\<lambda>c. olift (Inr 3))" "dp_maxHours (h_UseCases demo_handler) = Fin 8"
    "dp_ports (h_UseCases demo_handler) = demo_ports"
    by (simp_all add: http_handler_def pg_deps_def)
  have m: "map demo_line_request [''pack'', p] = [demo_line_request ''pack'', demo_line_request p]" by simp
  obtain x s' where x: "CommitShiftPlan_Execute demo_ports (Some (\<lambda>p. olift (Inr demo_path))) (\<lambda>c. olift (Inr 3)) (Fin 8)
      ''b1'' ''s1'' [demo_pp ''pack'', demo_pp p] [''pack'' \<mapsto> 4, p \<mapsto> 4] (demo_pg [] [1] empty_db) = (x, s')"
    "if p = ''pack'' then x = Inl (Other ''duplicate key value violates unique constraint path_plan_pkey'') else isl x = False"
    using demo_execute [OF assms] by (elim exE conjE)
  have p: "p \<noteq> ''''" using assms by auto
  have l: "commit_lines demo_handler (map demo_line_request [''pack'', p]) [] Map.empty (demo_pg [] [1] empty_db)
      = (Inr ([demo_pp ''pack'', demo_pp p], [''pack'' \<mapsto> 4, p \<mapsto> 4]), demo_pg [] [1] empty_db)"
    unfolding demo_commit_lines using p by simp
  have r: "required ''b1'' e = Inr ()" "required ''s1'' e = Inr ()" for e by (simp_all add: required_def)
  show ?thesis
    unfolding commitShiftPlan_def check400_def demo_commit_decode olift_app prod.case sum.case commitShiftPlanRequest.simps r l
      Let_def d execute_def x(1)
    using x(2) assms by (cases x) (auto simp: plan_created_def statusFor_def split: if_splits)
qed

text \<open>
  The two lines of a request may name the same path: every check passes, and then the insert
  of the second line breaks the table's key, so the client's mistake is answered 500 internal
  error, and not with a status that says what to correct.
\<close>

theorem duplicate_lines_internal_error:
  "hs_Status (fst (commitShiftPlan demo_handler (demo_commit [''pack'', ''pack'']) (demo_pg [] [1] empty_db))) = 500"
  by (simp add: demo_commit_response)

theorem created_plan_stored_witness:
  "v_plan (pg_view (\<lambda>rs. rs) (snd (commitShiftPlan demo_handler (demo_commit [''pack'', ''pick'']) (demo_pg [] [1] empty_db))))
     (''b1'', ''s1'') \<noteq> None"
proof -
  obtain p s' where p: "commitShiftPlan demo_handler (demo_commit [''pack'', ''pick'']) (demo_pg [] [1] empty_db) = (p, s')"
    by fastforce
  have "hs_Status p = 201" using demo_commit_response [of "''pick''"] p by simp
  from created_plan_stored [OF _ demo_start_ok(1) p this] obtain req q where
    "sbind (hq_Body (demo_commit [''pack'', ''pick''])) decode_commitShiftPlan = Inr req"
    "pg_view (\<lambda>rs. rs) s' = (pg_view (\<lambda>rs. rs) (demo_pg [] [1] empty_db))
       \<lparr>v_plan := (v_plan (pg_view (\<lambda>rs. rs) (demo_pg [] [1] empty_db)))((cr_BuildingId req, cr_ShiftId req) \<mapsto> q)\<rparr>" by auto
  then show ?thesis unfolding demo_commit_decode p by auto
qed

theorem http_error_changes_nothing_witness:
  "pg_db (snd (serve id demo_handler POST_shift_plans (demo_commit [''pack'', ''pack'']) (demo_pg [] [1] empty_db))) = empty_db"
proof -
  obtain p s' where p: "serve id demo_handler POST_shift_plans (demo_commit [''pack'', ''pack'']) (demo_pg [] [1] empty_db) = (p, s')"
    by fastforce
  have "hs_Status p = 500" using demo_commit_response [of "''pack''"] p by simp
  then show ?thesis
    using http_error_changes_nothing [OF p demo_start_ok(1)] unfolding p by (simp add: demo_pg_def)
qed

end
