(* ===== verification/LaborCache.thy ===== *)
theory LaborCache
  imports Replay UseCases
begin

text \<open>
  \<open>adapters/outbound/laborperformancecache\<close>: the running mean of task durations and the running
  idle share per task type, kept by replaying labor-performance's topic. The readiness machinery
  is a copy of \<open>kafkacatalog\<close>'s and modelled as such; \<open>lc_closes\<close> counts the closings of the ready
  channel. \<open>up\<close> is the Unicode upper-case table. Message counts stay far below \<open>2 ^ 63\<close>,
  so the \<open>int64\<close> count is an integer.
\<close>

record taskPerformanceData =
  tp_TaskId :: string
  tp_AssociateId :: string
  tp_TaskType :: string
  tp_EfficiencyPct :: "f64 option"
  tp_ActualSeconds :: int
  tp_IdleSecondsBefore :: "int option"
  tp_CompletedAt :: string

definition decode_taskPerformance :: "json \<Rightarrow> err + taskPerformanceData" where
  "decode_taskPerformance =
     dec_object \<lparr>tp_TaskId = '''', tp_AssociateId = '''', tp_TaskType = '''', tp_EfficiencyPct = None,
         tp_ActualSeconds = 0, tp_IdleSecondsBefore = None, tp_CompletedAt = ''''\<rparr> (\<lambda>kvs.
     sbind (dec_field ''task_id'' dec_string kvs '''') (\<lambda>i.
     sbind (dec_field ''associate_id'' dec_string kvs '''') (\<lambda>a.
     sbind (dec_field ''task_type'' dec_string kvs '''') (\<lambda>t.
     sbind (dec_field ''efficiency_pct'' (dec_ptr (Fin 0) dec_float64) kvs None) (\<lambda>e.
     sbind (dec_field ''actual_seconds'' dec_int64 kvs 0) (\<lambda>s.
     sbind (dec_field ''idle_seconds_before'' (dec_ptr 0 dec_int64) kvs None) (\<lambda>idle.
     sbind (dec_field ''completed_at'' dec_string kvs '''') (\<lambda>ca.
     Inr \<lparr>tp_TaskId = i, tp_AssociateId = a, tp_TaskType = t, tp_EfficiencyPct = e,
          tp_ActualSeconds = s, tp_IdleSecondsBefore = idle, tp_CompletedAt = ca\<rparr>))))))))"

record runningMean =
  rm_sum :: f64
  rm_count :: int

definition mean :: "runningMean \<Rightarrow> f64 option" where
  "mean m = (if rm_count m = 0 then None else Some (fdiv (rm_sum m) (f64_of_int (rm_count m))))"

record idleShareTotals =
  it_idleSeconds :: f64
  it_actualSeconds :: f64
  it_observed :: bool

definition share :: "idleShareTotals \<Rightarrow> f64 option" where
  "share t =
     (if \<not> it_observed t then None
      else let denom = fadd (it_idleSeconds t) (it_actualSeconds t) in
           if fle denom (Fin 0) then None else Some (fdiv (it_idleSeconds t) denom))"

record lpc_Consumer =
  lc_totals :: "string \<rightharpoonup> runningMean"
  lc_idleTotals :: "string \<rightharpoonup> idleShareTotals"
  lc_ready :: bool
  lc_closes :: nat
  lc_target :: targetOffsets
  lc_seen :: "string set"

section \<open>Construction\<close>

definition lpc_target_step ::
  "kafka_admin \<Rightarrow> string \<Rightarrow> string \<Rightarrow> int \<Rightarrow> targetOffsets \<Rightarrow> err + targetOffsets" where
  "lpc_target_step a broker topic p out =
     (case ka_DialLeader a broker topic p of
        Inl e \<Rightarrow> Inl (Wrap (''laborperformancecache: dial leader for partition '' @ print_int p) e)
      | Inr _ \<Rightarrow>
          let offsets = ka_ReadOffsets a topic p; closeErr = ka_Close a topic p in
          (case offsets of
            Inl e \<Rightarrow> Inl (Wrap (''laborperformancecache: read offsets for partition '' @ print_int p) e)
          | Inr (firstOff, lastOff) \<Rightarrow>
              (case closeErr of
                 Inl e \<Rightarrow> Inl (Wrap (''laborperformancecache: close leader conn for partition '' @ print_int p) e)
               | Inr _ \<Rightarrow> Inr (if lastOff > firstOff then gput p lastOff out else out))))"

fun lpc_target_loop ::
  "kafka_admin \<Rightarrow> string \<Rightarrow> string \<Rightarrow> int list \<Rightarrow> targetOffsets \<Rightarrow> err + targetOffsets" where
  "lpc_target_loop a broker topic [] out = Inr out"
| "lpc_target_loop a broker topic (p # ps) out =
     sbind (lpc_target_step a broker topic p out) (lpc_target_loop a broker topic ps)"

definition lpc_newTargetOffsets :: "kafka_admin \<Rightarrow> string list \<Rightarrow> string \<Rightarrow> err + targetOffsets" where
  "lpc_newTargetOffsets a brokers topic =
     (case brokers of
        [] \<Rightarrow> Inl (Other ''laborperformancecache: no brokers configured'')
      | b # _ \<Rightarrow>
          (case ka_Dial a b of
             Inl e \<Rightarrow> Inl (Wrap (''laborperformancecache: dial '' @ b) e)
           | Inr _ \<Rightarrow>
               (case ka_ReadPartitions a topic of
                  Inl e \<Rightarrow> Inl (Wrap (''laborperformancecache: read partitions for '' @ topic) e)
                | Inr ps \<Rightarrow> lpc_target_loop a b topic ps [])))"

text \<open>The host is what \<open>os.Hostname\<close> answers, the last part the clock in nanoseconds.\<close>

definition lpc_uniqueConsumerGroup :: "err + string \<Rightarrow> int \<Rightarrow> int \<Rightarrow> string" where
  "lpc_uniqueConsumerGroup hostname pid nano =
     (let host = (case hostname of Inl _ \<Rightarrow> ''unknown-host'' | Inr h \<Rightarrow> if h = '''' then ''unknown-host'' else h)
      in ''workforce-management-labor-performance-cache-'' @ host @ ''-'' @ print_int pid @ ''-'' @ print_int nano)"

definition lpc_readerConfig :: "string list \<Rightarrow> string \<Rightarrow> string \<Rightarrow> ReaderConfig" where
  "lpc_readerConfig brokers topic grp =
     \<lparr>rd_Brokers = brokers, rd_Topic = topic, rd_GroupID = grp, rd_StartOffset = FirstOffset,
      rd_CommitInterval = second_ns\<rparr>"

definition lpc_Topic :: string where
  "lpc_Topic = ''warehouse.labor-performance.events''"

definition lpc_markReady :: "lpc_Consumer \<Rightarrow> lpc_Consumer" where
  "lpc_markReady c = (let alreadyReady = lc_ready c; c = c\<lparr>lc_ready := True\<rparr> in
     if \<not> alreadyReady then c\<lparr>lc_closes := lc_closes c + 1\<rparr> else c)"

definition lpc_NewConsumerForTopic ::
  "kafka_admin \<Rightarrow> string \<Rightarrow> string list \<Rightarrow> string \<Rightarrow> err + ReaderConfig \<times> lpc_Consumer" where
  "lpc_NewConsumerForTopic a grp brokers topic =
     (if topic = '''' then Inl (Other ''laborperformancecache: topic must not be empty'')
      else case lpc_newTargetOffsets a brokers topic of
          Inl e \<Rightarrow> Inl (Wrap ''laborperformancecache: determine readiness target'' e)
        | Inr target \<Rightarrow>
            let c = \<lparr>lc_totals = Map.empty, lc_idleTotals = Map.empty, lc_ready = False, lc_closes = 0,
                     lc_target = target, lc_seen = {}\<rparr> in
            Inr (lpc_readerConfig brokers topic grp, if length target = 0 then lpc_markReady c else c))"

definition lpc_NewConsumer :: "kafka_admin \<Rightarrow> string \<Rightarrow> string list \<Rightarrow> err + ReaderConfig \<times> lpc_Consumer" where
  "lpc_NewConsumer a grp brokers = lpc_NewConsumerForTopic a grp brokers lpc_Topic"

section \<open>Operations\<close>

definition lpc_Ready :: "lpc_Consumer \<Rightarrow> bool" where
  "lpc_Ready c = lc_ready c"

text \<open>The answers \<open>WaitReady\<close> can give in a state; it blocks where there is none.\<close>

definition lpc_WaitReady :: "err option \<Rightarrow> lpc_Consumer \<Rightarrow> err option set" where
  "lpc_WaitReady ctxErr c =
     (if lpc_Ready c then {None}
      else (if lc_closes c > 0 then {None} else {}) \<union> (case ctxErr of Some e \<Rightarrow> {Some e} | None \<Rightarrow> {}))"

definition lpc_taskTypeForPathId :: "(string \<Rightarrow> string) \<Rightarrow> PathId \<Rightarrow> string option" where
  "lpc_taskTypeForPathId up pathId =
     (if ToUpper up pathId \<in> {''PICK'', ''PACK'', ''SLAM''} then Some (ToUpper up pathId) else None)"

definition lpc_MeanActualSeconds :: "(string \<Rightarrow> string) \<Rightarrow> PathId \<Rightarrow> lpc_Consumer \<Rightarrow> err + f64" where
  "lpc_MeanActualSeconds up pathId c =
     (case lpc_taskTypeForPathId up pathId of
        None \<Rightarrow> Inl (Wrap (''path '' @ pathId @ '' has no labor-performance task type'') (Sentinel ErrMeasuredRateUnavailable))
      | Some taskType \<Rightarrow>
          (case lc_totals c taskType of
             None \<Rightarrow> Inl (Wrap (''no measured rate observed yet for task type '' @ taskType) (Sentinel ErrMeasuredRateUnavailable))
           | Some totals \<Rightarrow>
               (case mean totals of
                  None \<Rightarrow> Inl (Wrap (''no measured rate observed yet for task type '' @ taskType) (Sentinel ErrMeasuredRateUnavailable))
                | Some x \<Rightarrow> Inr x)))"

definition lpc_IdleSharePct :: "(string \<Rightarrow> string) \<Rightarrow> PathId \<Rightarrow> lpc_Consumer \<Rightarrow> err + f64" where
  "lpc_IdleSharePct up pathId c =
     (case lpc_taskTypeForPathId up pathId of
        None \<Rightarrow> Inl (Wrap (''path '' @ pathId @ '' has no labor-performance task type'') (Sentinel ErrIdleShareUnavailable))
      | Some taskType \<Rightarrow>
          (case lc_idleTotals c taskType of
             None \<Rightarrow> Inl (Wrap (''no idle share observed yet for task type '' @ taskType) (Sentinel ErrIdleShareUnavailable))
           | Some totals \<Rightarrow>
               (case share totals of
                  None \<Rightarrow> Inl (Wrap (''no idle share observed yet for task type '' @ taskType) (Sentinel ErrIdleShareUnavailable))
                | Some x \<Rightarrow> Inr x)))"

definition seen_key :: "string \<Rightarrow> string \<Rightarrow> string" where
  "seen_key source i = source @ [CHR 0x00] @ i"

definition lpc_markSeen :: "string \<Rightarrow> string \<Rightarrow> lpc_Consumer \<Rightarrow> bool \<times> lpc_Consumer" where
  "lpc_markSeen source i c =
     (let key = seen_key source i in
      if key \<in> lc_seen c then (False, c) else (True, c\<lparr>lc_seen := insert key (lc_seen c)\<rparr>))"

definition add_mean :: "taskPerformanceData \<Rightarrow> runningMean option \<Rightarrow> runningMean" where
  "add_mean data o1 = (let t = (case o1 of None \<Rightarrow> \<lparr>rm_sum = Fin 0, rm_count = 0\<rparr> | Some t \<Rightarrow> t) in
     t\<lparr>rm_sum := fadd (rm_sum t) (f64_of_int (tp_ActualSeconds data)), rm_count := rm_count t + 1\<rparr>)"

definition add_idle :: "taskPerformanceData \<Rightarrow> idleShareTotals option \<Rightarrow> idleShareTotals" where
  "add_idle data o1 =
     (let idle = (case o1 of None \<Rightarrow> \<lparr>it_idleSeconds = Fin 0, it_actualSeconds = Fin 0, it_observed = False\<rparr>
                    | Some t \<Rightarrow> t);
          idle = idle\<lparr>it_actualSeconds := fadd (it_actualSeconds idle) (f64_of_int (tp_ActualSeconds data))\<rparr>
      in case tp_IdleSecondsBefore data of
           None \<Rightarrow> idle
         | Some s \<Rightarrow> idle\<lparr>it_idleSeconds := fadd (it_idleSeconds idle) (f64_of_int s), it_observed := True\<rparr>)"

definition lpc_applyTaskPerformanceRecorded ::
  "(string \<Rightarrow> string) \<Rightarrow> taskPerformanceData \<Rightarrow> lpc_Consumer \<Rightarrow> lpc_Consumer" where
  "lpc_applyTaskPerformanceRecorded up data c =
     (let taskType = ToUpper up (tp_TaskType data) in
      if taskType = '''' then c
      else c\<lparr>lc_totals := (lc_totals c)(taskType \<mapsto> add_mean data (lc_totals c taskType)),
             lc_idleTotals := (lc_idleTotals c)(taskType \<mapsto> add_idle data (lc_idleTotals c taskType))\<rparr>)"

definition lpc_handle :: "sdk \<Rightarrow> (string \<Rightarrow> string) \<Rightarrow> InMessage \<Rightarrow> (lpc_Consumer, unit) op" where
  "lpc_handle k up msg c =
     (case ce_Decode k (ms_Value msg) of
        Inl e \<Rightarrow> (Inl (Wrap ''laborperformancecache'' e), c)
      | Inr e \<Rightarrow>
          if ce_type e = TypeTaskPerformanceRecorded then
            (case decode_taskPerformance (ce_data e) of
               Inl err \<Rightarrow> (Inl (Wrap (''laborperformancecache: decode '' @ ce_type e @ '' data'') err), c)
             | Inr data \<Rightarrow>
                 (case lpc_markSeen (ce_source e) (ce_id e) c of
                    (fresh, c) \<Rightarrow> if \<not> fresh then (Inr (), c)
                                  else (Inr (), lpc_applyTaskPerformanceRecorded up data c)))
          else (Inr (), c))"

definition lpc_checkReady :: "InMessage \<Rightarrow> lpc_Consumer \<Rightarrow> lpc_Consumer" where
  "lpc_checkReady msg c =
     (case map_of (lc_target c) (ms_Partition msg) of
        None \<Rightarrow> c
      | Some target \<Rightarrow>
          if lc_ready c then c
          else if ms_Offset msg + 1 < target then c
          else let c = c\<lparr>lc_target := gdelete (ms_Partition msg) (lc_target c)\<rparr> in
               if length (lc_target c) = 0 then lpc_markReady c else c)"

text \<open>One turn of the loop, and the loop over what \<open>ReadMessage\<close> answers; None: still reading.\<close>

definition lpc_step :: "sdk \<Rightarrow> (string \<Rightarrow> string) \<Rightarrow> InMessage \<Rightarrow> lpc_Consumer \<Rightarrow> lpc_Consumer" where
  "lpc_step k up msg c = lpc_checkReady msg (snd (lpc_handle k up msg c))"

fun lpc_Run ::
  "sdk \<Rightarrow> (string \<Rightarrow> string) \<Rightarrow> kread list \<Rightarrow> lpc_Consumer \<Rightarrow> err option option \<times> lpc_Consumer" where
  "lpc_Run k up [] c = (None, c)"
| "lpc_Run k up (ReadErr e ctxDone # _) c = (Some (if ctxDone then None else Some e), c)"
| "lpc_Run k up (ReadMsg msg # rs) c = lpc_Run k up rs (lpc_step k up msg c)"

section \<open>The readiness gate\<close>

lemma lpc_handle_gate:
  "lpc_handle k up m c = (r, c') \<Longrightarrow>
     lc_ready c' = lc_ready c \<and> lc_closes c' = lc_closes c \<and> lc_target c' = lc_target c"
  by (auto simp: lpc_handle_def lpc_markSeen_def lpc_applyTaskPerformanceRecorded_def Let_def split: sum.splits if_splits)

lemma lpc_checkReady_totals [simp]:
  "lc_totals (lpc_checkReady m c) = lc_totals c" "lc_idleTotals (lpc_checkReady m c) = lc_idleTotals c"
  "lc_seen (lpc_checkReady m c) = lc_seen c"
  by (simp_all add: lpc_checkReady_def lpc_markReady_def Let_def split: option.split)

interpretation lpcg: replay_gate lc_ready lc_closes lc_target "lpc_step k up" for k up
proof
  fix c m
  obtain r c1 where h: "lpc_handle k up m c = (r, c1)" by fastforce
  note g = lpc_handle_gate [OF h]
  show "lc_ready (lpc_step k up m c) = lc_ready c \<and> lc_closes (lpc_step k up m c) = lc_closes c
      \<and> lc_target (lpc_step k up m c) = lc_target c"
    if "lc_ready c \<or> (\<forall>t. map_of (lc_target c) (ms_Partition m) = Some t \<longrightarrow> \<not> reaches (ms_Partition m) t m)"
    using that g by (auto simp: lpc_step_def h lpc_checkReady_def reaches_def split: option.split)
  show "lc_target (lpc_step k up m c) = gdelete (ms_Partition m) (lc_target c)
      \<and> lc_ready (lpc_step k up m c) = (gdelete (ms_Partition m) (lc_target c) = [])
      \<and> lc_closes (lpc_step k up m c) = lc_closes c + (if lc_ready (lpc_step k up m c) then 1 else 0)"
    if "\<not> lc_ready c" "map_of (lc_target c) (ms_Partition m) = Some t" "reaches (ms_Partition m) t m" for t
    using that g by (simp add: lpc_step_def h lpc_checkReady_def reaches_def lpc_markReady_def Let_def)
qed

interpretation lpcs: offset_scan lpc_target_step lpc_target_loop lpc_newTargetOffsets
proof
  fix a b t p out out'
  assume s: "lpc_target_step a b t p out = Inr out'"
  then obtain x where x: "ka_ReadOffsets a t p = Inr x"
    by (cases "ka_ReadOffsets a t p") (auto simp: lpc_target_step_def Let_def split: sum.splits)
  show "\<exists>b. ka_ReadOffsets a t p = Inr b \<and> out' = (if fst b < snd b then gput p (snd b) out else out)"
    using s x by (intro exI [of _ x]) (auto simp: lpc_target_step_def Let_def split: sum.splits prod.splits)
qed (auto simp: lpc_newTargetOffsets_def split: list.splits sum.splits)

lemma lpc_Run_msgs: "lpc_Run k up (map ReadMsg ms) c = (None, fold (lpc_step k up) ms c)"
  by (induction ms arbitrary: c) auto

lemma lpc_New_gate:
  assumes "lpc_NewConsumerForTopic a grp brokers topic = Inr (cfg, c)"
  shows "lpcg.gate_ok c \<and> lc_totals c = Map.empty \<and> lc_idleTotals c = Map.empty \<and> lc_seen c = {} \<and> lpc_newTargetOffsets a brokers topic = Inr (lc_target c)"
proof -
  obtain tgt where t: "lpc_newTargetOffsets a brokers topic = Inr tgt"
    and c: "c = (let c = \<lparr>lc_totals = Map.empty, lc_idleTotals = Map.empty, lc_ready = False, lc_closes = 0,
      lc_target = tgt, lc_seen = {}\<rparr> in
      if length tgt = 0 then lpc_markReady c else c)"
    using assms by (auto simp: lpc_NewConsumerForTopic_def Let_def split: if_splits sum.splits)
  show ?thesis using lpcs.scan_target [OF t] t unfolding c
    by (auto simp: lpcg.gate_ok_def Let_def lpc_markReady_def)
qed

lemma lpc_New_target:
  assumes "lpc_NewConsumerForTopic a grp brokers topic = Inr (cfg, c)" "ka_ReadPartitions a topic = Inr ps"
  shows "map_of (lc_target c) p = Some hi \<longleftrightarrow>
    p \<in> set ps \<and> (\<exists>lo. ka_ReadOffsets a topic p = Inr (lo, hi) \<and> lo < hi)"
  using lpc_New_gate [OF assms(1)] lpcs.scan_target assms(2) by blast


section \<open>The totals are those of the distinct events\<close>

text \<open>What a message records: the occurrence's key and its payload.\<close>

definition perf_event :: "sdk \<Rightarrow> InMessage \<Rightarrow> (string \<times> taskPerformanceData) option" where
  "perf_event k m = (case ce_Decode k (ms_Value m) of Inl _ \<Rightarrow> None | Inr e \<Rightarrow>
     (case decode_taskPerformance (ce_data e) of Inl _ \<Rightarrow> None | Inr d \<Rightarrow>
        if ce_type e = TypeTaskPerformanceRecorded then Some (seen_key (ce_source e) (ce_id e), d) else None))"

fun firsts :: "string set \<Rightarrow> (string \<times> 'a) list \<Rightarrow> (string \<times> 'a) list" where
  "firsts S [] = []"
| "firsts S (x # xs) = (if fst x \<in> S then firsts S xs else x # firsts (insert (fst x) S) xs)"

definition recorded :: "sdk \<Rightarrow> (string \<Rightarrow> string) \<Rightarrow> string \<Rightarrow> InMessage list \<Rightarrow> taskPerformanceData list" where
  "recorded k up T ms =
     filter (\<lambda>d. ToUpper up (tp_TaskType d) = T) (map snd (firsts {} (List.map_filter (perf_event k) ms)))"

definition mean_of :: "taskPerformanceData list \<Rightarrow> runningMean option" where
  "mean_of ds = fold (\<lambda>d t. Some (add_mean d t)) ds None"

definition idle_of :: "taskPerformanceData list \<Rightarrow> idleShareTotals option" where
  "idle_of ds = fold (\<lambda>d t. Some (add_idle d t)) ds None"

lemma firsts_snoc:
  "firsts S (xs @ [x]) = firsts S xs @ (if fst x \<in> S \<union> fst ` set xs then [] else [x])"
  by (induction xs arbitrary: S) (auto simp: insert_absorb)

lemma recorded_snoc:
  "recorded k up T (ms @ [m]) = recorded k up T ms @ (case perf_event k m of None \<Rightarrow> []
     | Some (key, d) \<Rightarrow> if key \<in> fst ` set (List.map_filter (perf_event k) ms) \<or> ToUpper up (tp_TaskType d) \<noteq> T
         then [] else [d])"
  by (auto simp: recorded_def List.map_filter_def firsts_snoc split: option.splits prod.splits)

lemma recorded_again: "m \<in> set ms \<Longrightarrow> recorded k up T (ms @ [m]) = recorded k up T ms"
  by (force simp: recorded_snoc List.map_filter_def image_iff split: option.splits prod.splits)

lemma lpc_step_fields:
  "lc_seen (lpc_step k up m c) = (case perf_event k m of None \<Rightarrow> lc_seen c | Some (key, _) \<Rightarrow> insert key (lc_seen c))"
  "lc_totals (lpc_step k up m c) T = (case perf_event k m of None \<Rightarrow> lc_totals c T
     | Some (key, d) \<Rightarrow> if key \<in> lc_seen c \<or> ToUpper up (tp_TaskType d) \<noteq> T \<or> T = '''' then lc_totals c T
         else Some (add_mean d (lc_totals c T)))"
  "lc_idleTotals (lpc_step k up m c) T = (case perf_event k m of None \<Rightarrow> lc_idleTotals c T
     | Some (key, d) \<Rightarrow> if key \<in> lc_seen c \<or> ToUpper up (tp_TaskType d) \<noteq> T \<or> T = '''' then lc_idleTotals c T
         else Some (add_idle d (lc_idleTotals c T)))"
  by (auto simp: lpc_step_def lpc_handle_def perf_event_def lpc_markSeen_def Let_def
      lpc_applyTaskPerformanceRecorded_def split: sum.splits)

lemma lpc_fold_totals:
  assumes "lc_totals c = Map.empty" "lc_idleTotals c = Map.empty" "lc_seen c = {}"
  shows "lc_seen (fold (lpc_step k up) ms c) = fst ` set (List.map_filter (perf_event k) ms)
    \<and> (\<forall>T. T \<noteq> '''' \<longrightarrow> lc_totals (fold (lpc_step k up) ms c) T = mean_of (recorded k up T ms)
        \<and> lc_idleTotals (fold (lpc_step k up) ms c) T = idle_of (recorded k up T ms))"
proof (induction ms rule: rev_induct)
  case Nil
  then show ?case by (simp add: assms recorded_def map_filter_simps mean_of_def idle_of_def)
next
  case (snoc m ms)
  then show ?case
    by (auto simp: lpc_step_fields recorded_snoc mean_of_def idle_of_def List.map_filter_def
        split: option.splits prod.splits)
qed

text \<open>Whole seconds that add up to at most \<open>2 ^ 53\<close> are summed without rounding.\<close>

lemma fadd_small:
  assumes "\<bar>a\<bar> \<le> 2 ^ 53" "\<bar>b\<bar> \<le> 2 ^ 53" "\<bar>a + b\<bar> \<le> 2 ^ 53"
  shows "fadd (f64_of_int a) (f64_of_int b) = f64_of_int (a + b)"
  unfolding f64_of_int_small [OF assms(1)] f64_of_int_small [OF assms(2)] by (simp add: f64_of_int_def)

definition actuals :: "taskPerformanceData list \<Rightarrow> int list" where
  "actuals ds = map tp_ActualSeconds ds"

definition idles :: "taskPerformanceData list \<Rightarrow> int list" where
  "idles ds = List.map_filter tp_IdleSecondsBefore ds"

definition small_sum :: "int list \<Rightarrow> bool" where
  "small_sum xs \<longleftrightarrow> (\<forall>x \<in> set xs. 0 \<le> x) \<and> sum_list xs \<le> 2 ^ 53"

lemma small_sum_snoc: "small_sum (xs @ [x]) \<Longrightarrow> small_sum xs \<and> 0 \<le> x \<and> 0 \<le> sum_list xs \<and> sum_list xs + x \<le> 2 ^ 53"
  unfolding small_sum_def using sum_list_nonneg [of xs] by auto

lemma small_sum_add:
  "small_sum (xs @ [x]) \<Longrightarrow> fadd (f64_of_int (sum_list xs)) (f64_of_int x) = f64_of_int (sum_list xs + x)"
  using small_sum_snoc [of xs x] by (intro fadd_small) auto

lemma idles_snoc: "idles (ds @ [d]) = idles ds @ (case tp_IdleSecondsBefore d of None \<Rightarrow> [] | Some s \<Rightarrow> [s])"
  by (auto simp: idles_def List.map_filter_def split: option.splits)

lemma idles_one: "idles [d] = (case tp_IdleSecondsBefore d of None \<Rightarrow> [] | Some s \<Rightarrow> [s])"
  by (auto simp: idles_def List.map_filter_def split: option.splits)

lemma idles_Nil [simp]: "idles [] = []"
  by (simp add: idles_def map_filter_simps)

lemma mean_of_exact:
  "small_sum (actuals ds) \<Longrightarrow> mean_of ds = (if ds = [] then None
     else Some \<lparr>rm_sum = f64_of_int (sum_list (actuals ds)), rm_count = int (length ds)\<rparr>)"
proof (induction ds rule: rev_induct)
  case (snoc d ds)
  have s: "small_sum (actuals ds @ [tp_ActualSeconds d])" using snoc.prems by (simp add: actuals_def)
  have z: "f64_of_int 0 = Fin 0" by (simp add: f64_of_int_small)
  have IH: "mean_of ds = (if ds = [] then None
     else Some \<lparr>rm_sum = f64_of_int (sum_list (actuals ds)), rm_count = int (length ds)\<rparr>)"
    using snoc.IH small_sum_snoc [OF s] by blast
  show ?case using IH small_sum_add [OF s]
    by (cases "ds = []") (simp_all add: mean_of_def add_mean_def actuals_def z)
qed (simp add: mean_of_def)

lemma idle_of_exact:
  "small_sum (actuals ds) \<Longrightarrow> small_sum (idles ds) \<Longrightarrow> idle_of ds = (if ds = [] then None
     else Some \<lparr>it_idleSeconds = f64_of_int (sum_list (idles ds)), it_actualSeconds = f64_of_int (sum_list (actuals ds)),
                it_observed = (idles ds \<noteq> [])\<rparr>)"
proof (induction ds rule: rev_induct)
  case (snoc d ds)
  have s: "small_sum (actuals ds @ [tp_ActualSeconds d])" using snoc.prems(1) by (simp add: actuals_def)
  have z: "f64_of_int 0 = Fin 0" by (simp add: f64_of_int_small)
  have i: "small_sum (idles ds)" using snoc.prems(2) small_sum_snoc [of "idles ds"]
    by (cases "tp_IdleSecondsBefore d") (auto simp: idles_snoc)
  note IH = snoc.IH [OF small_sum_snoc [OF s, THEN conjunct1] i]
  have a: "add_idle d (idle_of ds) = \<lparr>it_idleSeconds = f64_of_int (sum_list (idles (ds @ [d]))),
      it_actualSeconds = f64_of_int (sum_list (actuals (ds @ [d]))), it_observed = (idles (ds @ [d]) \<noteq> [])\<rparr>"
    using IH small_sum_add [OF s] small_sum_add [of "idles ds"] snoc.prems(2)
    by (cases "tp_IdleSecondsBefore d"; cases "ds = []")
      (simp_all add: add_idle_def actuals_def idles_snoc idles_one z)
  show ?case using a by (simp add: idle_of_def)
qed (simp add: idle_of_def)


section \<open>Properties\<close>

text \<open>Read at a moment, the cache is a soft source: any failure is the sentinel.\<close>

interpretation lpc_rate: soft_source "\<lambda>p. olift (lpc_MeanActualSeconds up p c)" ErrMeasuredRateUnavailable for up c
  by unfold_locales (auto simp: lpc_MeanActualSeconds_def split: option.splits)

interpretation lpc_idle: soft_source "\<lambda>p. olift (lpc_IdleSharePct up p c)" ErrIdleShareUnavailable for up c
  by unfold_locales (auto simp: lpc_IdleSharePct_def split: option.splits)

lemma lpc_taskType_nonempty: "lpc_taskTypeForPathId up p = Some T \<Longrightarrow> T \<noteq> ''''"
  by (auto simp: lpc_taskTypeForPathId_def split: if_splits)

lemma lpc_after_run:
  assumes "lpc_NewConsumerForTopic a grp brokers topic = Inr (cfg, c0)"
    and "lpc_Run k up (map ReadMsg ms) c0 = (r, c)" "T \<noteq> ''''"
  shows "lc_totals c T = mean_of (recorded k up T ms)" "lc_idleTotals c T = idle_of (recorded k up T ms)"
  using lpc_New_gate [OF assms(1)] lpc_fold_totals [of c0 k up ms] assms(2,3) by (auto simp: lpc_Run_msgs)

text \<open>
  C32: the measured rate of a path is the mean of the actual seconds of the distinct task events
  of its type, rounded once, as long as they are not negative and add up to at most
  \<open>2 ^ 53\<close>; it is unavailable exactly when the path has no task type or no event came yet.
  Redeliveries count once.
\<close>

theorem lpc_mean_exact:
  assumes "lpc_NewConsumerForTopic a grp brokers topic = Inr (cfg, c0)"
    and "lpc_Run k up (map ReadMsg ms) c0 = (r, c)" "lpc_taskTypeForPathId up p = Some T"
    and "small_sum (actuals (recorded k up T ms))" "length (recorded k up T ms) \<le> 2 ^ 53"
  shows "if recorded k up T ms = [] then \<exists>e. lpc_MeanActualSeconds up p c = Inl e \<and> errors_is e ErrMeasuredRateUnavailable
    else lpc_MeanActualSeconds up p c = Inr (flround
      (of_int (sum_list (actuals (recorded k up T ms))) / of_nat (length (recorded k up T ms))))"
proof -
  let ?ds = "recorded k up T ms"
  note t = lpc_after_run(1) [OF assms(1,2) lpc_taskType_nonempty [OF assms(3)]]
  show ?thesis
  proof (cases "?ds = []")
    case True
    then show ?thesis using t assms(3) by (simp add: lpc_MeanActualSeconds_def mean_of_def)
  next
    case False
    have s: "\<bar>sum_list (actuals ?ds)\<bar> \<le> 2 ^ 53"
      using assms(4) sum_list_nonneg [of "actuals ?ds"] by (auto simp: small_sum_def)
    have l: "\<bar>int (length ?ds)\<bar> \<le> 2 ^ 53" using assms(5) by simp
    show ?thesis using t assms(3) mean_of_exact [OF assms(4)] False f64_of_int_small [OF s] f64_of_int_small [OF l]
      by (simp add: lpc_MeanActualSeconds_def mean_def)
  qed
qed

text \<open>
  C33: a message read a second time, the at-least-once redelivery of a broker, changes neither a
  mean nor an idle share.
\<close>

theorem lpc_redelivery:
  assumes "lpc_NewConsumerForTopic a grp brokers topic = Inr (cfg, c0)"
    and "lpc_Run k up (map ReadMsg ms) c0 = (r, c)" "lpc_Run k up (map ReadMsg (ms @ again)) c0 = (r', c')"
    and "set again \<subseteq> set ms"
  shows "lpc_MeanActualSeconds up p c' = lpc_MeanActualSeconds up p c
    \<and> lpc_IdleSharePct up p c' = lpc_IdleSharePct up p c"
proof -
  have e: "recorded k up T (ms @ again) = recorded k up T ms" for T
    using assms(4)
  proof (induction again rule: rev_induct)
    case (snoc m again)
    then have "recorded k up T ((ms @ again) @ [m]) = recorded k up T (ms @ again)"
      by (intro recorded_again) auto
    then show ?case using snoc by simp
  qed simp
  show ?thesis
    using lpc_after_run [OF assms(1,2)] lpc_after_run [OF assms(1,3)] e lpc_taskType_nonempty
    by (auto simp: lpc_MeanActualSeconds_def lpc_IdleSharePct_def split: option.splits)
qed

text \<open>
  The idle share of a path is between 0 and 1, and is \<open>idle / (idle + actual)\<close> rounded once;
  it is unavailable when no event carried an idle gap, never 0 for want of data.
\<close>

theorem lpc_idle_share:
  assumes "lpc_NewConsumerForTopic a grp brokers topic = Inr (cfg, c0)"
    and "lpc_Run k up (map ReadMsg ms) c0 = (r, c)" "lpc_taskTypeForPathId up p = Some T"
    and "small_sum (actuals (recorded k up T ms) @ idles (recorded k up T ms))"
  shows "case lpc_IdleSharePct up p c of
      Inl e \<Rightarrow> errors_is e ErrIdleShareUnavailable
        \<and> (idles (recorded k up T ms) = [] \<or> sum_list (actuals (recorded k up T ms)) + sum_list (idles (recorded k up T ms)) = 0)
    | Inr x \<Rightarrow> idles (recorded k up T ms) \<noteq> [] \<and> fle (Fin 0) x \<and> fle x (Fin 1)
        \<and> x = flround (of_int (sum_list (idles (recorded k up T ms)))
            / of_int (sum_list (idles (recorded k up T ms)) + sum_list (actuals (recorded k up T ms))))"
proof -
  let ?ds = "recorded k up T ms"
  let ?i = "sum_list (idles ?ds)" and ?a = "sum_list (actuals ?ds)"
  have nn: "0 \<le> ?i" "0 \<le> ?a" using assms(4) by (auto simp: small_sum_def intro!: sum_list_nonneg)
  have small: "small_sum (actuals ?ds)" "small_sum (idles ?ds)" "?i + ?a \<le> 2 ^ 53"
    using assms(4) nn by (auto simp: small_sum_def)
  note t = lpc_after_run(2) [OF assms(1,2) lpc_taskType_nonempty [OF assms(3)]]
  have fi: "f64_of_int ?i = Fin (of_int ?i)" using nn small(3) by (intro f64_of_int_small) auto
  have fs: "fadd (f64_of_int ?i) (f64_of_int ?a) = Fin (of_int (?i + ?a))"
    using fadd_small [of ?i ?a] f64_of_int_small [of "?i + ?a"] nn small(3) by simp
  have id: "idle_of ?ds = (if ?ds = [] then None else Some \<lparr>it_idleSeconds = f64_of_int ?i,
      it_actualSeconds = f64_of_int ?a, it_observed = (idles ?ds \<noteq> [])\<rparr>)" by (rule idle_of_exact [OF small(1,2)])
  have b: "fle (Fin 0) (flround (of_int ?i / of_int (?i + ?a)))" "fle (flround (of_int ?i / of_int (?i + ?a))) (Fin 1)"
    if "0 < ?i + ?a"
  proof -
    have q: "0 \<le> (of_int ?i / of_int (?i + ?a) :: rat)" "(of_int ?i / of_int (?i + ?a) :: rat) \<le> 1"
      using nn that by (auto simp: divide_le_eq)
    have one: "flround 1 = Fin 1" using f64_of_int_small [of 1] by (simp add: f64_of_int_def)
    show "fle (Fin 0) (flround (of_int ?i / of_int (?i + ?a)))" using flround_mono [OF q(1)] by simp
    show "fle (flround (of_int ?i / of_int (?i + ?a))) (Fin 1)" using flround_mono [OF q(2)] one by simp
  qed
  consider (none) "?ds = []" | (unseen) "?ds \<noteq> []" "idles ?ds = []" | (zero) "?ds \<noteq> []" "idles ?ds \<noteq> []" "?i + ?a = 0"
    | (pos) "?ds \<noteq> []" "idles ?ds \<noteq> []" "0 < ?i + ?a" using nn by linarith
  then show ?thesis
  proof cases
    case pos
    have "lpc_IdleSharePct up p c = Inr (flround (of_int ?i / of_int (?i + ?a)))"
      using pos t id assms(3) fs fi by (simp add: lpc_IdleSharePct_def share_def)
    then show ?thesis using pos b by simp
  qed (use t id assms(3) fs fi in \<open>simp_all add: lpc_IdleSharePct_def share_def\<close>)
qed


section \<open>Witnesses\<close>

definition demo_task_json :: "string \<Rightarrow> int \<Rightarrow> json \<Rightarrow> json" where
  "demo_task_json ty actual idle = JObj [(''task_type'', JStr ty), (''actual_seconds'', JInt actual), (''idle_seconds_before'', idle)]"

definition demo_lpc_sdk :: sdk where
  "demo_lpc_sdk = table_sdk
     [(''a'', demo_event ''1'' TypeTaskPerformanceRecorded (demo_task_json ''pick'' 30 JNull)),
      (''b'', demo_event ''2'' TypeTaskPerformanceRecorded (demo_task_json ''PICK'' 60 (JInt 10)))]"

definition demo_task :: "string \<Rightarrow> int \<Rightarrow> int option \<Rightarrow> taskPerformanceData" where
  "demo_task ty actual idle = \<lparr>tp_TaskId = '''', tp_AssociateId = '''', tp_TaskType = ty, tp_EfficiencyPct = None,
     tp_ActualSeconds = actual, tp_IdleSecondsBefore = idle, tp_CompletedAt = ''''\<rparr>"

lemma foldNames_task:
  "foldName ''task_id'' = ''TASK_ID''" "foldName ''associate_id'' = ''ASSOCIATE_ID''" "foldName ''task_type'' = ''TASK_TYPE''"
  "foldName ''efficiency_pct'' = ''EFFICIENCY_PCT''" "foldName ''actual_seconds'' = ''ACTUAL_SECONDS''"
  "foldName ''idle_seconds_before'' = ''IDLE_SECONDS_BEFORE''" "foldName ''completed_at'' = ''COMPLETED_AT''"
  by code_simp+

definition demo_key :: "string \<Rightarrow> string" where
  "demo_key i = seen_key ''/warehouse/demo'' i"

lemma demo_perf_event:
  "perf_event demo_lpc_sdk (demo_message p off ''a'') = Some (demo_key ''1'', demo_task ''pick'' 30 None)"
  "perf_event demo_lpc_sdk (demo_message p off ''b'') = Some (demo_key ''2'', demo_task ''PICK'' 60 (Some 10))"
  by (simp_all add: perf_event_def ce_Decode_def demo_lpc_sdk_def table_sdk_def demo_event_def demo_message_def demo_key_def
      demo_task_json_def demo_task_def decode_taskPerformance_def dec_object_def dec_field_def field_values_def
      foldNames_task dec_ptr_def del: foldName.simps)

lemma demo_upper_pick: "ToUpper id ''pick'' = ''PICK''" "ToUpper id ''PICK'' = ''PICK''"
  by code_simp+

lemma demo_lpc_type: "lpc_taskTypeForPathId id ''pick'' = Some ''PICK''"
  by (simp add: lpc_taskTypeForPathId_def demo_upper_pick)

definition demo_lpc_log :: "InMessage list" where
  "demo_lpc_log = [demo_message 0 0 ''a'', demo_message 0 1 ''b'', demo_message 0 1 ''b'']"

lemma demo_recorded:
  "recorded demo_lpc_sdk id ''PICK'' demo_lpc_log = [demo_task ''pick'' 30 None, demo_task ''PICK'' 60 (Some 10)]"
  by (simp add: recorded_def List.map_filter_def demo_lpc_log_def demo_perf_event demo_key_def seen_key_def)
    (simp add: demo_task_def demo_upper_pick)

definition demo_lpc0 :: lpc_Consumer where
  "demo_lpc0 = \<lparr>lc_totals = Map.empty, lc_idleTotals = Map.empty, lc_ready = True, lc_closes = 1,
     lc_target = [], lc_seen = {}\<rparr>"

lemma demo_lpc_New:
  "lpc_NewConsumerForTopic (demo_admin [(0, 0, 0)]) ''g'' [''b1''] ''t''
     = Inr (lpc_readerConfig [''b1''] ''t'' ''g'', demo_lpc0)"
  by (simp add: lpc_NewConsumerForTopic_def lpc_newTargetOffsets_def demo_admin_def
      lpc_target_step_def demo_lpc0_def lpc_markReady_def)

lemma demo_sums: "actuals [demo_task ''pick'' 30 None, demo_task ''PICK'' 60 (Some 10)] = [30, 60]"
  "idles [demo_task ''pick'' 30 None, demo_task ''PICK'' 60 (Some 10)] = [10]"
  by (simp_all add: actuals_def idles_def List.map_filter_def demo_task_def)

theorem lpc_mean_exact_witness:
  "lpc_MeanActualSeconds id ''pick'' (snd (lpc_Run demo_lpc_sdk id (map ReadMsg demo_lpc_log) demo_lpc0))
     = Inr (flround (of_int 90 / of_nat 2))"
  using lpc_mean_exact [OF demo_lpc_New surjective_pairing demo_lpc_type, of demo_lpc_sdk demo_lpc_log]
  by (simp add: demo_recorded demo_sums small_sum_def)

theorem lpc_redelivery_witness:
  "lpc_MeanActualSeconds id ''pick''
      (snd (lpc_Run demo_lpc_sdk id (map ReadMsg (demo_lpc_log @ [demo_message 0 1 ''b''])) demo_lpc0))
   = lpc_MeanActualSeconds id ''pick'' (snd (lpc_Run demo_lpc_sdk id (map ReadMsg demo_lpc_log) demo_lpc0))"
  by (rule lpc_redelivery [OF demo_lpc_New surjective_pairing surjective_pairing, THEN conjunct1])
    (simp add: demo_lpc_log_def)

end
