(* ===== verification/Clients.thy ===== *)
theory Clients
  imports Resilience LaborCache Memory
begin

text \<open>
  The HTTP clients \<open>adapters/outbound/laborperformance\<close> and \<open>fulfillmentexecution\<close>, their circuit
  breakers and their permissive stand-ins. The transport \<open>doer\<close>, gobreaker's \<open>Execute\<close> and
  backoff's retry loop are parameters; \<open>url_ok\<close> says what \<open>http.NewRequest\<close> objects to in
  a URL; a response body is what decoding its first JSON value gives.
\<close>

section \<open>Requests and responses\<close>

record HttpRequest =
  rq_URL :: string
  rq_Accept :: string

record HttpResponse =
  rs_StatusCode :: int
  rs_Body :: "err + json"

type_synonym 's doer = "deadline \<Rightarrow> HttpRequest \<Rightarrow> ('s, HttpResponse) op"

definition TrimRightSlash :: "string \<Rightarrow> string" where
  "TrimRightSlash s = rev (dropWhile (\<lambda>c. c = CHR ''/'') (rev s))"

definition upperhex :: "nat \<Rightarrow> char" where
  "upperhex n = (if n < 10 then char_of (48 + n) else char_of (55 + n))"

definition shouldEscape :: "char \<Rightarrow> bool" where
  "shouldEscape c = (let n = (of_char c :: nat) in
     if 48 \<le> n \<and> n \<le> 57 \<or> 65 \<le> n \<and> n \<le> 90 \<or> 97 \<le> n \<and> n \<le> 122 then False
     else c \<notin> set ''-_.~$&+:=@'')"

text \<open>\<open>url.PathEscape\<close>\<close>

fun PathEscape :: "string \<Rightarrow> string" where
  "PathEscape [] = []"
| "PathEscape (c # cs) =
     (if shouldEscape c
      then CHR ''%'' # upperhex (of_char c div 16) # upperhex (of_char c mod 16) # PathEscape cs
      else c # PathEscape cs)"

section \<open>\<open>laborperformance\<close>\<close>

record 's lp_Client =
  lp_baseURL :: string
  lp_doer :: "'s doer"

definition lp_DefaultTimeout :: duration where "lp_DefaultTimeout = 3 * second_ns"

definition lp_NewClient :: "'s doer \<Rightarrow> string \<Rightarrow> 's doer option \<Rightarrow> ('s lp_Client \<Rightarrow> 's lp_Client) list \<Rightarrow> 's lp_Client" where
  "lp_NewClient default_http baseURL d opts =
     fold (\<lambda>opt c. opt c) opts \<lparr>lp_baseURL = TrimRightSlash baseURL,
        lp_doer = (case d of None \<Rightarrow> default_http | Some d \<Rightarrow> d)\<rparr>"

definition lp_taskTypeForPathId :: "(string \<Rightarrow> string) \<Rightarrow> PathId \<Rightarrow> string option" where
  "lp_taskTypeForPathId up pathId =
     (if ToUpper up pathId \<in> {''PICK'', ''PACK'', ''SLAM''} then Some (ToUpper up pathId) else None)"

text \<open>Of the response only the mean is used, but every field is decoded.\<close>

record taskTypePerformanceResponse =
  tr_TaskType :: string
  tr_TaskCount :: int
  tr_MeanEfficiencyPct :: "f64 option"
  tr_MeanActualSeconds :: "f64 option"

definition decode_taskTypePerformance :: "json \<Rightarrow> err + taskTypePerformanceResponse" where
  "decode_taskTypePerformance =
     dec_object \<lparr>tr_TaskType = '''', tr_TaskCount = 0, tr_MeanEfficiencyPct = None, tr_MeanActualSeconds = None\<rparr> (\<lambda>kvs.
     sbind (dec_field ''taskType'' dec_string kvs '''') (\<lambda>t.
     sbind (dec_field ''taskCount'' dec_int64 kvs 0) (\<lambda>n.
     sbind (dec_field ''meanEfficiencyPct'' (dec_ptr (Fin 0) dec_float64) kvs None) (\<lambda>e.
     sbind (dec_field ''meanActualSeconds'' (dec_ptr (Fin 0) dec_float64) kvs None) (\<lambda>m.
     Inr \<lparr>tr_TaskType = t, tr_TaskCount = n, tr_MeanEfficiencyPct = e, tr_MeanActualSeconds = m\<rparr>)))))"

definition rate_unavailable :: "err list \<Rightarrow> err" where
  "rate_unavailable es = Joined (Sentinel ErrMeasuredRateUnavailable # es)"

definition lp_MeanActualSeconds ::
  "(string \<Rightarrow> string) \<Rightarrow> (string \<Rightarrow> err option) \<Rightarrow> 's lp_Client \<Rightarrow> deadline \<Rightarrow> PathId \<Rightarrow> ('s, f64) op" where
  "lp_MeanActualSeconds up url_ok c ctx pathId =
     (case lp_taskTypeForPathId up pathId of
        None \<Rightarrow> ofail (Wrap (''path '' @ pathId @ '' has no labor-performance task type'') (Sentinel ErrMeasuredRateUnavailable))
      | Some taskType \<Rightarrow>
          let endpoint = lp_baseURL c @ ''/task-types/'' @ PathEscape taskType @ ''/performance'' in
          (case url_ok endpoint of
             Some e \<Rightarrow> ofail (rate_unavailable [e])
           | None \<Rightarrow> ocatch (lp_doer c ctx \<lparr>rq_URL = endpoint, rq_Accept = ''application/json''\<rparr>) (\<lambda>r. case r of
               Inl e \<Rightarrow> ofail (rate_unavailable [e])
             | Inr resp \<Rightarrow>
                 if rs_StatusCode resp \<noteq> 200
                 then ofail (Wrap (''unexpected status '' @ print_int (rs_StatusCode resp)) (Sentinel ErrMeasuredRateUnavailable))
                 else (case sbind (rs_Body resp) decode_taskTypePerformance of
                     Inl e \<Rightarrow> ofail (rate_unavailable [e])
                   | Inr decoded \<Rightarrow>
                       (case tr_MeanActualSeconds decoded of
                          None \<Rightarrow> ofail (Wrap ''no measurable data recorded for this task type yet'' (Sentinel ErrMeasuredRateUnavailable))
                        | Some x \<Rightarrow> oret x)))))"

definition lp_Permissive_MeanActualSeconds :: "PathId \<Rightarrow> ('s, f64) op" where
  "lp_Permissive_MeanActualSeconds pathId = ofail (Sentinel ErrMeasuredRateUnavailable)"

definition isBreakerRejection :: "err \<Rightarrow> bool" where
  "isBreakerRejection e \<longleftrightarrow> errors_is e ErrOpenState \<or> errors_is e ErrTooManyRequests"

definition maxRetryAttempts :: int where "maxRetryAttempts = 3"

definition lp_retryingFetch ::
  "(string \<Rightarrow> string) \<Rightarrow> (string \<Rightarrow> err option) \<Rightarrow> ('s, f64) backoff \<Rightarrow> 's lp_Client \<Rightarrow> deadline \<Rightarrow> PathId \<Rightarrow> ('s, f64) op" where
  "lp_retryingFetch up url_ok retry c callCtx pathId =
     (case lp_taskTypeForPathId up pathId of
        None \<Rightarrow> ofail (Sentinel ErrMeasuredRateUnavailable)
      | Some _ \<Rightarrow> retry \<lparr>bo_InitialInterval = 50000000, bo_MaxInterval = 500000000, bo_MaxRetries = maxRetryAttempts - 1\<rparr>
                     callCtx (lp_MeanActualSeconds up url_ok c callCtx pathId))"

definition lp_newBreakerClient :: "'s recorder option \<Rightarrow> duration \<Rightarrow> 's breaker_settings" where
  "lp_newBreakerClient recorder cooldown =
     \<lparr>bs_Name = ''labor-performance'', bs_MaxRequests = DefaultMaxRequests, bs_Interval = DefaultInterval,
      bs_Timeout = cooldown, bs_ReadyToTrip = ReadyToTrip, bs_IsExcluded = (\<lambda>e. errors_is e ContextCanceled),
      bs_OnStateChange = RecordStateChange ''labor-performance'' recorder\<rparr>"

definition lp_NewBreakerClient :: "'s recorder option \<Rightarrow> 's breaker_settings" where
  "lp_NewBreakerClient recorder = lp_newBreakerClient recorder DefaultBreakerTimeout"

definition lp_Breaker_MeanActualSeconds ::
  "(string \<Rightarrow> string) \<Rightarrow> (string \<Rightarrow> err option) \<Rightarrow> (('s, f64) op \<Rightarrow> ('s, f64) op) \<Rightarrow> ('s, f64) backoff \<Rightarrow> time \<Rightarrow>
     's lp_Client \<Rightarrow> deadline \<Rightarrow> PathId \<Rightarrow> ('s, f64) op" where
  "lp_Breaker_MeanActualSeconds up url_ok exec retry now c ctx pathId =
     (let callCtx = CallTimeout now ctx lp_DefaultTimeout in
      ocatch (exec (lp_retryingFetch up url_ok retry c callCtx pathId)) (\<lambda>r. case r of
          Inl e \<Rightarrow> if isBreakerRejection e then lp_Permissive_MeanActualSeconds pathId else ofail e
        | Inr x \<Rightarrow> oret x))"

section \<open>\<open>fulfillmentexecution\<close>\<close>

record 's fe_Client =
  fe_baseURL :: string
  fe_doer :: "'s doer"

definition fe_DefaultTimeout :: duration where "fe_DefaultTimeout = 3 * second_ns"

definition fe_NewClient :: "'s doer \<Rightarrow> string \<Rightarrow> 's doer option \<Rightarrow> ('s fe_Client \<Rightarrow> 's fe_Client) list \<Rightarrow> 's fe_Client" where
  "fe_NewClient default_http baseURL d opts =
     fold (\<lambda>opt c. opt c) opts \<lparr>fe_baseURL = TrimRightSlash baseURL,
        fe_doer = (case d of None \<Rightarrow> default_http | Some d \<Rightarrow> d)\<rparr>"

record installedCapacityResponse =
  ic_Capability :: string
  ic_Installed :: int

definition decode_installedCapacity :: "json \<Rightarrow> err + installedCapacityResponse" where
  "decode_installedCapacity =
     dec_object \<lparr>ic_Capability = '''', ic_Installed = 0\<rparr> (\<lambda>kvs.
     sbind (dec_field ''capability'' dec_string kvs '''') (\<lambda>c.
     sbind (dec_field ''installed'' dec_int64 kvs 0) (\<lambda>n.
     Inr \<lparr>ic_Capability = c, ic_Installed = n\<rparr>)))"

definition capacity_unavailable :: "err list \<Rightarrow> err" where
  "capacity_unavailable es = Joined (Sentinel ErrInstalledCapacityUnavailable # es)"

definition fe_InstalledCapacity ::
  "(string \<Rightarrow> err option) \<Rightarrow> 's fe_Client \<Rightarrow> deadline \<Rightarrow> Capability \<Rightarrow> ('s, int) op" where
  "fe_InstalledCapacity url_ok c ctx capability =
     (let endpoint = fe_baseURL c @ ''/capacity/'' @ PathEscape capability in
      case url_ok endpoint of
        Some e \<Rightarrow> ofail (capacity_unavailable [e])
      | None \<Rightarrow> ocatch (fe_doer c ctx \<lparr>rq_URL = endpoint, rq_Accept = ''application/json''\<rparr>) (\<lambda>r. case r of
          Inl e \<Rightarrow> ofail (capacity_unavailable [e])
        | Inr resp \<Rightarrow>
            if rs_StatusCode resp \<noteq> 200
            then ofail (Wrap (''unexpected status '' @ print_int (rs_StatusCode resp)) (Sentinel ErrInstalledCapacityUnavailable))
            else (case sbind (rs_Body resp) decode_installedCapacity of
                Inl e \<Rightarrow> ofail (capacity_unavailable [e])
              | Inr decoded \<Rightarrow> oret (ic_Installed decoded))))"

definition fe_Permissive_InstalledCapacity :: "Capability \<Rightarrow> ('s, int) op" where
  "fe_Permissive_InstalledCapacity capability = ofail (Sentinel ErrInstalledCapacityUnavailable)"

definition fe_newBreakerClient :: "'s recorder option \<Rightarrow> duration \<Rightarrow> 's breaker_settings" where
  "fe_newBreakerClient recorder cooldown =
     \<lparr>bs_Name = ''fulfillment-execution'', bs_MaxRequests = DefaultMaxRequests, bs_Interval = DefaultInterval,
      bs_Timeout = cooldown, bs_ReadyToTrip = ReadyToTrip, bs_IsExcluded = (\<lambda>e. errors_is e ContextCanceled),
      bs_OnStateChange = RecordStateChange ''fulfillment-execution'' recorder\<rparr>"

definition fe_NewBreakerClient :: "'s recorder option \<Rightarrow> 's breaker_settings" where
  "fe_NewBreakerClient recorder = fe_newBreakerClient recorder DefaultBreakerTimeout"

definition fe_Breaker_InstalledCapacity ::
  "(string \<Rightarrow> err option) \<Rightarrow> (('s, int) op \<Rightarrow> ('s, int) op) \<Rightarrow> time \<Rightarrow> 's fe_Client \<Rightarrow> deadline \<Rightarrow> Capability \<Rightarrow> ('s, int) op" where
  "fe_Breaker_InstalledCapacity url_ok exec now c ctx capability =
     (let callCtx = CallTimeout now ctx fe_DefaultTimeout in
      ocatch (exec (fe_InstalledCapacity url_ok c callCtx capability)) (\<lambda>r. case r of
          Inl e \<Rightarrow> if isBreakerRejection e then fe_Permissive_InstalledCapacity capability else ofail e
        | Inr v \<Rightarrow> oret v))"


section \<open>The capability travels verbatim\<close>

definition unhex :: "char \<Rightarrow> nat option" where
  "unhex c = (let n = (of_char c :: nat) in
     if 48 \<le> n \<and> n \<le> 57 then Some (n - 48) else if 65 \<le> n \<and> n \<le> 70 then Some (n - 55)
     else if 97 \<le> n \<and> n \<le> 102 then Some (n - 87) else None)"

text \<open>What the receiving server makes of a path segment.\<close>

fun PathUnescape :: "string \<Rightarrow> string option" where
  "PathUnescape [] = Some []"
| "PathUnescape (c # cs) =
     (if c = CHR ''%'' then
        (case cs of x # y # cs' \<Rightarrow>
             (case (unhex x, unhex y) of
                (Some a, Some b) \<Rightarrow> map_option (\<lambda>r. char_of (16 * a + b) # r) (PathUnescape cs')
              | _ \<Rightarrow> None)
         | _ \<Rightarrow> None)
      else map_option (\<lambda>r. c # r) (PathUnescape cs))"

lemma unhex_upperhex: "n < 16 \<Longrightarrow> unhex (upperhex n) = Some n"
  by (auto simp: unhex_def upperhex_def Let_def)

lemma hex_char: "char_of (16 * (of_char c div 16) + of_char c mod 16) = (c :: char)"
  by (simp add: mult_div_mod_eq)

lemma shouldEscape_special: "shouldEscape (CHR ''%'')" "shouldEscape (CHR ''/'')" "shouldEscape (CHR ''?'')" "shouldEscape (CHR ''#'')"
  by (simp_all add: shouldEscape_def)

lemma upperhex_plain: "n < 16 \<Longrightarrow> upperhex n \<notin> {CHR ''/'', CHR ''?'', CHR ''#''}"
proof -
  assume n: "n < 16"
  have u: "(of_char (upperhex n) :: nat) = (if n < 10 then 48 + n else 55 + n)" using n by (simp add: upperhex_def)
  have "(of_char (CHR ''/'') :: nat) = 47" "(of_char (CHR ''?'') :: nat) = 63" "(of_char (CHR ''#'') :: nat) = 35" by simp_all
  then show ?thesis using u n by (auto split: if_splits)
qed

lemma PathEscape_verbatim:
  "PathUnescape (PathEscape s) = Some s \<and> CHR ''/'' \<notin> set (PathEscape s) \<and> CHR ''?'' \<notin> set (PathEscape s)
   \<and> CHR ''#'' \<notin> set (PathEscape s)"
proof (induction s)
  case (Cons c s)
  have b: "(of_char c :: nat) div 16 < 16" "(of_char c :: nat) mod 16 < 16"
    using of_char_bound [of c] by (simp_all add: less_mult_imp_div_less)
  show ?case
  proof (cases "shouldEscape c")
    case True
    then show ?thesis using Cons unhex_upperhex [OF b(1)] unhex_upperhex [OF b(2)] hex_char [of c]
        upperhex_plain [OF b(1)] upperhex_plain [OF b(2)]
      by (simp only: PathEscape.simps if_True PathUnescape.simps list.case prod.case option.case) auto
  next
    case False
    then show ?thesis using Cons shouldEscape_special by auto
  qed
qed simp

text \<open>
  Whatever a catalogue's capability string holds, the supplier is asked for exactly that
  capability: only requests whose last path segment the server reads back as the string,
  and which has no slash, query or fragment in it, matter to the answer.
\<close>

theorem capacity_asked_verbatim:
  assumes "\<And>rq s seg. rq_URL rq = fe_baseURL c @ ''/capacity/'' @ seg \<Longrightarrow> PathUnescape seg = Some cap \<Longrightarrow>
      set seg \<inter> {CHR ''/'', CHR ''?'', CHR ''#''} = {} \<Longrightarrow> fe_doer c ctx rq s = fe_doer c' ctx rq s"
    and "fe_baseURL c' = fe_baseURL c"
  shows "fe_InstalledCapacity url_ok c ctx cap = fe_InstalledCapacity url_ok c' ctx cap"
proof -
  let ?rq = "\<lparr>rq_URL = fe_baseURL c @ ''/capacity/'' @ PathEscape cap, rq_Accept = ''application/json''\<rparr>"
  have "fe_doer c ctx ?rq = fe_doer c' ctx ?rq"
    by (rule ext, rule assms(1) [where seg = "PathEscape cap"]) (use PathEscape_verbatim [of cap] in auto)
  then show ?thesis by (simp add: fe_InstalledCapacity_def assms(2) Let_def cong: option.case_cong)
qed

section \<open>The soft rate sources\<close>

interpretation lp_client: soft_source "lp_MeanActualSeconds up url_ok c ctx" ErrMeasuredRateUnavailable for up url_ok c ctx
  by unfold_locales
    (auto simp: lp_MeanActualSeconds_def rate_unavailable_def ocatch_app Let_def split: option.splits sum.splits prod.splits if_splits)

interpretation lp_permissive: soft_source lp_Permissive_MeanActualSeconds ErrMeasuredRateUnavailable
  by unfold_locales (auto simp: lp_Permissive_MeanActualSeconds_def)

text \<open>
  gobreaker's documented contract: \<open>Execute\<close> rejects the call without running it, with one of
  its two errors, or returns what the call returned.
\<close>

definition breaker_ok :: "(('s, 'a) op \<Rightarrow> ('s, 'a) op) \<Rightarrow> bool" where
  "breaker_ok exec \<longleftrightarrow> (\<forall>req s r s'. exec req s = (r, s') \<longrightarrow>
     (\<exists>e. r = Inl e \<and> isBreakerRejection e) \<or> (\<exists>s0 s1. req s0 = (r, s1)))"

lemma breaker_okD:
  "breaker_ok exec \<Longrightarrow> exec req s = (Inl e, s1) \<Longrightarrow> \<not> isBreakerRejection e \<Longrightarrow> \<exists>s0 s2. req s0 = (Inl e, s2)"
  unfolding breaker_ok_def by (metis Inl_inject)

text \<open>
  backoff's: the last outcome of the operation, or, once the context has ended, the
  context's error.
\<close>

definition backoff_ok :: "('s, f64) backoff \<Rightarrow> bool" where
  "backoff_ok retry \<longleftrightarrow> (\<forall>pol ctx opn s r s'. retry pol ctx opn s = (r, s') \<longrightarrow>
     (\<exists>s0 s1. opn s0 = (r, s1)) \<or> r = Inl (Sentinel DeadlineExceeded) \<or> r = Inl (Sentinel ContextCanceled))"

lemma lp_Breaker_Inl:
  assumes "breaker_ok exec" "backoff_ok retry"
    and "lp_Breaker_MeanActualSeconds up url_ok exec retry now c ctx p s = (Inl e, s')"
  shows "errors_is e ErrMeasuredRateUnavailable \<or> e = Sentinel DeadlineExceeded \<or> e = Sentinel ContextCanceled"
proof -
  let ?call = "lp_retryingFetch up url_ok retry c (CallTimeout now ctx lp_DefaultTimeout) p"
  obtain r s1 where x: "exec ?call s = (r, s1)" by fastforce
  show ?thesis
  proof (cases "isBreakerRejection e \<or> r \<noteq> Inl e")
    case True
    then show ?thesis using assms(3) x
      by (auto simp: lp_Breaker_MeanActualSeconds_def ocatch_app lp_Permissive_MeanActualSeconds_def Let_def
          split: sum.splits if_splits)
  next
    case False
    then obtain s0 s2 where "?call s0 = (Inl e, s2)" using breaker_okD [OF assms(1)] x by blast
    then show ?thesis using assms(2)
      by (auto simp: lp_retryingFetch_def backoff_ok_def split: option.splits dest!: lp_client.ask_Inl)
         (metis Inl_inject lp_client.ask_Inl)+
  qed
qed

text \<open>
  C35: what the breaker client answers is a measured rate, the sentinel that makes a proposal go
  on without one, or, when the call's deadline passes while backoff is retrying, the bare
  context error; and that error, unlike the sentinel, makes the whole proposal fail.
\<close>

theorem rate_timeout_blocks_proposal:
  assumes "breaker_ok exec" "backoff_ok retry"
    and "lp_Breaker_MeanActualSeconds up url_ok exec retry now c ctx p s = (Inl e, s')" "fle rate (Fin 0)"
  shows "if errors_is e ErrMeasuredRateUnavailable
    then \<exists>r. resolve_rate (Some (lp_Breaker_MeanActualSeconds up url_ok exec retry now c ctx)) p rate s = (Inr r, s')
    else (e = Sentinel DeadlineExceeded \<or> e = Sentinel ContextCanceled)
      \<and> ProposePathPlan_Execute plat P (Some (lp_Breaker_MeanActualSeconds up url_ok exec retry now c ctx)) idle th b p charge rate s
          = (Inl e, s')"
  using lp_Breaker_Inl [OF assms(1-3)] assms(3,4)
  by (auto simp: resolve_rate_def ocatch_app ProposePathPlan_Execute_def obind_app)

section \<open>The capacity that gates a commit\<close>

interpretation fe_client: capacity_source "fe_InstalledCapacity url_ok c ctx" for url_ok c ctx
  by unfold_locales
    (auto simp: fe_InstalledCapacity_def capacity_unavailable_def ocatch_app Let_def split: option.splits sum.splits prod.splits if_splits)

interpretation fe_permissive: capacity_source fe_Permissive_InstalledCapacity
  by unfold_locales (auto simp: fe_Permissive_InstalledCapacity_def)

lemma fe_Breaker_source: "breaker_ok exec \<Longrightarrow> capacity_source (fe_Breaker_InstalledCapacity url_ok exec now c ctx)"
proof
  fix cap s e s'
  assume b: "breaker_ok exec" and f: "fe_Breaker_InstalledCapacity url_ok exec now c ctx cap s = (Inl e, s')"
  let ?call = "fe_InstalledCapacity url_ok c (CallTimeout now ctx fe_DefaultTimeout) cap"
  obtain r s1 where x: "exec ?call s = (r, s1)" by fastforce
  show "errors_is e ErrInstalledCapacityUnavailable"
  proof (cases "isBreakerRejection e \<or> r \<noteq> Inl e")
    case True
    then show ?thesis using f x
      by (auto simp: fe_Breaker_InstalledCapacity_def ocatch_app fe_Permissive_InstalledCapacity_def Let_def
          split: sum.splits if_splits)
  next
    case False
    then obtain s0 s2 where "?call s0 = (Inl e, s2)" using breaker_okD [OF b] x by blast
    then show ?thesis by (rule fe_client.ask_Inl)
  qed
qed


text \<open>
  With no capacity source configured, which is the default, a plan whose first line's path
  requires any capability is never committed: the commit fails with the capacity sentinel
  before anything is saved or published.
\<close>

theorem permissive_never_commits:
  assumes "lk (pp_PathId l) = Inr d" "pd_RequiredCapabilities d \<noteq> []"
  shows "\<exists>e. CommitShiftPlan_Execute P (Some (\<lambda>q. olift (lk q))) fe_Permissive_InstalledCapacity mx b sh (l # ls) stations s
      = (Inl e, s) \<and> errors_is e ErrInstalledCapacityUnavailable"
  using assms
  by (cases "pd_RequiredCapabilities d")
    (simp_all add: CommitShiftPlan_Execute_def installedCapacityForPath_def ocatch_def obind_def
      fe_Permissive_InstalledCapacity_def)

definition down_mem :: mem where
  "down_mem = \<lparr>mem_assoc = [], mem_asg = [], mem_plan = [], mem_log = [], mem_clock = []\<rparr>"

definition down_ports :: "mem ports" where
  "down_ports = mem_ports\<lparr>Publish := (\<lambda>_. ofail (Other ''broker down'')), UnitOfWork := None\<rparr>"

text \<open>
  Whatever deadline the inbound request has, a call to the capacity supplier goes out with a
  deadline at most three seconds away and never later than the request's own.
\<close>

theorem call_deadline:
  assumes "\<And>dl rq s. dl \<noteq> None \<Longrightarrow> the dl \<le> now + 3000000000 \<Longrightarrow> (\<forall>t. ctx = Some t \<longrightarrow> the dl \<le> t) \<Longrightarrow>
      fe_doer c dl rq s = fe_doer c' dl rq s" "fe_baseURL c = fe_baseURL c'"
  shows "fe_Breaker_InstalledCapacity url_ok exec now c ctx cap = fe_Breaker_InstalledCapacity url_ok exec now c' ctx cap"
proof -
  let ?dl = "CallTimeout now ctx fe_DefaultTimeout"
  have dl: "?dl = Some (case ctx of Some t \<Rightarrow> min t (now + 3000000000) | None \<Rightarrow> now + 3000000000)"
    using CallTimeout_cap [of 3000000000 now ctx] by (simp add: fe_DefaultTimeout_def)
  have "fe_doer c ?dl rq = fe_doer c' ?dl rq" for rq
    unfolding dl by (rule ext, rule assms(1)) (auto split: option.splits)
  then have "fe_InstalledCapacity url_ok c ?dl cap = fe_InstalledCapacity url_ok c' ?dl cap"
    using assms(2) by (simp add: fe_InstalledCapacity_def Let_def cong: option.case_cong)
  then show ?thesis by (simp add: fe_Breaker_InstalledCapacity_def)
qed

lemma demo_breaker_ok: "breaker_ok (\<lambda>req. req)"
  by (auto simp: breaker_ok_def)

definition deadline_backoff :: "(mem, f64) backoff" where
  "deadline_backoff pol ctx opn s = (case opn s of (Inl _, s) \<Rightarrow> (Inl (Sentinel DeadlineExceeded), s) | (Inr x, s) \<Rightarrow> (Inr x, s))"

lemma deadline_backoff_ok: "backoff_ok deadline_backoff"
  unfolding backoff_ok_def deadline_backoff_def by (auto split: prod.splits sum.splits)

theorem rate_timeout_blocks_proposal_witness:
  "ProposePathPlan_Execute (\<lambda>_. 0) mem_ports (Some (lp_Breaker_MeanActualSeconds id (\<lambda>_. None) (\<lambda>req. req) deadline_backoff 0
      \<lparr>lp_baseURL = ''http://lp'', lp_doer = (\<lambda>_ _. ofail (Other ''timeout''))\<rparr> None)) None (Fin 0) ''b'' ''pick'' (Fin 100) (Fin 0) down_mem
   = (Inl (Sentinel DeadlineExceeded), down_mem)"
proof -
  have t: "lp_taskTypeForPathId id ''pick'' = Some ''PICK''"
    by (simp add: lp_taskTypeForPathId_def demo_upper_pick)
  have "lp_Breaker_MeanActualSeconds id (\<lambda>_. None) (\<lambda>req. req) deadline_backoff 0
      \<lparr>lp_baseURL = ''http://lp'', lp_doer = (\<lambda>_ _. ofail (Other ''timeout''))\<rparr> None ''pick'' down_mem = (Inl (Sentinel DeadlineExceeded), down_mem)"
    by (simp add: lp_Breaker_MeanActualSeconds_def lp_retryingFetch_def t deadline_backoff_def lp_MeanActualSeconds_def
        ocatch_app isBreakerRejection_def)
  from rate_timeout_blocks_proposal [OF demo_breaker_ok deadline_backoff_ok this, of "Fin 0"] show ?thesis
    by simp
qed


text \<open>
  C34: with the measured-rate cache as its source of rates and idle shares, a proposal fails only
  when its event cannot be published: whatever the cache holds or lacks, enrichment never
  blocks it.
\<close>

theorem propose_fail_open:
  assumes "ProposePathPlan_Execute plat P (Some (\<lambda>q. olift (lpc_MeanActualSeconds up q c)))
      (Some (\<lambda>q. olift (lpc_IdleSharePct up q c))) th b p charge rate s = (Inl e, s')"
  shows "\<exists>heads r t s1. atomically P (Publish P [ShiftPlanProposed t b p heads r]) s1 = (Inl e, s')"
proof -
  obtain rr src s1 where r: "resolve_rate (Some (\<lambda>q. olift (lpc_MeanActualSeconds up q c))) p rate s = (Inr (rr, src), s1)"
    using lpc_rate.resolve_rate_total [OF refl] by (metis surj_pair)
  obtain h tr s2 where h: "applyIdleShareTrim plat (Some (\<lambda>q. olift (lpc_IdleSharePct up q c))) th p (ProposedHeads plat charge rr) s1
      = (Inr (h, tr), s2)"
    using lpc_idle.trim_total [OF refl] by (metis surj_pair)
  obtain t s3 where t: "Now P s2 = (t, s3)" by fastforce
  show ?thesis using assms
    by (auto simp: ProposePathPlan_Execute_def obind_def r h onow_def t simp del: olift_app
        split: prod.splits sum.splits)
qed


theorem propose_fail_open_witness:
  "\<exists>heads r t s1. atomically down_ports (Publish down_ports [ShiftPlanProposed t ''b'' ''stow'' heads r]) s1
     = (Inl (Other ''broker down''), down_mem)"
proof (rule propose_fail_open)
  have "ToUpper id ''stow'' = ''STOW''" by code_simp
  then have idle: "lpc_IdleSharePct id ''stow'' demo_lpc0
      = Inl (Wrap (''path stow has no labor-performance task type'') (Sentinel ErrIdleShareUnavailable))"
    by (simp add: lpc_IdleSharePct_def lpc_taskTypeForPathId_def)
  show "ProposePathPlan_Execute (\<lambda>_. 0) down_ports (Some (\<lambda>q. olift (lpc_MeanActualSeconds id q demo_lpc0)))
      (Some (\<lambda>q. olift (lpc_IdleSharePct id q demo_lpc0))) (Fin 0) ''b'' ''stow'' (Fin 100) (Fin 60)
      down_mem
    = (Inl (Other ''broker down''), down_mem)"
    by (simp add: ProposePathPlan_Execute_def resolve_rate_def applyIdleShareTrim_def obind_def ocatch_def idle
        onow_def mem_Now_def down_ports_def mem_ports_def atomically_def down_mem_def)
qed

end
