(* ===== verification/Mcp.thy ===== *)
theory Mcp
  imports HttpPg Clients AnalyticsStore
begin

text \<open>
  \<open>internal/adapters/inbound/mcp\<close> and its wiring in \<open>cmd/mcp\<close>: the MCP tools and the staffing
  resource over the use cases, and the client of the reports service behind the report
  tool. The MCP SDK, the transport and \<open>http.NewRequest\<close>'s objections to a URL are parameters; a
  tool is its handler. Main results: what the resource URI parses to, the report tool composed
  with the reports service end to end, and where the MCP wiring of an assignment differs
  from the REST one.
\<close>

section \<open>The tools\<close>

record LaborQuery =
  lq_From :: string
  lq_To :: string
  lq_PathId :: string
  lq_Granularity :: string

record LaborRowView =
  lv_PathId :: string
  lv_HourBucket :: string
  lv_ShiftsStarted :: int
  lv_ShiftsEnded :: int
  lv_Breaks :: int
  lv_AvgBreakSeconds :: f64
  lv_Certifications :: int
  lv_LaborAssigned :: int
  lv_LaborReassigned :: int
  lv_UnderstaffingEvents :: int

type_synonym LaborReportView = "LaborRowView list"

record 's ReportsClient =
  rc_GetLabor :: "LaborQuery \<Rightarrow> ('s, LaborReportView) op"
  rc_GetFreshness :: "('s, f64) op"

text \<open>
  The use cases are wired by their ports; neither of the two enrichment sources is, and the
  trim threshold is the zero value.
\<close>

record 's Deps =
  md_ports :: "'s ports"
  md_maxHours :: f64
  md_plat :: "f64 \<Rightarrow> int"
  md_Reports :: "'s ReportsClient option"

record mcp_staffingGap =
  mg_BuildingId :: string
  mg_ShiftId :: string
  mg_PathId :: string
  mg_PlannedHeads :: int
  mg_ActiveHeads :: int
  mg_Understaffed :: bool

definition toStaffingGap :: "string \<Rightarrow> string \<Rightarrow> StaffingGap \<Rightarrow> mcp_staffingGap" where
  "toStaffingGap buildingId shiftId gap = \<lparr>mg_BuildingId = buildingId, mg_ShiftId = shiftId, mg_PathId = sg_PathId gap,
     mg_PlannedHeads = sg_PlannedHeads gap, mg_ActiveHeads = sg_ActiveHeads gap, mg_Understaffed = sg_Understaffed gap\<rparr>"

definition getStaffingGap :: "'s Deps \<Rightarrow> string \<Rightarrow> string \<Rightarrow> string \<Rightarrow> ('s, mcp_staffingGap) op" where
  "getStaffingGap d buildingId shiftId pathId =
     (if buildingId = '''' \<or> shiftId = '''' \<or> pathId = ''''
      then ofail (Other ''buildingId, shiftId and pathId are required'')
      else obind (GetStaffingGap_Execute (md_ports d) None buildingId shiftId pathId) (\<lambda>gap.
        oret (toStaffingGap buildingId shiftId gap)))"

record proposeHeadsOutput =
  ph_BuildingId :: string
  ph_PathId :: string
  ph_Charge :: f64
  ph_PlannedRate :: f64
  ph_ProposedHeads :: int

definition proposePathHeads :: "'s Deps \<Rightarrow> string \<Rightarrow> string \<Rightarrow> f64 \<Rightarrow> f64 \<Rightarrow> ('s, proposeHeadsOutput) op" where
  "proposePathHeads d buildingId pathId charge plannedRate =
     (if buildingId = '''' \<or> pathId = '''' then ofail (Other ''buildingId and pathId are required'')
      else if flt charge (Fin 0) then ofail (Other ''charge must not be negative'')
      else if fle plannedRate (Fin 0) then ofail (Other ''plannedRate must be greater than zero'')
      else obind (ProposePathPlan_Execute (md_plat d) (md_ports d) None None (Fin 0) buildingId pathId charge plannedRate)
        (\<lambda>(heads, _, _, _). oret \<lparr>ph_BuildingId = buildingId, ph_PathId = pathId, ph_Charge = charge,
           ph_PlannedRate = plannedRate, ph_ProposedHeads = heads\<rparr>))"

record laborAssignmentView =
  av_AssociateId :: string
  av_PathId :: string
  av_AssignmentId :: string

definition mcp_assignLabor :: "'s Deps \<Rightarrow> string \<Rightarrow> string \<Rightarrow> ('s, laborAssignmentView) op" where
  "mcp_assignLabor d associateId pathId =
     (if associateId = '''' \<or> pathId = '''' then ofail (Other ''associateId and pathId are required'')
      else obind (AssignLabor_Execute (md_ports d) (md_maxHours d) associateId pathId) (\<lambda>la.
        let activePath = fst (ActivePathId la) in
        oret \<lparr>av_AssociateId = la_associateId la, av_PathId = activePath,
              av_AssignmentId = la_associateId la @ ''@'' @ activePath\<rparr>))"

text \<open>\<open>GetLaborReportForTest\<close>, the tool's logic.\<close>

definition getLaborReport :: "'s ReportsClient option \<Rightarrow> LaborQuery \<Rightarrow> ('s, LaborReportView) op" where
  "getLaborReport client q = (case client of
       None \<Rightarrow> ofail (Other ''reports client not configured'')
     | Some c \<Rightarrow>
         if lq_From q = '''' \<or> lq_To q = '''' then ofail (Other ''from and to are required (RFC3339)'')
         else rc_GetLabor c q)"

text \<open>The tools an MCP client finds: the report tool only with a reports client.\<close>

definition registerTools :: "'s Deps \<Rightarrow> string list" where
  "registerTools d = [''get_staffing_gap'', ''propose_path_heads'', ''assign_labor'']
     @ (case md_Reports d of None \<Rightarrow> [] | Some _ \<Rightarrow> [''get_workforce_labor_report''])"

section \<open>The staffing resource\<close>

definition trimPrefix :: "string \<Rightarrow> string \<Rightarrow> string option" where
  "trimPrefix s prefix =
     (if length s < length prefix \<or> take (length prefix) s \<noteq> prefix then None else Some (drop (length prefix) s))"

text \<open>The loop of \<open>splitSlash\<close>: \<open>seg\<close> is the segment since \<open>start\<close>.\<close>

fun split_loop :: "string list \<Rightarrow> string \<Rightarrow> string \<Rightarrow> string list" where
  "split_loop out seg [] = out @ [seg]"
| "split_loop out seg (c # s) =
     (if c = CHR ''/'' then split_loop (out @ [seg]) '''' s else split_loop out (seg @ [c]) s)"

definition splitSlash :: "string \<Rightarrow> string list" where
  "splitSlash s = split_loop [] '''' s"

definition parseStaffingURI :: "string \<Rightarrow> err + string \<times> string \<times> string" where
  "parseStaffingURI uri = (case trimPrefix uri ''staffing://'' of
       None \<Rightarrow> Inl (Other ''resource uri must start with staffing://'')
     | Some rest \<Rightarrow> (let parts = splitSlash rest in
         if length parts \<noteq> 4 \<or> parts ! 3 \<noteq> ''gap''
         then Inl (Other ''resource uri must be staffing://{buildingId}/{shiftId}/{pathId}/gap'')
         else if parts ! 0 = '''' \<or> parts ! 1 = '''' \<or> parts ! 2 = ''''
         then Inl (Other ''resource uri has an empty buildingId, shiftId or pathId segment'')
         else Inr (parts ! 0, parts ! 1, parts ! 2)))"

definition staffingGap_json :: "mcp_staffingGap \<Rightarrow> json" where
  "staffingGap_json g = JObj [(''buildingId'', JStr (mg_BuildingId g)), (''shiftId'', JStr (mg_ShiftId g)),
     (''pathId'', JStr (mg_PathId g)), (''plannedHeads'', JInt (mg_PlannedHeads g)),
     (''activeHeads'', JInt (mg_ActiveHeads g)), (''understaffed'', JBool (mg_Understaffed g))]"

definition readStaffingResource :: "'s Deps \<Rightarrow> string \<Rightarrow> ('s, json) op" where
  "readStaffingResource d uri =
     obind (olift (parseStaffingURI uri)) (\<lambda>(buildingId, shiftId, pathId).
     obind (GetStaffingGap_Execute (md_ports d) None buildingId shiftId pathId) (\<lambda>gap.
     oret (staffingGap_json (toStaffingGap buildingId shiftId gap))))"

section \<open>The client of the reports service\<close>

text \<open>\<open>url.QueryEscape\<close>; \<open>Values.Encode\<close> writes the pairs in key order.\<close>

definition unreserved :: "char \<Rightarrow> bool" where
  "unreserved c = (let n = (of_char c :: nat) in
     48 \<le> n \<and> n \<le> 57 \<or> 65 \<le> n \<and> n \<le> 90 \<or> 97 \<le> n \<and> n \<le> 122 \<or> c \<in> set ''-_.~'')"

fun QueryEscape :: "string \<Rightarrow> string" where
  "QueryEscape [] = []"
| "QueryEscape (c # cs) =
     (if unreserved c then c # QueryEscape cs
      else if c = CHR '' '' then CHR ''+'' # QueryEscape cs
      else CHR ''%'' # upperhex (of_char c div 16) # upperhex (of_char c mod 16) # QueryEscape cs)"

fun values_Encode :: "(string \<times> string) list \<Rightarrow> string" where
  "values_Encode [] = ''''"
| "values_Encode [(k, v)] = QueryEscape k @ ''='' @ QueryEscape v"
| "values_Encode ((k, v) # kvs) = QueryEscape k @ ''='' @ QueryEscape v @ ''&'' @ values_Encode kvs"

record 's ReportsRESTClient =
  rr_baseURL :: string
  rr_http :: "'s doer"

definition NewReportsRESTClient :: "'s doer \<Rightarrow> string \<Rightarrow> 's doer option \<Rightarrow> 's ReportsRESTClient" where
  "NewReportsRESTClient default_http baseURL httpClient =
     \<lparr>rr_baseURL = baseURL, rr_http = (case httpClient of None \<Rightarrow> default_http | Some h \<Rightarrow> h)\<rparr>"

definition getJSON ::
  "(string \<Rightarrow> err option) \<Rightarrow> 's ReportsRESTClient \<Rightarrow> deadline \<Rightarrow> string \<Rightarrow> (json \<Rightarrow> err + 'a) \<Rightarrow> ('s, 'a) op" where
  "getJSON url_ok c ctx path decode = (case url_ok (rr_baseURL c @ path) of
       Some e \<Rightarrow> ofail (Wrap ''reports client: build request'' e)
     | None \<Rightarrow> ocatch (rr_http c ctx \<lparr>rq_URL = rr_baseURL c @ path, rq_Accept = ''''\<rparr>) (\<lambda>r. case r of
         Inl e \<Rightarrow> ofail (Wrap ''reports client: request'' e)
       | Inr resp \<Rightarrow>
           if rs_StatusCode resp < 200 \<or> rs_StatusCode resp \<ge> 300
           then ofail (Other (''reports client: unexpected status '' @ print_int (rs_StatusCode resp)))
           else (case sbind (rs_Body resp) decode of
               Inl e \<Rightarrow> ofail (Wrap ''reports client: decode'' e)
             | Inr out \<Rightarrow> oret out)))"

definition decode_LaborRowView :: "LaborRowView decoder" where
  "decode_LaborRowView j v = dec_object v (\<lambda>kvs.
     sbind (dec_field ''pathId'' dec_string kvs (lv_PathId v)) (\<lambda>p.
     sbind (dec_field ''hourBucket'' dec_string kvs (lv_HourBucket v)) (\<lambda>h.
     sbind (dec_field ''shiftsStarted'' dec_int64 kvs (lv_ShiftsStarted v)) (\<lambda>ss.
     sbind (dec_field ''shiftsEnded'' dec_int64 kvs (lv_ShiftsEnded v)) (\<lambda>se.
     sbind (dec_field ''breaks'' dec_int64 kvs (lv_Breaks v)) (\<lambda>b.
     sbind (dec_field ''avgBreakSeconds'' dec_float64 kvs (lv_AvgBreakSeconds v)) (\<lambda>avg.
     sbind (dec_field ''certifications'' dec_int64 kvs (lv_Certifications v)) (\<lambda>c.
     sbind (dec_field ''laborAssigned'' dec_int64 kvs (lv_LaborAssigned v)) (\<lambda>la.
     sbind (dec_field ''laborReassigned'' dec_int64 kvs (lv_LaborReassigned v)) (\<lambda>lr.
     sbind (dec_field ''understaffingEvents'' dec_int64 kvs (lv_UnderstaffingEvents v)) (\<lambda>ue.
     Inr \<lparr>lv_PathId = p, lv_HourBucket = h, lv_ShiftsStarted = ss, lv_ShiftsEnded = se, lv_Breaks = b,
          lv_AvgBreakSeconds = avg, lv_Certifications = c, lv_LaborAssigned = la, lv_LaborReassigned = lr,
          lv_UnderstaffingEvents = ue\<rparr>))))))))))) j"

definition zero_row :: LaborRowView where
  "zero_row = \<lparr>lv_PathId = '''', lv_HourBucket = '''', lv_ShiftsStarted = 0, lv_ShiftsEnded = 0, lv_Breaks = 0,
     lv_AvgBreakSeconds = Fin 0, lv_Certifications = 0, lv_LaborAssigned = 0, lv_LaborReassigned = 0,
     lv_UnderstaffingEvents = 0\<rparr>"

definition decode_LaborReportView :: "json \<Rightarrow> err + LaborReportView" where
  "decode_LaborReportView = dec_object [] (\<lambda>kvs. dec_field ''rows'' (dec_slice zero_row decode_LaborRowView) kvs [])"

definition decode_FreshnessView :: "json \<Rightarrow> err + f64" where
  "decode_FreshnessView = dec_object (Fin 0) (\<lambda>kvs. dec_field ''lagSeconds'' dec_float64 kvs (Fin 0))"

definition labor_values :: "LaborQuery \<Rightarrow> (string \<times> string) list" where
  "labor_values q = [(''from'', lq_From q)]
     @ (if lq_Granularity q \<noteq> '''' then [(''granularity'', lq_Granularity q)] else [])
     @ (if lq_PathId q \<noteq> '''' then [(''pathId'', lq_PathId q)] else [])
     @ [(''to'', lq_To q)]"

definition rest_GetLabor :: "(string \<Rightarrow> err option) \<Rightarrow> 's ReportsRESTClient \<Rightarrow> deadline \<Rightarrow> LaborQuery \<Rightarrow> ('s, LaborReportView) op" where
  "rest_GetLabor url_ok c ctx q =
     getJSON url_ok c ctx (''/reports/labor?'' @ values_Encode (labor_values q)) decode_LaborReportView"

definition rest_GetFreshness :: "(string \<Rightarrow> err option) \<Rightarrow> 's ReportsRESTClient \<Rightarrow> deadline \<Rightarrow> ('s, f64) op" where
  "rest_GetFreshness url_ok c ctx = getJSON url_ok c ctx ''/reports/labor/freshness'' decode_FreshnessView"

definition rest_reports :: "(string \<Rightarrow> err option) \<Rightarrow> 's ReportsRESTClient \<Rightarrow> deadline \<Rightarrow> 's ReportsClient" where
  "rest_reports url_ok c ctx = \<lparr>rc_GetLabor = rest_GetLabor url_ok c ctx, rc_GetFreshness = rest_GetFreshness url_ok c ctx\<rparr>"

section \<open>The wiring of \<open>cmd/mcp\<close>\<close>

text \<open>
  The MCP server's publisher only logs, and no use case of it gets a unit of work. What the
  process keeps of the events it logged is not part of the state.
\<close>

definition mcp_ports :: "'s ports \<Rightarrow> 's ports" where
  "mcp_ports P = P\<lparr>Publish := (\<lambda>es. oret ()), UnitOfWork := None\<rparr>"

definition mcp_deps :: "'s ports \<Rightarrow> f64 \<Rightarrow> (f64 \<Rightarrow> int) \<Rightarrow> string \<Rightarrow> (string \<Rightarrow> 's ReportsClient) \<Rightarrow> 's Deps" where
  "mcp_deps P maxHoursPerShift plat reportsBaseURL client =
     \<lparr>md_ports = mcp_ports P, md_maxHours = maxHoursPerShift, md_plat = plat,
      md_Reports = (if reportsBaseURL \<noteq> '''' then Some (client reportsBaseURL) else None)\<rparr>"

section \<open>What a resource URI parses to\<close>

lemma split_loop_out: "split_loop out seg s = out @ split_loop [] seg s"
  by (induction s arbitrary: out seg)
    (simp, metis append_Nil append_assoc split_loop.simps(2))

lemma split_loop_seg: "\<exists>x xs. split_loop [] seg s = (seg @ x) # xs \<and> split_loop [] '''' s = x # xs"
proof (induction s arbitrary: seg)
  case (Cons c s)
  show ?case
  proof (cases "c = CHR ''/''")
    case False
    obtain x xs where x: "split_loop [] (seg @ [c]) s = ((seg @ [c]) @ x) # xs" "split_loop [] '''' s = x # xs"
      using Cons [of "seg @ [c]"] by blast
    moreover obtain y ys where "split_loop [] ([] @ [c]) s = ([c] @ y) # ys" "split_loop [] '''' s = y # ys"
      using Cons [of "[c]"] by auto
    ultimately show ?thesis using False by auto
  qed (auto simp: split_loop_out [of "[seg]"] split_loop_out [of "['''']"])
qed simp

lemma splitSlash_simps:
  "splitSlash '''' = ['''']"
  "splitSlash (c # s) = (if c = CHR ''/'' then '''' # splitSlash s else (c # hd (splitSlash s)) # tl (splitSlash s))"
  using split_loop_seg [of "[c]" s] by (auto simp: splitSlash_def split_loop_out [of "['''']"])

lemma splitSlash_nonempty [simp]: "splitSlash s \<noteq> []"
  by (cases s) (auto simp: splitSlash_simps)

lemma splitSlash_last: "CHR ''/'' \<notin> set s \<Longrightarrow> splitSlash s = [s]"
  by (induction s) (auto simp: splitSlash_simps)

lemma splitSlash_join: "CHR ''/'' \<notin> set s \<Longrightarrow> splitSlash (s @ CHR ''/'' # t) = s # splitSlash t"
  by (induction s) (auto simp: splitSlash_simps)

lemma splitSlash_parts: "x \<in> set (splitSlash s) \<Longrightarrow> CHR ''/'' \<notin> set x"
proof (induction s arbitrary: x)
  case (Cons c s)
  obtain y ys where y: "splitSlash s = y # ys" by (cases "splitSlash s") auto
  show ?case using Cons y by (auto simp: splitSlash_simps split: if_splits)
qed (simp add: splitSlash_simps)

fun join_slash :: "string list \<Rightarrow> string" where
  "join_slash [] = ''''"
| "join_slash [x] = x"
| "join_slash (x # xs) = x @ ''/'' @ join_slash xs"

lemma join_splitSlash: "join_slash (splitSlash s) = s"
proof (induction s)
  case (Cons c s)
  obtain y ys where y: "splitSlash s = y # ys" by (cases "splitSlash s") auto
  then show ?case using Cons by (cases ys) (auto simp: splitSlash_simps)
qed (simp add: splitSlash_simps)

lemma trimPrefix_Some: "trimPrefix s p = Some r \<longleftrightarrow> s = p @ r"
  by (auto simp: trimPrefix_def) (metis append_take_drop_id)

text \<open>
  C37: the staffing resource reads exactly the URIs of its template: one parses to a building, a
  shift and a path just when it is \<open>staffing://building/shift/path/gap\<close> with three segments that
  are not empty and have no slash in them.
\<close>

theorem parseStaffingURI_exact:
  "parseStaffingURI uri = Inr (b, sh, p) \<longleftrightarrow>
     uri = ''staffing://'' @ b @ ''/'' @ sh @ ''/'' @ p @ ''/gap''
     \<and> (\<forall>x \<in> {b, sh, p}. x \<noteq> '''' \<and> CHR ''/'' \<notin> set x)"
proof
  assume a: "parseStaffingURI uri = Inr (b, sh, p)"
  then obtain rest where r: "trimPrefix uri ''staffing://'' = Some rest"
    by (auto simp: parseStaffingURI_def split: option.splits)
  then have "length (splitSlash rest) = 4" "splitSlash rest ! 3 = ''gap''" "splitSlash rest ! 0 = b"
    "splitSlash rest ! 1 = sh" "splitSlash rest ! 2 = p" "b \<noteq> ''''" "sh \<noteq> ''''" "p \<noteq> ''''"
    using a by (auto simp: parseStaffingURI_def Let_def split: if_splits)
  then have s: "splitSlash rest = [b, sh, p, ''gap'']"
    by (auto simp: numeral_eq_Suc length_Suc_conv)
  then have "rest = b @ ''/'' @ sh @ ''/'' @ p @ ''/gap''" using join_splitSlash [of rest] by simp
  moreover have "CHR ''/'' \<notin> set b" "CHR ''/'' \<notin> set sh" "CHR ''/'' \<notin> set p"
    using splitSlash_parts [of _ rest] s by auto
  ultimately show "uri = ''staffing://'' @ b @ ''/'' @ sh @ ''/'' @ p @ ''/gap''
     \<and> (\<forall>x \<in> {b, sh, p}. x \<noteq> '''' \<and> CHR ''/'' \<notin> set x)"
    using r \<open>b \<noteq> ''''\<close> \<open>sh \<noteq> ''''\<close> \<open>p \<noteq> ''''\<close> by (simp add: trimPrefix_Some)
next
  assume a: "uri = ''staffing://'' @ b @ ''/'' @ sh @ ''/'' @ p @ ''/gap''
     \<and> (\<forall>x \<in> {b, sh, p}. x \<noteq> '''' \<and> CHR ''/'' \<notin> set x)"
  have "trimPrefix uri ''staffing://'' = Some (b @ ''/'' @ sh @ ''/'' @ p @ ''/gap'')"
    using a by (simp add: trimPrefix_Some)
  moreover have "splitSlash (b @ ''/'' @ sh @ ''/'' @ p @ ''/gap'') = [b, sh, p, ''gap'']"
    using a splitSlash_join [of b "sh @ ''/'' @ p @ ''/gap''"] splitSlash_join [of sh "p @ ''/gap''"]
      splitSlash_join [of p "''gap''"] splitSlash_last [of "''gap''"] by simp
  ultimately show "parseStaffingURI uri = Inr (b, sh, p)" using a by (simp add: parseStaffingURI_def)
qed

theorem parseStaffingURI_exact_witness:
  "parseStaffingURI ''staffing://b1/s1/pack/gap'' = Inr (''b1'', ''s1'', ''pack'')"
  by (simp add: parseStaffingURI_exact)

section \<open>The reports service behind the client\<close>

text \<open>
  What the server makes of a query string (\<open>net/url\<close>): pairs split at \<open>&\<close> and \<open>=\<close>, both
  halves unescaped, pairs that do not decode dropped; \<open>Get\<close> is the first value of a key.
\<close>

fun QueryUnescape :: "string \<Rightarrow> string option" where
  "QueryUnescape [] = Some []"
| "QueryUnescape (c # cs) =
     (if c = CHR ''%'' then
        (case cs of x # y # cs' \<Rightarrow>
             (case (unhex x, unhex y) of
                (Some a, Some b) \<Rightarrow> map_option (\<lambda>r. char_of (16 * a + b) # r) (QueryUnescape cs')
              | _ \<Rightarrow> None)
         | _ \<Rightarrow> None)
      else if c = CHR ''+'' then map_option (\<lambda>r. CHR '' '' # r) (QueryUnescape cs)
      else map_option (\<lambda>r. c # r) (QueryUnescape cs))"

definition query_pair :: "string \<Rightarrow> (string \<times> string) option" where
  "query_pair s =
     (if s = '''' \<or> CHR '';'' \<in> set s then None
      else case (QueryUnescape (takeWhile (\<lambda>c. c \<noteq> CHR ''='') s),
                 QueryUnescape (drop 1 (dropWhile (\<lambda>c. c \<noteq> CHR ''='') s))) of
          (Some k, Some v) \<Rightarrow> Some (k, v)
        | _ \<Rightarrow> None)"

definition parse_query :: "string \<Rightarrow> (string \<times> string) list" where
  "parse_query q = List.map_filter query_pair (split_char (CHR ''&'') q)"

definition query_Get :: "(string \<times> string) list \<Rightarrow> string \<Rightarrow> string" where
  "query_Get kvs k = (case map_of kvs k of None \<Rightarrow> '''' | Some v \<Rightarrow> v)"

definition plain :: "char \<Rightarrow> bool" where
  "plain c \<longleftrightarrow> c \<noteq> CHR ''&'' \<and> c \<noteq> CHR ''='' \<and> c \<noteq> CHR '';''"

lemma unreserved_plain: "unreserved c \<Longrightarrow> plain c \<and> c \<noteq> CHR ''%'' \<and> c \<noteq> CHR ''+''"
  by (auto simp: unreserved_def plain_def)

lemma upperhex_unreserved: "n < 16 \<Longrightarrow> unreserved (upperhex n)"
proof -
  assume n: "n < 16"
  have "(of_char (upperhex n) :: nat) = (if n < 10 then 48 + n else 55 + n)" using n by (simp add: upperhex_def)
  then show ?thesis using n by (auto simp: unreserved_def Let_def)
qed

lemma QueryEscape_ok: "QueryUnescape (QueryEscape s) = Some s \<and> list_all plain (QueryEscape s)"
proof (induction s)
  case (Cons c s)
  have b: "(of_char c :: nat) div 16 < 16" "(of_char c :: nat) mod 16 < 16"
    using of_char_bound [of c] by (simp_all add: less_mult_imp_div_less)
  note p = upperhex_unreserved [OF b(1), THEN unreserved_plain] upperhex_unreserved [OF b(2), THEN unreserved_plain]
  show ?case
  proof (cases "unreserved c")
    case True
    then show ?thesis using Cons unreserved_plain [OF True] by simp
  next
    case False
    then show ?thesis using Cons p unhex_upperhex [OF b(1)] unhex_upperhex [OF b(2)] hex_char [of c]
      by (cases "c = CHR '' ''") (simp_all add: plain_def)
  qed
qed simp

lemma split_char_last: "sep \<notin> set s \<Longrightarrow> split_char sep s = [s]"
  by (induction s) auto

lemma split_char_join: "sep \<notin> set s \<Longrightarrow> split_char sep (s @ sep # t) = s # split_char sep t"
  by (induction s) auto

lemma plain_set: "list_all plain s \<Longrightarrow> CHR ''&'' \<notin> set s \<and> CHR ''='' \<notin> set s \<and> CHR '';'' \<notin> set s"
  by (induction s) (auto simp: plain_def)

lemma query_pair_encode: "query_pair (QueryEscape k @ ''='' @ QueryEscape v) = Some (k, v)"
proof -
  have "CHR ''='' \<notin> set (QueryEscape k)" "CHR '';'' \<notin> set (QueryEscape k)" "CHR '';'' \<notin> set (QueryEscape v)"
    using QueryEscape_ok plain_set by blast+
  moreover from this(1) have "takeWhile (\<lambda>c. c \<noteq> CHR ''='') (QueryEscape k @ ''='' @ QueryEscape v) = QueryEscape k"
    "dropWhile (\<lambda>c. c \<noteq> CHR ''='') (QueryEscape k @ ''='' @ QueryEscape v) = ''='' @ QueryEscape v"
    by (subst takeWhile_append2 dropWhile_append2; auto)+
  ultimately show ?thesis by (simp add: query_pair_def QueryEscape_ok)
qed

lemma parse_Encode: "parse_query (values_Encode kvs) = kvs"
proof -
  have n: "CHR ''&'' \<notin> set (QueryEscape k @ ''='' @ QueryEscape v)" for k v
    using QueryEscape_ok [of k] QueryEscape_ok [of v] plain_set by fastforce
  show ?thesis
  proof (induction kvs rule: values_Encode.induct)
    case 1
    show ?case by (simp add: parse_query_def query_pair_def List.map_filter_simps)
  next
    case (2 k v)
    show ?case using split_char_last [OF n [of k v]] query_pair_encode [of k v]
      by (simp add: parse_query_def List.map_filter_simps)
  next
    case (3 k v kv kvs)
    show ?case
      using split_char_join [OF n [of k v], of "values_Encode (kv # kvs)"] query_pair_encode [of k v] 3
      by (simp add: parse_query_def List.map_filter_simps)
  qed
qed

text \<open>
  The reports service at \<open>base\<close>, seen through the transport: the two report routes, the body of a
  request without one, and the body of a response as the client's decoder finds it.
\<close>

definition wire_response :: "http_response \<Rightarrow> HttpResponse" where
  "wire_response p = \<lparr>rs_StatusCode = hs_Status p, rs_Body = (case hs_Body p of
       JsonBody j \<Rightarrow> Inr j
     | Problem d \<Rightarrow> Inr (JObj [(''type'', JStr (pb_Type d)), (''title'', JStr (pb_Title d)), (''status'', JInt (pb_Status d))])
     | NoBody \<Rightarrow> Inl (Other ''EOF''))\<rparr>"

definition reports_request :: "string \<Rightarrow> string \<Rightarrow> http_request" where
  "reports_request path q = \<lparr>hq_URLParam = (\<lambda>_. ''''), hq_Body = Inl (Other ''EOF''),
     hq_Query = query_Get (parse_query q), hq_Path = path\<rparr>"

definition reports_doer :: "'s ReportStore \<Rightarrow> string \<Rightarrow> 's doer" where
  "reports_doer store base ctx rq s =
     (case trimPrefix (rq_URL rq) (base @ ''/reports/labor?'') of
        Some q \<Rightarrow> (case serve_reports store GET_labor (reports_request ''/reports/labor'' q) s of
            (p, s') \<Rightarrow> (Inr (wire_response p), s'))
      | None \<Rightarrow>
          if rq_URL rq = base @ ''/reports/labor/freshness''
          then (case serve_reports store GET_freshness (reports_request ''/reports/labor/freshness'' '''') s of
              (p, s') \<Rightarrow> (Inr (wire_response p), s'))
          else (Inr \<lparr>rs_StatusCode = 404, rs_Body = Inl (Other ''404 page not found'')\<rparr>, s))"

definition row_view :: "Row \<Rightarrow> LaborRowView" where
  "row_view r = \<lparr>lv_PathId = rk_PathId (rw_Key r), lv_HourBucket = Format_RFC3339 (rk_HourBucket (rw_Key r)),
     lv_ShiftsStarted = rw_ShiftsStarted r, lv_ShiftsEnded = rw_ShiftsEnded r, lv_Breaks = rw_Breaks r,
     lv_AvgBreakSeconds = rw_AvgBreakSeconds r, lv_Certifications = rw_Certifications r,
     lv_LaborAssigned = rw_LaborAssigned r, lv_LaborReassigned = rw_LaborReassigned r,
     lv_UnderstaffingEvents = rw_UnderstaffingEvents r\<rparr>"

definition int64 :: "int \<Rightarrow> bool" where
  "int64 n \<longleftrightarrow> - (2 ^ 63) \<le> n \<and> n < 2 ^ 63"

text \<open>A row whose counters are Go ints and whose average is a number.\<close>

definition report_row_ok :: "Row \<Rightarrow> bool" where
  "report_row_ok r \<longleftrightarrow> list_all int64 [rw_ShiftsStarted r, rw_ShiftsEnded r, rw_Breaks r, rw_Certifications r,
     rw_LaborAssigned r, rw_LaborReassigned r, rw_UnderstaffingEvents r] \<and> (\<exists>q. rw_AvgBreakSeconds r = Fin q)"

lemma row_folds:
  "foldName ''hourBucket'' = ''HOURBUCKET''" "foldName ''shiftsStarted'' = ''SHIFTSSTARTED''"
  "foldName ''shiftsEnded'' = ''SHIFTSENDED''" "foldName ''breaks'' = ''BREAKS''"
  "foldName ''avgBreakSeconds'' = ''AVGBREAKSECONDS''" "foldName ''certifications'' = ''CERTIFICATIONS''"
  "foldName ''laborAssigned'' = ''LABORASSIGNED''" "foldName ''laborReassigned'' = ''LABORREASSIGNED''"
  "foldName ''understaffingEvents'' = ''UNDERSTAFFINGEVENTS''" "foldName ''rows'' = ''ROWS''"
  "foldName ''lagSeconds'' = ''LAGSECONDS''"
  by code_simp+

lemma decode_row: "report_row_ok r \<Longrightarrow> decode_LaborRowView (laborRowDTO r) v = Inr (row_view r)"
  by (auto simp: report_row_ok_def int64_def decode_LaborRowView_def laborRowDTO_def dec_object_def dec_field_def
      field_values_def row_folds demo_folds(4) row_view_def simp del: foldName.simps)

lemma decode_rows: "list_all report_row_ok rep \<Longrightarrow> dec_each z decode_LaborRowView (map laborRowDTO rep) = Inr (map row_view rep)"
  by (induction rep) (simp_all add: decode_row)

lemma decode_report: "list_all report_row_ok rep \<Longrightarrow> decode_LaborReportView (laborReportDTO rep) = Inr (map row_view rep)"
  by (simp add: decode_LaborReportView_def laborReportDTO_def dec_object_def dec_field_def field_values_def row_folds
      decode_rows del: foldName.simps)

lemma marshalable_report: "list_all report_row_ok rep \<Longrightarrow> marshalable (laborReportDTO rep)"
  by (induction rep) (auto simp: laborReportDTO_def laborRowDTO_def report_row_ok_def)

lemma labor_values_Get:
  "query_Get (labor_values q) ''from'' = lq_From q" "query_Get (labor_values q) ''to'' = lq_To q"
  "query_Get (labor_values q) ''pathId'' = lq_PathId q" "query_Get (labor_values q) ''granularity'' = lq_Granularity q"
  by (auto simp: query_Get_def labor_values_def)

lemma reports_doer_labor:
  "reports_doer store base ctx \<lparr>rq_URL = base @ ''/reports/labor?'' @ values_Encode (labor_values q), rq_Accept = ''''\<rparr> s
   = (case GetLabor store (reports_request ''/reports/labor'' (values_Encode (labor_values q))) s of
        (p, s') \<Rightarrow> (Inr (wire_response p), s'))"
proof -
  have "trimPrefix (base @ ''/reports/labor?'' @ values_Encode (labor_values q)) (base @ ''/reports/labor?'')
      = Some (values_Encode (labor_values q))" by (simp add: trimPrefix_Some)
  then show ?thesis by (simp add: reports_doer_def)
qed

text \<open>
  C36: the report tool shows the read model as it is. Called with a window the reports service
  accepts, over its REST client and the service behind it, the tool answers exactly the rows of
  the store's report for that window and path, in order: neither the query string nor the JSON
  in between loses or changes anything, whatever characters the path holds.
\<close>

theorem report_tool_end_to_end:
  assumes "Parse_RFC3339 (lq_From q) = Some f" "Parse_RFC3339 (lq_To q) = Some t"
    and "lq_From q \<noteq> ''''" "lq_To q \<noteq> ''''" "lq_Granularity q \<in> {'''', ''hour''}"
    and "Query store \<lparr>rq_From = f, rq_To = t, rq_PathId = lq_PathId q, rq_Granularity = ''hour''\<rparr> s = (Inr rep, s')"
    and "list_all report_row_ok rep" "\<And>u. url_ok u = None"
  shows "getLaborReport (Some (rest_reports url_ok (NewReportsRESTClient d base (Some (reports_doer store base))) ctx)) q s
     = (Inr (map row_view rep), s')"
proof -
  let ?r = "reports_request ''/reports/labor'' (values_Encode (labor_values q))"
  have g: "hq_Query ?r k = query_Get (labor_values q) k" for k
    by (simp add: reports_request_def parse_Encode)
  have p: "parseRequiredTime ?r (lq_From q) n = Inr f" "parseRequiredTime ?r (lq_To q) n = Inr t" for n
    using assms(1-4) by (simp_all add: parseRequiredTime_Inr)
  have "GetLabor store ?r s = (writeJSON 200 None (laborReportDTO rep), s')"
    using assms(5,6) by (auto simp: GetLabor_def g labor_values_Get p Let_def)
  then have w: "reports_doer store base ctx
      \<lparr>rq_URL = base @ ''/reports/labor?'' @ values_Encode (labor_values q), rq_Accept = ''''\<rparr> s
      = (Inr \<lparr>rs_StatusCode = 200, rs_Body = Inr (laborReportDTO rep)\<rparr>, s')"
    unfolding reports_doer_labor using marshalable_report [OF assms(7)]
    by (simp add: wire_response_def writeJSON_def)
  have v: "decode_LaborReportView (laborReportDTO rep) = Inr (map row_view rep)" by (rule decode_report [OF assms(7)])
  show ?thesis
    using assms(3,4) w v
    by (simp add: getLaborReport_def rest_reports_def rest_GetLabor_def getJSON_def NewReportsRESTClient_def assms(8)
        ocatch_app del: append.simps)
qed

lemma Format_whole: "0 \<le> t \<Longrightarrow> t < 315537897600 * second_ns \<Longrightarrow> t mod second_ns = 0 \<Longrightarrow> Parse_RFC3339 (Format_RFC3339 t) = Some t"
  using Parse_Format [of t] by simp

definition tool_key :: RowKey where
  "tool_key = \<lparr>rk_PathId = ''pack & go'', rk_HourBucket = 3600000000000\<rparr>"

definition demo_store :: MemoryStore where
  "demo_store = NewMemoryStore\<lparr>mt_rows := [(tool_key, zero_acc\<lparr>ac_laborAssigned := 5\<rparr>)]\<rparr>"

definition tool_query :: LaborQuery where
  "tool_query = \<lparr>lq_From = Format_RFC3339 0, lq_To = Format_RFC3339 7200000000000, lq_PathId = ''pack & go'',
     lq_Granularity = ''''\<rparr>"

theorem report_tool_end_to_end_witness:
  "\<exists>v. getLaborReport (Some (rest_reports (\<lambda>_. None) (NewReportsRESTClient (\<lambda>_ _. ofail (Other ''''))
       ''http://reports'' (Some (reports_doer (memory_report id None 0) ''http://reports''))) None)) tool_query demo_store
     = (Inr [v], demo_store) \<and> lv_LaborAssigned v = 5 \<and> lv_PathId v = ''pack & go''"
proof -
  let ?row = "row_of_acc tool_key (zero_acc\<lparr>ac_laborAssigned := 5\<rparr>)"
  have q: "Query (memory_report id None 0) \<lparr>rq_From = 0, rq_To = 7200000000000, rq_PathId = lq_PathId tool_query,
      rq_Granularity = ''hour''\<rparr> demo_store = (Inr [?row], demo_store)"
    by (simp add: memory_report_def mt_Query_def demo_store_def tool_query_def tool_key_def)
  have r: "list_all report_row_ok [?row]"
    by (simp add: report_row_ok_def int64_def row_of_acc_def zero_acc_def)
  show ?thesis
    using report_tool_end_to_end [of tool_query 0 7200000000000 "memory_report id None 0" demo_store "[?row]" demo_store
        "\<lambda>_. None" "\<lambda>_ _. ofail (Other '''')" "''http://reports''" None] q r
    by (simp add: tool_query_def Format_whole Format_nonempty row_view_def row_of_acc_def tool_key_def)
qed

section \<open>An assignment over MCP\<close>

text \<open>An associate with a path since the epoch and no hours logged.\<close>

definition demo_working_db :: db where
  "demo_working_db = demo_db\<lparr>t_asg := [(''a'', asg_row_of (RehydrateAssignment ''a''
     (Some \<lparr>iv_PathId = ''pack'', iv_Start = 0, iv_End = None\<rparr>) [] 1) 1)]\<rparr>"

lemma demo_flround: "flround 1 = Fin 1" "flround 2 = Fin 2" "flround 3 = Fin 3"
  using f64_of_int_small [of 1] f64_of_int_small [of 2] f64_of_int_small [of 3] by (simp_all add: f64_of_int_def)

lemma demo_hours: "Hours (time_Sub 3600000000000 0) = Fin 1" "Hours (time_Sub 7200000000000 0) = Fin 2"
  by (simp_all add: Hours_def time_Sub_def go_quot_def go_rem_def f64_of_int_small demo_flround)

lemma mcp_pg_sel [simp]:
  "FindByID (mcp_ports P) = FindByID P" "SaveAssociate (mcp_ports P) = SaveAssociate P"
  "FindByAssociateID (mcp_ports P) = FindByAssociateID P" "SaveAssignment (mcp_ports P) = SaveAssignment P"
  "Now (mcp_ports P) = Now P" "UnitOfWork (mcp_ports P) = None" "Publish (mcp_ports P) es = oret ()"
  by (simp_all add: mcp_ports_def)

lemma prepare_mcp [simp]: "assign_prepare (mcp_ports P) = assign_prepare P"
  by (simp add: fun_eq_iff assign_prepare_def find_or_new_assignment_def onow_def)

text \<open>What precedes the saves reads the tables and then the clock.\<close>

lemma clock_query: "pg_query q s = (r, s') \<Longrightarrow> pg_Now s' = (fst (pg_Now s), s'\<lparr>pg_clock := tl (pg_clock s)\<rparr>) \<and> pg_clock s' = pg_clock s"
  by (auto simp: pg_query_def pg_stmt_def pg_fault_def pg_Now_def split: option.splits list.splits sum.splits if_splits)

lemma clock_reads:
  assumes "pg_FindByID i s = (Inr a, s1)" "find_or_new_assignment (pg_ports k trace ord) i s1 = (Inr l, s2)"
  shows "pg_clock s2 = pg_clock s"
proof -
  have "pg_clock s1 = pg_clock s"
    using assms(1) by (auto simp: pg_FindByID_def elim!: obind_InrE dest!: clock_query split: option.splits)
  moreover have "pg_clock x' = pg_clock x" if "pg_FindByAssociateID i x = (r, x')" for r x x'
    using that by (auto simp: pg_FindByAssociateID_def elim!: obind_cases dest!: clock_query split: option.splits)
  ultimately show ?thesis using assms(2)
    by (fastforce simp: find_or_new_assignment_def ocatch_app split: prod.splits sum.splits if_splits)
qed

lemma keeps_prepare: "pg_keeps Q (assign_prepare (pg_ports k trace ord) mx i p)"
  by (auto simp: assign_prepare_def find_or_new_assignment_def Let_def
      intro!: pg_keeps_intros keeps_reads keeps_now split: sum.splits)

lemma pg_prepare:
  assumes "\<And>rs. mset (ord rs) = mset rs" "pg_inv s"
    and "assign_prepare (pg_ports k trace ord) mx i p s = (Inr (l', ch), s')"
  shows "cur s' = cur s \<and> pg_inv s' \<and> (\<exists>a l. v_assoc (pg_view ord s) i = Some a \<and> as_associateId a = i
    \<and> l = (case v_asg (pg_view ord s) i of Some l0 \<Rightarrow> l0 | None \<Rightarrow> NewLaborAssignment i) \<and> la_associateId l = i
    \<and> Assign l p (HasCertification a p) (fst (pg_Now s)) = Inr l'
    \<and> log_closed mx a (length (la_history l)) l' (fst (pg_Now s)) = Inr ch)"
proof -
  note W = pg_workforce [OF assms(1), of k trace]
  from assms(3) obtain a s1 l s2 where *: "pg_FindByID i s = (Inr a, s1)"
    "find_or_new_assignment (pg_ports k trace ord) i s1 = (Inr l, s2)"
    "Assign l p (HasCertification a p) (fst (pg_Now s2)) = Inr l'"
    "log_closed mx a (length (la_history l)) l' (fst (pg_Now s2)) = Inr ch"
    by (auto simp: assign_prepare_def Let_def onow_def elim!: obind_InrE split: prod.splits)
  have "fst (pg_Now s2) = fst (pg_Now s)"
    using clock_reads [OF *(1,2)] by (simp add: pg_Now_def split: list.splits)
  moreover have "cur s1 = cur s" "pg_inv s1"
    using reads_cur [OF keeps_reads(1) *(1)] keeps_inv [OF keeps_reads(1) *(1) assms(2)] by auto
  moreover have "v_assoc (pg_view ord s) i = Some a" "as_associateId a = i"
    using pg_associates.find_a_Inr [OF *(1) pg_inv_body [OF assms(2)]] by auto
  moreover note workforce.find_or_new_assignment_Inr [OF W *(2) \<open>pg_inv s1\<close>]
  moreover have "cur s' = cur s" "pg_inv s'"
    using reads_cur [OF keeps_prepare assms(3)] keeps_inv [OF keeps_prepare assms(3,2)] by auto
  ultimately show ?thesis using * by (auto simp: pg_view_def)
qed

lemma closing_hours:
  assumes "Assign l p h t = Inr l'" "log_closed mx a (length (la_history l)) l' t = Inr ch"
  shows "ch = (case la_active l of None \<Rightarrow> None
    | Some iv \<Rightarrow> Some (a\<lparr>as_hoursLogged := fadd (as_hoursLogged a) (Hours (time_Sub t (iv_Start iv)))\<rparr>))"
  using assms by (auto simp: log_closed_def domain_simps interval_Hours_def map_sum_def split: if_splits option.splits sum.splits)

lemma Save_assoc_Inl: "pg_Save_assoc a s = (Inl e, s') \<Longrightarrow> cur s' = cur s"
  by (auto simp: pg_Save_assoc_def upsert_assoc_def elim!: obind_cases dest!: pg_stmt_cases split: if_splits option.splits)

lemma Save_asg_Inl: "pg_Save_asg l s = (Inl e, s') \<Longrightarrow> pg_tx s = None \<Longrightarrow> cur s' = cur s"
  unfolding pg_Save_asg_def
  by (drule beginOrJoin_own [where Q = "\<lambda>_. True"])
    (auto simp: cur_def intro!: pg_keeps_intros pg_keeps_stmt pg_keeps_each)

text \<open>A call that fails although something has changed: the shift was saved, the assignment was not.\<close>

lemma mcp_half:
  assumes "mcp_assignLabor (mcp_deps (pg_ports k trace ord) mx plat base client) i p s = (Inl e, s')" "pg_inv s"
    and "cur s' \<noteq> cur s"
  shows "\<exists>l' a s1 s2. assign_prepare (pg_ports k trace ord) mx i p s = (Inr (l', Some a), s1)
    \<and> pg_Save_assoc a s1 = (Inr (), s2) \<and> cur s' = cur s2"
proof -
  let ?p = "assign_prepare (pg_ports k trace ord) mx i p"
  obtain q s1 where q: "?p s = (q, s1)" by fastforce
  have c: "cur s1 = cur s" "pg_tx s1 = None"
    using reads_cur [OF keeps_prepare q] keeps_inv [OF keeps_prepare q assms(2)] by (auto simp: pg_inv_def)
  have run: "AssignLabor_Execute (mcp_ports (pg_ports k trace ord)) mx i p s = (Inl e, s')"
    using assms(1,3) by (auto simp: mcp_assignLabor_def mcp_deps_def Let_def elim!: obind_cases split: if_splits)
  obtain l' ch where q': "q = Inr (l', ch)" using run q c(1) assms(3) by (cases q) (auto simp: AssignLabor_Execute_def obind_def)
  have body: "assign_body (mcp_ports (pg_ports k trace ord)) ch l' s1 = (Inl e, s')"
    using run q q' by (auto simp: AssignLabor_Execute_def atomically_def obind_def split: prod.splits sum.splits)
  show ?thesis
  proof (cases ch)
    case None
    then have "pg_Save_asg l' s1 = (Inl e, s')" using body by (auto simp: assign_body_def elim!: obind_cases)
    then show ?thesis using Save_asg_Inl c assms(3) by metis
  next
    case (Some a)
    obtain u s2 where u: "pg_Save_assoc a s1 = (u, s2)" by fastforce
    show ?thesis
    proof (cases u)
      case (Inl x)
      then have "s' = s2" using body Some u by (auto simp: assign_body_def obind_def)
      then show ?thesis using Save_assoc_Inl u Inl c(1) assms(3) by metis
    next
      case [simp]: (Inr x)
      have "pg_Save_asg l' s2 = (Inl e, s')" using body Some u by (auto simp: assign_body_def elim!: obind_cases)
      moreover have "pg_tx s2 = None" using pg_keepsD [OF keeps_Save_assoc u] c(2) by (simp add: same_conn_def)
      ultimately have "cur s' = cur s2" by (rule Save_asg_Inl)
      then show ?thesis using q q' Some u by (intro exI [of _ l'] exI [of _ a] exI [of _ s1] exI [of _ s2]) simp
    qed
  qed
qed

lemma mcp_done:
  assumes "mcp_assignLabor (mcp_deps (pg_ports k trace ord) mx plat base client) i p s = (Inr v, s')"
  shows "\<exists>l' ch s1 s2. assign_prepare (pg_ports k trace ord) mx i p s = (Inr (l', ch), s1) \<and> pg_Save_asg l' s2 = (Inr (), s')
    \<and> (case ch of None \<Rightarrow> s2 = s1 | Some a \<Rightarrow> pg_Save_assoc a s1 = (Inr (), s2))"
  using assms
  by (fastforce simp: mcp_assignLabor_def mcp_deps_def Let_def AssignLabor_Execute_def atomically_def assign_body_def
      elim!: obind_InrE split: if_splits option.splits)

text \<open>
  C39: an assignment over MCP is not all or nothing. Its two saves run in no unit of work. Whenever a call answers an
  error although it has changed a record, what it changed is this: the hours of the associate's open interval, up
  to the clock's reading of that call, stand on the shift, while the interval is still open. When the call is
  then repeated with nothing stored in between and succeeds, the hours since that interval's start are on the shift twice, once
  for each reading of the clock. No event of either call reaches the outbox.
\<close>

theorem mcp_assign_not_atomic:
  fixes k trace ord mx plat base client
  defines "D \<equiv> mcp_deps (pg_ports k trace ord) mx plat base client"
  assumes "\<And>rs. mset (ord rs) = mset rs" "pg_inv s" "pg_inv s'"
    and "mcp_assignLabor D i p s = (Inl e, s1)" "pg_view ord s1 \<noteq> pg_view ord s"
    and "pg_view ord s' = pg_view ord s1" "mcp_assignLabor D i p s' = (Inr v, s2)"
  shows "\<exists>a l iv b c. v_assoc (pg_view ord s) i = Some a \<and> v_asg (pg_view ord s) i = Some l \<and> la_active l = Some iv
    \<and> v_asg (pg_view ord s1) = v_asg (pg_view ord s) \<and> v_assoc (pg_view ord s1) i = Some b
    \<and> as_hoursLogged b = fadd (as_hoursLogged a) (Hours (time_Sub (fst (pg_Now s)) (iv_Start iv)))
    \<and> v_assoc (pg_view ord s2) i = Some c
    \<and> as_hoursLogged c = fadd (as_hoursLogged b) (Hours (time_Sub (fst (pg_Now s')) (iv_Start iv)))
    \<and> t_outbox (cur s1) = t_outbox (cur s) \<and> t_outbox (cur s2) = t_outbox (cur s')"
proof -
  have ne: "cur s1 \<noteq> cur s" using assms(6) by (auto simp: pg_view_def)
  obtain l' a1 x1 x2 where h: "assign_prepare (pg_ports k trace ord) mx i p s = (Inr (l', Some a1), x1)"
    "pg_Save_assoc a1 x1 = (Inr (), x2)" "cur s1 = cur x2"
    using mcp_half [OF assms(5) [unfolded D_def] assms(3) ne] by blast
  obtain a l where a: "cur x1 = cur s" "v_assoc (pg_view ord s) i = Some a" "as_associateId a = i"
    "l = (case v_asg (pg_view ord s) i of Some l0 \<Rightarrow> l0 | None \<Rightarrow> NewLaborAssignment i)"
    "Assign l p (HasCertification a p) (fst (pg_Now s)) = Inr l'"
    "log_closed mx a (length (la_history l)) l' (fst (pg_Now s)) = Inr (Some a1)"
    using pg_prepare [OF assms(2,3) h(1)] by blast
  obtain iv where iv: "la_active l = Some iv"
    "a1 = a\<lparr>as_hoursLogged := fadd (as_hoursLogged a) (Hours (time_Sub (fst (pg_Now s)) (iv_Start iv)))\<rparr>"
    using closing_hours [OF a(5,6)] by (auto split: option.splits)
  have l: "v_asg (pg_view ord s) i = Some l" using a(4) iv(1) by (auto simp: NewLaborAssignment_def split: option.splits)
  obtain b where b: "stored_assoc a1 b" "pg_view ord x2 = (pg_view ord x1)\<lparr>v_assoc := (v_assoc (pg_view ord x1))(as_associateId a1 \<mapsto> b)\<rparr>"
    using pg_Save_assoc_view [OF h(2)] by blast
  have v1: "pg_view ord s1 = (pg_view ord s)\<lparr>v_assoc := (v_assoc (pg_view ord s))(i \<mapsto> b)\<rparr>"
    using b(2) a(1,3) h(3) iv(2) by (simp add: pg_view_def)
  have o1: "t_outbox (cur s1) = t_outbox (cur s)" using pg_keepsD [OF keeps_outbox(1) h(2)] a(1) h(3) by simp
  obtain m' ch y1 y2 where r: "assign_prepare (pg_ports k trace ord) mx i p s' = (Inr (m', ch), y1)" "pg_Save_asg m' y2 = (Inr (), s2)"
    "case ch of None \<Rightarrow> y2 = y1 | Some a \<Rightarrow> pg_Save_assoc a y1 = (Inr (), y2)"
    using mcp_done [OF assms(8) [unfolded D_def]] by blast
  have v': "v_assoc (pg_view ord s') i = Some b" "v_asg (pg_view ord s') i = Some l" using v1 l assms(7) by simp_all
  have c: "cur y1 = cur s'" "as_associateId b = i"
    "Assign l p (HasCertification b p) (fst (pg_Now s')) = Inr m'"
    "log_closed mx b (length (la_history l)) m' (fst (pg_Now s')) = Inr ch"
    using pg_prepare [OF assms(2,4) r(1)] v' by auto
  define b1 where "b1 = b\<lparr>as_hoursLogged := fadd (as_hoursLogged b) (Hours (time_Sub (fst (pg_Now s')) (iv_Start iv)))\<rparr>"
  have "ch = Some b1" using closing_hours [OF c(3,4)] iv(1) by (simp add: b1_def)
  then have s: "pg_Save_assoc b1 y1 = (Inr (), y2)" using r(3) by simp
  obtain d where d: "stored_assoc b1 d" "v_assoc (pg_view ord y2) i = Some d"
    using pg_Save_assoc_view [OF s, of ord] c(2) by (auto simp: b1_def)
  have v2: "v_assoc (pg_view ord s2) i = Some d" using pg_Save_asg_view [OF r(2), of ord] d(2) by auto
  have o2: "t_outbox (cur s2) = t_outbox (cur s')"
    using pg_keepsD [OF keeps_outbox(1) s] pg_keepsD [OF keeps_outbox(2) r(2)] c(1) by simp
  show ?thesis
    using a(2) l iv v1 v2 b(1) d(1) o1 o2
    by (intro exI [of _ a] exI [of _ l] exI [of _ iv] exI [of _ b] exI [of _ d]) (auto simp: stored_assoc_def b1_def)
qed

definition no_reports :: "string \<Rightarrow> pg ReportsClient" where
  "no_reports base = \<lparr>rc_GetLabor = (\<lambda>_. ofail (Other ''no route to host'')), rc_GetFreshness = ofail (Other ''no route to host'')\<rparr>"

lemma demo_half:
  "\<exists>e s1 v s2. mcp_assignLabor (mcp_deps demo_ports (Fin 8) (\<lambda>_. 0) '''' no_reports) ''a'' ''pack''
       (demo_pg [None, None, None, None, Some ''connection reset''] [3600000000000, 7200000000000] demo_working_db) = (Inl e, s1)
     \<and> mcp_assignLabor (mcp_deps demo_ports (Fin 8) (\<lambda>_. 0) '''' no_reports) ''a'' ''pack'' s1 = (Inr v, s2)
     \<and> fst (pg_Now s1) = 7200000000000 \<and> pg_inv s1 \<and> v_assoc (pg_view (\<lambda>rs. rs) s1) ''a''
       \<noteq> v_assoc (pg_view (\<lambda>rs. rs) (demo_pg [None, None, None, None, Some ''connection reset''] [3600000000000, 7200000000000] demo_working_db)) ''a''"
  by (simp add: mcp_assignLabor_def mcp_deps_def demo_eval demo_working_db_def demo_db_def demo_shift_def
      domain_simps interval_Hours_def demo_hours demo_flround trunc_us_def pg_view_def db_view_def cur_def pg_inv_def db_inv_def
      gwf_def row_ok_def)

lemma demo_hours_sum: "fadd (fadd (Fin 0) (Fin 1)) (Fin 2) = Fin 3"
  by (simp add: demo_flround)

theorem mcp_assign_not_atomic_witness:
  "\<exists>e s1 v s2 c. mcp_assignLabor (mcp_deps demo_ports (Fin 8) (\<lambda>_. 0) '''' no_reports) ''a'' ''pack''
       (demo_pg [None, None, None, None, Some ''connection reset''] [3600000000000, 7200000000000] demo_working_db) = (Inl e, s1)
     \<and> mcp_assignLabor (mcp_deps demo_ports (Fin 8) (\<lambda>_. 0) '''' no_reports) ''a'' ''pack'' s1 = (Inr v, s2)
     \<and> v_assoc (pg_view (\<lambda>rs. rs) s2) ''a'' = Some c \<and> as_hoursLogged c = Fin 3"
proof -
  let ?s = "demo_pg [None, None, None, None, Some ''connection reset''] [3600000000000, 7200000000000] demo_working_db"
  obtain e s1 v s2 where run: "mcp_assignLabor (mcp_deps demo_ports (Fin 8) (\<lambda>_. 0) '''' no_reports) ''a'' ''pack'' ?s = (Inl e, s1)"
    "mcp_assignLabor (mcp_deps demo_ports (Fin 8) (\<lambda>_. 0) '''' no_reports) ''a'' ''pack'' s1 = (Inr v, s2)"
    "fst (pg_Now s1) = 7200000000000" "pg_inv s1" "v_assoc (pg_view (\<lambda>rs. rs) s1) ''a'' \<noteq> v_assoc (pg_view (\<lambda>rs. rs) ?s) ''a''"
    using demo_half by blast
  have inv: "pg_inv ?s" and now: "fst (pg_Now ?s) = 3600000000000"
    by (simp_all add: demo_pg_def demo_working_db_def demo_db_def empty_db_def pg_inv_def db_inv_def gwf_def row_ok_def
        asg_row_of_def domain_simps pg_Now_def)
  have ne: "pg_view (\<lambda>rs. rs) s1 \<noteq> pg_view (\<lambda>rs. rs) ?s" using run(5) by auto
  have v: "\<exists>a l. v_assoc (pg_view (\<lambda>rs. rs) ?s) ''a'' = Some a \<and> as_hoursLogged a = Fin 0
      \<and> v_asg (pg_view (\<lambda>rs. rs) ?s) ''a'' = Some l \<and> map_option iv_Start (la_active l) = Some 0"
    by (simp add: pg_view_def db_view_def cur_def active_of_def demo_pg_def demo_working_db_def demo_db_def empty_db_def demo_shift_def
        assoc_row_of_def asg_row_of_def trunc_us_def domain_simps)
  obtain a l iv and b :: AssociateShift and c where c: "v_assoc (pg_view (\<lambda>rs. rs) ?s) ''a'' = Some a" "v_asg (pg_view (\<lambda>rs. rs) ?s) ''a'' = Some l"
    "la_active l = Some iv" "v_assoc (pg_view (\<lambda>rs. rs) s2) ''a'' = Some c"
    and hb: "as_hoursLogged b = fadd (as_hoursLogged a) (Hours (time_Sub (fst (pg_Now ?s)) (iv_Start iv)))"
    and hc: "as_hoursLogged c = fadd (as_hoursLogged b) (Hours (time_Sub (fst (pg_Now s1)) (iv_Start iv)))"
    using mcp_assign_not_atomic [where ord = "\<lambda>rs. rs", OF refl inv run(4,1) ne refl run(2)] by blast
  have "as_hoursLogged a = Fin 0" "iv_Start iv = 0" using v c(1-3) by auto
  then have "as_hoursLogged c = Fin 3" unfolding hc hb now run(3) by (simp only: demo_hours demo_hours_sum)
  then show ?thesis using run(1,2) c(4) by blast
qed

end
