(* ===== verification/KafkaCatalog.thy ===== *)
theory KafkaCatalog
  imports Replay
begin

text \<open>
  \<open>adapters/outbound/kafkacatalog\<close>: the process-path catalogue kept by replaying
  process-path-management's topic, its readiness gate, and \<open>filecatalog\<close>, the YAML loader it
  replaced. The readiness target is the map \<open>cc_target\<close>; \<open>cc_closes\<close> counts the closings of
  the ready channel (a second one would panic). \<open>up\<close> and \<open>uni\<close> are the Unicode case tables,
  \<open>ord\<close> the order in which Go ranges over a map. The mutex makes each method one step.
\<close>

record pathData =
  pt_PathId :: string
  pt_MatchPrefix :: string
  pt_Direct :: bool
  pt_RequiredCapabilities :: "string list"
  pt_DestinationLocationRole :: string

definition decode_pathData :: "json \<Rightarrow> err + pathData" where
  "decode_pathData =
     dec_object \<lparr>pt_PathId = '''', pt_MatchPrefix = '''', pt_Direct = False, pt_RequiredCapabilities = [],
         pt_DestinationLocationRole = ''''\<rparr> (\<lambda>kvs.
     sbind (dec_field ''path_id'' dec_string kvs '''') (\<lambda>i.
     sbind (dec_field ''match_prefix'' dec_string kvs '''') (\<lambda>p.
     sbind (dec_field ''direct'' dec_bool kvs False) (\<lambda>d.
     sbind (dec_field ''required_capabilities'' (dec_slice '''' dec_string) kvs []) (\<lambda>cs.
     sbind (dec_field ''destination_location_role'' dec_string kvs '''') (\<lambda>r.
     Inr \<lparr>pt_PathId = i, pt_MatchPrefix = p, pt_Direct = d, pt_RequiredCapabilities = cs,
          pt_DestinationLocationRole = r\<rparr>))))))"

record cat_Consumer =
  cc_paths :: "(string, PathDefinition) gmap"
  cc_ready :: bool
  cc_closes :: nat
  cc_target :: targetOffsets

section \<open>Construction\<close>

definition cat_target_step ::
  "kafka_admin \<Rightarrow> string \<Rightarrow> string \<Rightarrow> int \<Rightarrow> targetOffsets \<Rightarrow> err + targetOffsets" where
  "cat_target_step a broker topic p out =
     (case ka_DialLeader a broker topic p of
        Inl e \<Rightarrow> Inl (Wrap (''kafkacatalog: dial leader for partition '' @ print_int p) e)
      | Inr _ \<Rightarrow>
          let offsets = ka_ReadOffsets a topic p; closeErr = ka_Close a topic p in
          (case offsets of
            Inl e \<Rightarrow> Inl (Wrap (''kafkacatalog: read offsets for partition '' @ print_int p) e)
          | Inr (firstOff, lastOff) \<Rightarrow>
              (case closeErr of
                 Inl e \<Rightarrow> Inl (Wrap (''kafkacatalog: close leader conn for partition '' @ print_int p) e)
               | Inr _ \<Rightarrow> Inr (if lastOff > firstOff then gput p lastOff out else out))))"

fun cat_target_loop ::
  "kafka_admin \<Rightarrow> string \<Rightarrow> string \<Rightarrow> int list \<Rightarrow> targetOffsets \<Rightarrow> err + targetOffsets" where
  "cat_target_loop a broker topic [] out = Inr out"
| "cat_target_loop a broker topic (p # ps) out =
     sbind (cat_target_step a broker topic p out) (cat_target_loop a broker topic ps)"

definition cat_newTargetOffsets :: "kafka_admin \<Rightarrow> string list \<Rightarrow> string \<Rightarrow> err + targetOffsets" where
  "cat_newTargetOffsets a brokers topic =
     (case brokers of
        [] \<Rightarrow> Inl (Other ''kafkacatalog: no brokers configured'')
      | b # _ \<Rightarrow>
          (case ka_Dial a b of
             Inl e \<Rightarrow> Inl (Wrap (''kafkacatalog: dial '' @ b) e)
           | Inr _ \<Rightarrow>
               (case ka_ReadPartitions a topic of
                  Inl e \<Rightarrow> Inl (Wrap (''kafkacatalog: read partitions for '' @ topic) e)
                | Inr ps \<Rightarrow> cat_target_loop a b topic ps [])))"

text \<open>The host is what \<open>os.Hostname\<close> answers, the last part the clock in nanoseconds.\<close>

definition cat_uniqueConsumerGroup :: "err + string \<Rightarrow> int \<Rightarrow> int \<Rightarrow> string" where
  "cat_uniqueConsumerGroup hostname pid nano =
     (let host = (case hostname of Inl _ \<Rightarrow> ''unknown-host'' | Inr h \<Rightarrow> if h = '''' then ''unknown-host'' else h)
      in ''workforce-management-process-path-catalogue-'' @ host @ ''-'' @ print_int pid @ ''-'' @ print_int nano)"

definition cat_readerConfig :: "string list \<Rightarrow> string \<Rightarrow> string \<Rightarrow> ReaderConfig" where
  "cat_readerConfig brokers topic grp =
     \<lparr>rd_Brokers = brokers, rd_Topic = topic, rd_GroupID = grp, rd_StartOffset = FirstOffset,
      rd_CommitInterval = second_ns\<rparr>"

definition cat_Topic :: string where
  "cat_Topic = ''warehouse.process-path-management.events''"

definition cat_markReady :: "cat_Consumer \<Rightarrow> cat_Consumer" where
  "cat_markReady c = (let alreadyReady = cc_ready c; c = c\<lparr>cc_ready := True\<rparr> in
     if \<not> alreadyReady then c\<lparr>cc_closes := cc_closes c + 1\<rparr> else c)"

definition cat_NewConsumerForTopic ::
  "kafka_admin \<Rightarrow> string \<Rightarrow> string list \<Rightarrow> string \<Rightarrow> err + ReaderConfig \<times> cat_Consumer" where
  "cat_NewConsumerForTopic a grp brokers topic =
     (if topic = '''' then Inl (Other ''kafkacatalog: topic must not be empty'')
      else case cat_newTargetOffsets a brokers topic of
          Inl e \<Rightarrow> Inl (Wrap ''kafkacatalog: determine readiness target'' e)
        | Inr target \<Rightarrow>
            let c = \<lparr>cc_paths = [], cc_ready = False, cc_closes = 0, cc_target = target\<rparr> in
            Inr (cat_readerConfig brokers topic grp, if length target = 0 then cat_markReady c else c))"

definition cat_NewConsumer :: "kafka_admin \<Rightarrow> string \<Rightarrow> string list \<Rightarrow> err + ReaderConfig \<times> cat_Consumer" where
  "cat_NewConsumer a grp brokers = cat_NewConsumerForTopic a grp brokers cat_Topic"

section \<open>Operations\<close>

definition cat_Ready :: "cat_Consumer \<Rightarrow> bool" where
  "cat_Ready c = cc_ready c"

text \<open>The answers \<open>WaitReady\<close> can give in a state; it blocks where there is none.\<close>

definition cat_WaitReady :: "err option \<Rightarrow> cat_Consumer \<Rightarrow> err option set" where
  "cat_WaitReady ctxErr c =
     (if cat_Ready c then {None}
      else (if cc_closes c > 0 then {None} else {}) \<union> (case ctxErr of Some e \<Rightarrow> {Some e} | None \<Rightarrow> {}))"

definition cat_Lookup ::
  "(string \<Rightarrow> string) \<Rightarrow> (PathDefinition list \<Rightarrow> PathDefinition list) \<Rightarrow> cat_Consumer \<Rightarrow> string \<Rightarrow> err + PathDefinition" where
  "cat_Lookup uni ord c i = Lookup uni (NewCatalogue (ord (map snd (cc_paths c)))) i"

definition cat_Ids :: "(string list \<Rightarrow> string list) \<Rightarrow> cat_Consumer \<Rightarrow> string list" where
  "cat_Ids ord c = ord (map fst (cc_paths c))"

definition cat_applyUpsert :: "(string \<Rightarrow> string) \<Rightarrow> pathData \<Rightarrow> cat_Consumer \<Rightarrow> cat_Consumer" where
  "cat_applyUpsert up data c = c\<lparr>cc_paths := gput (ToUpper up (pt_PathId data))
     \<lparr>pd_Id = pt_PathId data, pd_MatchPrefix = pt_MatchPrefix data,
      pd_RequiredCapabilities = pt_RequiredCapabilities data,
      pd_DestinationLocationRole = pt_DestinationLocationRole data\<rparr> (cc_paths c)\<rparr>"

definition cat_applyDeactivated :: "(string \<Rightarrow> string) \<Rightarrow> string \<Rightarrow> cat_Consumer \<Rightarrow> cat_Consumer" where
  "cat_applyDeactivated up i c = c\<lparr>cc_paths := gdelete (ToUpper up i) (cc_paths c)\<rparr>"

definition cat_handle :: "sdk \<Rightarrow> (string \<Rightarrow> string) \<Rightarrow> InMessage \<Rightarrow> (cat_Consumer, unit) op" where
  "cat_handle k up msg c =
     (case ce_Decode k (ms_Value msg) of
        Inl e \<Rightarrow> (Inl (Wrap ''kafkacatalog'' e), c)
      | Inr e \<Rightarrow>
          if ce_type e = TypeProcessPathCreated \<or> ce_type e = TypeProcessPathUpdated then
            (case decode_pathData (ce_data e) of
               Inl err \<Rightarrow> (Inl (Wrap (''kafkacatalog: decode '' @ ce_type e @ '' data'') err), c)
             | Inr data \<Rightarrow> (Inr (), cat_applyUpsert up data c))
          else if ce_type e = TypeProcessPathDeactivated then
            (case decode_pathData (ce_data e) of
               Inl err \<Rightarrow> (Inl (Wrap (''kafkacatalog: decode '' @ ce_type e @ '' data'') err), c)
             | Inr data \<Rightarrow> (Inr (), cat_applyDeactivated up (pt_PathId data) c))
          else (Inr (), c))"

definition cat_checkReady :: "InMessage \<Rightarrow> cat_Consumer \<Rightarrow> cat_Consumer" where
  "cat_checkReady msg c =
     (case map_of (cc_target c) (ms_Partition msg) of
        None \<Rightarrow> c
      | Some target \<Rightarrow>
          if cc_ready c then c
          else if ms_Offset msg + 1 < target then c
          else let c = c\<lparr>cc_target := gdelete (ms_Partition msg) (cc_target c)\<rparr> in
               if length (cc_target c) = 0 then cat_markReady c else c)"

text \<open>
  One turn of the loop, as the states it goes through: both calls work under the consumer's lock, so a
  goroutine that asks \<open>Ready\<close> or \<open>Lookup\<close> meanwhile sees one of them. Then the loop over what \<open>ReadMessage\<close>
  answers; None: still reading.
\<close>

definition cat_turn :: "sdk \<Rightarrow> (string \<Rightarrow> string) \<Rightarrow> InMessage \<Rightarrow> cat_Consumer \<Rightarrow> cat_Consumer list" where
  "cat_turn k up msg c = (let handled = snd (cat_handle k up msg c) in [handled, cat_checkReady msg handled])"

definition cat_step :: "sdk \<Rightarrow> (string \<Rightarrow> string) \<Rightarrow> InMessage \<Rightarrow> cat_Consumer \<Rightarrow> cat_Consumer" where
  "cat_step k up msg c = List.last (cat_turn k up msg c)"

lemma cat_step_eq: "cat_step k up msg c = cat_checkReady msg (snd (cat_handle k up msg c))"
  by (simp add: cat_step_def cat_turn_def Let_def)

fun cat_Run ::
  "sdk \<Rightarrow> (string \<Rightarrow> string) \<Rightarrow> kread list \<Rightarrow> cat_Consumer \<Rightarrow> err option option \<times> cat_Consumer" where
  "cat_Run k up [] c = (None, c)"
| "cat_Run k up (ReadErr e ctxDone # _) c = (Some (if ctxDone then None else Some e), c)"
| "cat_Run k up (ReadMsg msg # rs) c = cat_Run k up rs (cat_step k up msg c)"

text \<open>Every state of the consumer another goroutine can see while these messages are read.\<close>

fun cat_observed :: "sdk \<Rightarrow> (string \<Rightarrow> string) \<Rightarrow> InMessage list \<Rightarrow> cat_Consumer \<Rightarrow> cat_Consumer list" where
  "cat_observed k up [] c = [c]"
| "cat_observed k up (msg # ms) c = c # cat_turn k up msg c @ cat_observed k up ms (cat_step k up msg c)"

section \<open>\<open>filecatalog.Load\<close>\<close>

record pathDocument =
  yd_Id :: string
  yd_MatchPrefix :: string
  yd_Direct :: bool
  yd_RequiredCapabilities :: "string list"

fun load_paths :: "string \<Rightarrow> int \<Rightarrow> pathDocument list \<Rightarrow> err + PathDefinition list" where
  "load_paths path i [] = Inr []"
| "load_paths path i (p # ps) =
     (if yd_Id p = '''' then Inl (Other (''filecatalog: '' @ path @ '': path at index '' @ print_int i @ '' has an empty id''))
      else if yd_MatchPrefix p = '''' then Inl (Other (''filecatalog: '' @ path @ '': path '' @ yd_Id p @ '' has an empty matchPrefix''))
      else if length (yd_RequiredCapabilities p) = 0
        then Inl (Other (''filecatalog: '' @ path @ '': path '' @ yd_Id p @ '' declares zero requiredCapabilities''))
      else map_sum id (\<lambda>defs. \<lparr>pd_Id = yd_Id p, pd_MatchPrefix = yd_MatchPrefix p,
             pd_RequiredCapabilities = yd_RequiredCapabilities p, pd_DestinationLocationRole = ''''\<rparr> # defs)
           (load_paths path (i + 1) ps))"

text \<open>\<open>readFile\<close> and the YAML decoder are parameters.\<close>

definition filecatalog_Load ::
  "(string \<Rightarrow> err + string) \<Rightarrow> (string \<Rightarrow> err + pathDocument list) \<Rightarrow> string \<Rightarrow> err + Catalogue" where
  "filecatalog_Load readFile yaml path =
     (case readFile path of
        Inl e \<Rightarrow> Inl (Wrap (''filecatalog: read '' @ path) e)
      | Inr raw \<Rightarrow>
          (case yaml raw of
             Inl e \<Rightarrow> Inl (Wrap (''filecatalog: parse '' @ path) e)
           | Inr paths \<Rightarrow>
               if length paths = 0 then Inl (Other (''filecatalog: '' @ path @ '' declares zero paths''))
               else map_sum id NewCatalogue (load_paths path 0 paths)))"

section \<open>The readiness gate\<close>

lemma cat_handle_gate:
  "cat_handle k up m c = (r, c') \<Longrightarrow>
     cc_ready c' = cc_ready c \<and> cc_closes c' = cc_closes c \<and> cc_target c' = cc_target c"
  by (auto simp: cat_handle_def cat_applyUpsert_def cat_applyDeactivated_def split: sum.splits if_splits)

lemma cat_checkReady_paths [simp]: "cc_paths (cat_checkReady m c) = cc_paths c"
  by (simp add: cat_checkReady_def cat_markReady_def Let_def split: option.split)

interpretation catg: replay_gate cc_ready cc_closes cc_target "cat_step k up" for k up
proof
  fix c m
  obtain r c1 where h: "cat_handle k up m c = (r, c1)" by fastforce
  note g = cat_handle_gate [OF h]
  show "cc_ready (cat_step k up m c) = cc_ready c \<and> cc_closes (cat_step k up m c) = cc_closes c
      \<and> cc_target (cat_step k up m c) = cc_target c"
    if "cc_ready c \<or> (\<forall>t. map_of (cc_target c) (ms_Partition m) = Some t \<longrightarrow> \<not> reaches (ms_Partition m) t m)"
    using that g by (auto simp: cat_step_eq h cat_checkReady_def reaches_def split: option.split)
  show "cc_target (cat_step k up m c) = gdelete (ms_Partition m) (cc_target c)
      \<and> cc_ready (cat_step k up m c) = (gdelete (ms_Partition m) (cc_target c) = [])
      \<and> cc_closes (cat_step k up m c) = cc_closes c + (if cc_ready (cat_step k up m c) then 1 else 0)"
    if "\<not> cc_ready c" "map_of (cc_target c) (ms_Partition m) = Some t" "reaches (ms_Partition m) t m" for t
    using that g by (simp add: cat_step_eq h cat_checkReady_def reaches_def cat_markReady_def Let_def)
qed

interpretation cats: offset_scan cat_target_step cat_target_loop cat_newTargetOffsets
proof
  fix a b t p out out'
  assume s: "cat_target_step a b t p out = Inr out'"
  then obtain x where x: "ka_ReadOffsets a t p = Inr x"
    by (cases "ka_ReadOffsets a t p") (auto simp: cat_target_step_def Let_def split: sum.splits)
  show "\<exists>b. ka_ReadOffsets a t p = Inr b \<and> out' = (if fst b < snd b then gput p (snd b) out else out)"
    using s x by (intro exI [of _ x]) (auto simp: cat_target_step_def Let_def split: sum.splits prod.splits)
qed (auto simp: cat_newTargetOffsets_def split: list.splits sum.splits)

lemma cat_Run_msgs: "cat_Run k up (map ReadMsg ms) c = (None, fold (cat_step k up) ms c)"
  by (induction ms arbitrary: c) auto

lemma cat_New_gate:
  assumes "cat_NewConsumerForTopic a grp brokers topic = Inr (cfg, c)"
  shows "catg.gate_ok c \<and> cc_paths c = [] \<and> cat_newTargetOffsets a brokers topic = Inr (cc_target c)"
proof -
  obtain tgt where t: "cat_newTargetOffsets a brokers topic = Inr tgt"
    and c: "c = (let c = \<lparr>cc_paths = [], cc_ready = False, cc_closes = 0, cc_target = tgt\<rparr> in
      if length tgt = 0 then cat_markReady c else c)"
    using assms by (auto simp: cat_NewConsumerForTopic_def Let_def split: if_splits sum.splits)
  show ?thesis using cats.scan_target [OF t] t unfolding c
    by (auto simp: catg.gate_ok_def Let_def cat_markReady_def)
qed

lemma cat_New_target:
  assumes "cat_NewConsumerForTopic a grp brokers topic = Inr (cfg, c)" "ka_ReadPartitions a topic = Inr ps"
  shows "map_of (cc_target c) p = Some hi \<longleftrightarrow>
    p \<in> set ps \<and> (\<exists>lo. ka_ReadOffsets a topic p = Inr (lo, hi) \<and> lo < hi)"
  using cat_New_gate [OF assms(1)] cats.scan_target assms(2) by blast

section \<open>The catalogue is the latest definition of every path\<close>

text \<open>What a message says: the key it concerns, and the new definition, if any.\<close>

definition cat_change :: "sdk \<Rightarrow> (string \<Rightarrow> string) \<Rightarrow> InMessage \<Rightarrow> (string \<times> PathDefinition option) option" where
  "cat_change k up m = (case ce_Decode k (ms_Value m) of Inl _ \<Rightarrow> None | Inr e \<Rightarrow>
     (case decode_pathData (ce_data e) of Inl _ \<Rightarrow> None | Inr d \<Rightarrow>
        if ce_type e \<in> {TypeProcessPathCreated, TypeProcessPathUpdated}
        then Some (ToUpper up (pt_PathId d),
          Some \<lparr>pd_Id = pt_PathId d, pd_MatchPrefix = pt_MatchPrefix d,
                pd_RequiredCapabilities = pt_RequiredCapabilities d,
                pd_DestinationLocationRole = pt_DestinationLocationRole d\<rparr>)
        else if ce_type e = TypeProcessPathDeactivated then Some (ToUpper up (pt_PathId d), None)
        else None))"

definition changes :: "sdk \<Rightarrow> (string \<Rightarrow> string) \<Rightarrow> string \<Rightarrow> InMessage list \<Rightarrow> PathDefinition option list" where
  "changes k up key ms = map snd (filter (\<lambda>kd. fst kd = key) (List.map_filter (cat_change k up) ms))"

definition latest :: "PathDefinition option list \<Rightarrow> PathDefinition option" where
  "latest ds = (if ds = [] then None else List.last ds)"

lemma cat_handle_change:
  "cat_handle k up m c = (r, c') \<Longrightarrow> cc_paths c' = (case cat_change k up m of None \<Rightarrow> cc_paths c
     | Some (key, Some d) \<Rightarrow> gput key d (cc_paths c) | Some (key, None) \<Rightarrow> gdelete key (cc_paths c))"
  by (auto simp: cat_handle_def cat_change_def cat_applyUpsert_def cat_applyDeactivated_def consumed_types_distinct
      split: sum.splits if_splits)

lemma cat_step_paths:
  "cc_paths (cat_step k up m c) = (case cat_change k up m of None \<Rightarrow> cc_paths c
     | Some (key, Some d) \<Rightarrow> gput key d (cc_paths c) | Some (key, None) \<Rightarrow> gdelete key (cc_paths c))"
  using cat_handle_change [of k up m c "fst (cat_handle k up m c)" "snd (cat_handle k up m c)"]
  by (simp add: cat_step_eq)

lemma changes_Nil [simp]: "changes k up key [] = []"
  by (simp add: changes_def map_filter_simps)

lemma changes_snoc:
  "changes k up key (ms @ [m]) = changes k up key ms @
     (case cat_change k up m of None \<Rightarrow> [] | Some (key', d) \<Rightarrow> if key' = key then [d] else [])"
  by (auto simp: changes_def List.map_filter_def split: option.splits prod.splits)

lemma latest_snoc [simp]: "latest (ds @ [d]) = d"
  by (simp add: latest_def)

lemma cat_fold_gwf: "gwf (cc_paths c) \<Longrightarrow> gwf (cc_paths (fold (cat_step k up) ms c))"
  by (induction ms arbitrary: c) (auto simp: cat_step_paths split: option.splits)

lemma cat_fold_latest:
  "cc_paths c = [] \<Longrightarrow> map_of (cc_paths (fold (cat_step k up) ms c)) key = latest (changes k up key ms)"
proof (induction ms rule: rev_induct)
  case Nil
  then show ?case by (simp add: latest_def)
next
  case (snoc m ms)
  then show ?case by (auto simp: cat_step_paths changes_snoc split: option.splits prod.splits)
qed

lemma gmap_perm:
  assumes "gwf m" "gwf m'" "map_of m = map_of m'"
  shows "mset m = mset m'"
proof (rule set_eq_iff_mset_eq_distinct [THEN iffD1])
  show "distinct m" "distinct m'" using assms(1,2) by (auto simp: gwf_def distinct_map)
  show "set m = set m'"
    using assms by (metis gwf_def map_of_eq_Some_iff subsetI subset_antisym surj_pair)
qed

section \<open>Properties\<close>

text \<open>What an observed state holds: the messages handled so far, the last perhaps before its \<open>checkReady\<close>.\<close>

lemma observed_cases:
  "c \<in> set (cat_observed k up ms c0) \<Longrightarrow> \<exists>read rest. ms = read @ rest \<and>
     (c = fold (cat_step k up) read c0
      \<or> (\<exists>d m. read = d @ [m] \<and> c = snd (cat_handle k up m (fold (cat_step k up) d c0))))"
proof (induction ms arbitrary: c0)
  case (Cons x xs)
  consider "c = c0" | "c = snd (cat_handle k up x c0)" | "c = cat_step k up x c0" | "c \<in> set (cat_observed k up xs (cat_step k up x c0))"
    using Cons.prems by (auto simp: cat_turn_def cat_step_eq Let_def)
  then show ?case
  proof cases
    case 1
    show ?thesis unfolding 1 by (rule exI [of _ "[]"], rule exI [of _ "x # xs"]) simp
  next
    case 2
    show ?thesis unfolding 2 by (rule exI [of _ "[x]"], rule exI [of _ xs]) auto
  next
    case 3
    show ?thesis unfolding 3 by (rule exI [of _ "[x]"], rule exI [of _ xs]) simp
  next
    case 4
    from Cons.IH [OF 4] obtain read rest where ih: "xs = read @ rest"
      "c = fold (cat_step k up) read (cat_step k up x c0)
        \<or> (\<exists>d m. read = d @ [m] \<and> c = snd (cat_handle k up m (fold (cat_step k up) d (cat_step k up x c0))))" by blast
    show ?thesis
      by (rule exI [of _ "x # read"], rule exI [of _ rest]) (use ih in \<open>auto intro: exI [of _ "x # _"]\<close>)
  qed
qed simp

lemma handled_paths: "cc_paths (snd (cat_handle k up m c)) = cc_paths (cat_step k up m c)"
  by (simp add: cat_step_eq)

text \<open>Messages the topic held when the consumer was built.\<close>

definition held :: "kafka_admin \<Rightarrow> string \<Rightarrow> int list \<Rightarrow> InMessage \<Rightarrow> bool" where
  "held a topic ps m \<longleftrightarrow> ms_Partition m \<in> set ps
     \<and> (\<exists>lo hi. ka_ReadOffsets a topic (ms_Partition m) = Inr (lo, hi) \<and> lo \<le> ms_Offset m \<and> ms_Offset m < hi)"

text \<open>Brokers hand a partition's messages over in the log's order from the earliest offset on.\<close>

definition in_log_order :: "InMessage list \<Rightarrow> InMessage list \<Rightarrow> bool" where
  "in_log_order topic_log ms \<longleftrightarrow> set ms \<subseteq> set topic_log
     \<and> (\<forall>j < length ms. \<forall>n \<in> set topic_log. ms_Partition n = ms_Partition (ms ! j) \<and> ms_Offset n \<le> ms_Offset (ms ! j)
          \<longrightarrow> n \<in> set (take (Suc j) ms))"

lemma in_log_order_append: "in_log_order l (ms @ ms') \<Longrightarrow> in_log_order l ms"
  unfolding in_log_order_def
proof (intro conjI allI impI ballI)
  assume a: "set (ms @ ms') \<subseteq> set l \<and> (\<forall>j < length (ms @ ms'). \<forall>n \<in> set l. ms_Partition n = ms_Partition ((ms @ ms') ! j)
    \<and> ms_Offset n \<le> ms_Offset ((ms @ ms') ! j) \<longrightarrow> n \<in> set (take (Suc j) (ms @ ms')))"
  then show "set ms \<subseteq> set l" by simp
  fix j n
  assume j: "j < length ms" and n: "n \<in> set l" "ms_Partition n = ms_Partition (ms ! j) \<and> ms_Offset n \<le> ms_Offset (ms ! j)"
  have "n \<in> set (take (Suc j) (ms @ ms'))"
    by (rule a [THEN conjunct2, rule_format]) (use j n in \<open>simp_all add: nth_append\<close>)
  then show "n \<in> set (take (Suc j) ms)" using j by simp
qed

lemma ready_read:
  assumes "cat_NewConsumerForTopic a grp brokers topic = Inr (cfg, c0)" "ka_ReadPartitions a topic = Inr ps"
    and "cc_ready (fold (cat_step k up) d c0)" "in_log_order topic_log d" "m \<in> set topic_log" "held a topic ps m"
  shows "m \<in> set d"
proof -
  note n = cat_New_gate [OF assms(1)]
  obtain hi where hi: "map_of (cc_target c0) (ms_Partition m) = Some hi" "ms_Offset m < hi"
    using cat_New_target [OF assms(1,2)] assms(6) unfolding held_def by (metis order.strict_trans1)
  have "cc_ready c0 \<longleftrightarrow> cc_target c0 = []"
    using assms(1) by (auto simp: cat_NewConsumerForTopic_def Let_def cat_markReady_def split: if_splits sum.splits)
  then have g: "catg.gate_ok c0" "\<not> cc_ready c0" using n hi by auto
  have o: "n \<in> set d"
    if x: "x \<in> set d" and before: "n \<in> set topic_log" "ms_Partition n = ms_Partition x" "ms_Offset n \<le> ms_Offset x" for x n
  proof -
    obtain j where j: "j < length d" "d ! j = x" using x by (auto simp: in_set_conv_nth)
    have "n \<in> set (take (Suc j) d)"
      by (rule assms(4) [unfolded in_log_order_def, THEN conjunct2, rule_format]) (use before j in auto)
    then show ?thesis by (rule in_set_takeD)
  qed
  show ?thesis
    by (rule catg.ready_complete [OF g assms(3) _ o assms(5) hi]) (use assms(4) in \<open>auto simp: in_log_order_def\<close>)
qed

text \<open>
  C28: whoever sees the catalogue ready sees it complete. In every state another goroutine can observe, between the
  statements of a turn too, if \<open>Ready\<close> then all the messages its topic held when the consumer was
  built have been handled, and the catalogue's content is what they and those read since say.
\<close>

theorem cat_ready_complete:
  assumes "cat_NewConsumerForTopic a grp brokers topic = Inr (cfg, c0)" "ka_ReadPartitions a topic = Inr ps"
    and "in_log_order topic_log ms" "c \<in> set (cat_observed k up ms c0)" "cat_Ready c"
  shows "\<exists>read rest. ms = read @ rest \<and> (\<forall>m \<in> set topic_log. held a topic ps m \<longrightarrow> m \<in> set read)
    \<and> (\<forall>key. map_of (cc_paths c) key = latest (changes k up key read))"
proof -
  obtain read rest where ms: "ms = read @ rest" and c: "c = fold (cat_step k up) read c0
      \<or> (\<exists>d m. read = d @ [m] \<and> c = snd (cat_handle k up m (fold (cat_step k up) d c0)))"
    using observed_cases [OF assms(4)] by blast
  have ord: "in_log_order topic_log read" using assms(3) ms in_log_order_append by blast
  have paths: "cc_paths c = cc_paths (fold (cat_step k up) read c0)" using c by (auto simp: handled_paths)
  have "map_of (cc_paths c) key = latest (changes k up key read)" for key
    using cat_fold_latest [of c0] cat_New_gate [OF assms(1)] paths by simp
  moreover have "m \<in> set read" if m: "m \<in> set topic_log" "held a topic ps m" for m
    using c
  proof (elim disjE exE conjE)
    assume "c = fold (cat_step k up) read c0"
    then show ?thesis using ready_read [OF assms(1,2) _ ord m] assms(5) by (simp add: cat_Ready_def)
  next
    fix d x assume d: "read = d @ [x]" "c = snd (cat_handle k up x (fold (cat_step k up) d c0))"
    have "cc_ready (fold (cat_step k up) d c0)"
      using assms(5) cat_handle_gate [of k up x "fold (cat_step k up) d c0"] d(2) by (metis cat_Ready_def prod.collapse)
    then have "m \<in> set d" using ready_read [OF assms(1,2) _ in_log_order_append [OF ord [unfolded d(1)]] m] by blast
    then show ?thesis using d(1) by simp
  qed
  ultimately show ?thesis using ms by blast
qed

text \<open>
  C29: the gate opens exactly when each partition that was non-empty at the start has delivered
  its last message of then, at once when there is none, whatever the messages hold; the
  ready channel is closed exactly then, once. So a restart with nothing new published
  does not block, and a malformed message does not either.
\<close>

theorem cat_ready_iff:
  assumes "cat_NewConsumerForTopic a grp brokers topic = Inr (cfg, c0)"
    and "cat_Run k up (map ReadMsg ms) c0 = (r, c)" "ka_ReadPartitions a topic = Inr ps"
  shows "(cat_Ready c \<longleftrightarrow> (\<forall>p \<in> set ps. \<forall>lo hi. ka_ReadOffsets a topic p = Inr (lo, hi) \<and> lo < hi \<longrightarrow>
      (\<exists>m \<in> set ms. ms_Partition m = p \<and> hi \<le> ms_Offset m + 1)))
    \<and> cc_closes c = (if cat_Ready c then 1 else 0) \<and> (cat_Ready c \<longleftrightarrow> cat_WaitReady None c = {None})"
proof -
  note n = cat_New_gate [OF assms(1)]
  have c: "c = fold (cat_step k up) ms c0" using assms(2) by (simp add: cat_Run_msgs)
  have g: "catg.gate_ok c" unfolding c by (rule catg.run_ok) (use n in blast)
  have e: "cc_ready c0 \<longleftrightarrow> cc_target c0 = []"
    using assms(1) by (auto simp: cat_NewConsumerForTopic_def Let_def cat_markReady_def split: if_splits sum.splits)
  have "cc_ready c \<longleftrightarrow> (\<forall>p t. map_of (cc_target c0) p = Some t \<longrightarrow> (\<exists>m \<in> set ms. reaches p t m))"
    using catg.ready_iff [of c0 k up ms] n e unfolding c by auto
  also have "\<dots> \<longleftrightarrow> (\<forall>p \<in> set ps. \<forall>lo hi. ka_ReadOffsets a topic p = Inr (lo, hi) \<and> lo < hi \<longrightarrow>
      (\<exists>m \<in> set ms. reaches p hi m))"
    unfolding cat_New_target [OF assms(1,3)] by blast
  finally show ?thesis
    using g by (auto simp: cat_Ready_def cat_WaitReady_def catg.gate_ok_def reaches_def split: if_splits)
qed

text \<open>
  C30: what the catalogue holds for a path, ids compared without letter case, is what the latest
  well-formed event about it says: its last definition, or nothing once deactivated.
  Messages of other types, invalid CloudEvents and undecodable payloads change nothing.
\<close>

theorem cat_holds_latest:
  assumes "cat_NewConsumerForTopic a grp brokers topic = Inr (cfg, c0)"
    and "cat_Run k up (map ReadMsg ms) c0 = (r, c)"
  shows "r = None \<and> gwf (cc_paths c) \<and> map_of (cc_paths c) key = latest (changes k up key ms)"
  using cat_New_gate [OF assms(1)] assms(2) cat_fold_latest [of c0 k up ms key] cat_fold_gwf [of c0 k up ms]
  by (auto simp: cat_Run_msgs)

text \<open>
  C31: as long as no two known paths share a lower-cased prefix, two replays that deliver every path's events in
  the same order, however the partitions interleave, answer every lookup alike, in whatever order Go ranges
  over the map. Where two do share one, the order of that range decides which of them a lookup answers.
\<close>

theorem cat_replay_order_free:
  assumes "cat_Run k up (map ReadMsg ms) c0 = (r, c)" "cat_Run k up (map ReadMsg ms') c0 = (r', c')"
    and "cc_paths c0 = []" "\<forall>key. changes k up key ms = changes k up key ms'"
    and "distinct (map (lprefix uni \<circ> snd) (cc_paths c))" "\<forall>xs. mset (ord xs) = mset xs" "\<forall>xs. mset (ord' xs) = mset xs"
  shows "cat_Lookup uni ord c i = cat_Lookup uni ord' c' i"
proof -
  have c: "c = fold (cat_step k up) ms c0" "c' = fold (cat_step k up) ms' c0"
    using assms(1,2) by (simp_all add: cat_Run_msgs)
  have "mset (cc_paths c) = mset (cc_paths c')"
    unfolding c using assms(3,4) by (intro gmap_perm cat_fold_gwf ext) (simp_all add: cat_fold_latest)
  then have m: "mset (ord (map snd (cc_paths c))) = mset (ord' (map snd (cc_paths c')))"
    using assms(6,7) by (simp add: mset_map)
  have "distinct (map (lprefix uni) (map snd (cc_paths c)))" using assms(5) by simp
  then have "distinct (map (lprefix uni) (ord (map snd (cc_paths c))))"
    using assms(6) by (metis mset_eq_imp_distinct_iff mset_map)
  then show ?thesis unfolding cat_Lookup_def NewCatalogue_def by (rule Lookup_same [OF m])
qed

text \<open>
  What happens otherwise: of two known paths with one lower-cased prefix, a lookup of an id they match answers
  the one the range over the map comes to first, and Go leaves that order to chance.
\<close>

theorem shared_prefix_ambiguous:
  assumes "map snd (cc_paths c) = [d, d']" "lprefix uni d = lprefix uni d'" "recognizes uni i d"
  shows "cat_Lookup uni id c i = Inr d \<and> cat_Lookup uni rev c i = Inr d'"
proof -
  have r: "ToLower uni (pd_MatchPrefix d) \<noteq> ''''" "matchesPrefix (ToLower uni i) (ToLower uni (pd_MatchPrefix d))"
    "ToLower uni (pd_MatchPrefix d') = ToLower uni (pd_MatchPrefix d)"
    using assms(2,3) by (simp_all add: recognizes_loop lprefix_def)
  then show ?thesis by (simp add: cat_Lookup_def NewCatalogue_def Lookup_def assms(1) Let_def)
qed

text \<open>
  A consumer group's name determines host, process and start time, so no two processes
  share one and no replay resumes another's committed offset.
\<close>

theorem cat_group_unique:
  assumes "cat_uniqueConsumerGroup (Inr h) pid t = cat_uniqueConsumerGroup (Inr h') pid' t'"
    and "h \<noteq> ''''" "h' \<noteq> ''''" "0 \<le> pid" "0 \<le> pid'" "0 \<le> t" "0 \<le> t'"
  shows "h = h' \<and> pid = pid' \<and> t = t'"
  using assms by (intro group_name_inj) (simp_all add: cat_uniqueConsumerGroup_def)


section \<open>Witnesses\<close>

definition demo_path_json :: "string \<Rightarrow> string \<Rightarrow> json" where
  "demo_path_json i prefix = JObj [(''path_id'', JStr i), (''match_prefix'', JStr prefix), (''direct'', JBool True)]"

definition demo_cat_sdk :: sdk where
  "demo_cat_sdk = table_sdk
     [(''a'', demo_event ''1'' TypeProcessPathCreated (demo_path_json ''pick'' ''pick'')),
      (''b'', demo_event ''2'' TypeProcessPathUpdated (demo_path_json ''PICK'' ''pick-zone'')),
      (''c'', demo_event ''3'' TypeProcessPathCreated (demo_path_json ''pack'' ''pack'')),
      (''d'', demo_event ''4'' TypeProcessPathDeactivated (demo_path_json ''pack'' ''''))]"

definition demo_cat_admin :: kafka_admin where
  "demo_cat_admin = demo_admin [(0, 0, 2), (1, 5, 5), (2, 0, 1)]"

definition demo_cat0 :: cat_Consumer where
  "demo_cat0 = \<lparr>cc_paths = [], cc_ready = False, cc_closes = 0, cc_target = [(0, 2), (2, 1)]\<rparr>"

definition demo_cat_log :: "InMessage list" where
  "demo_cat_log = [demo_message 0 0 ''a'', demo_message 2 0 ''c'', demo_message 0 1 ''b'']"

lemma demo_cat_New:
  "cat_NewConsumerForTopic demo_cat_admin ''g'' [''b1''] ''t''
     = Inr (cat_readerConfig [''b1''] ''t'' ''g'', demo_cat0)"
  by (simp add: cat_NewConsumerForTopic_def cat_newTargetOffsets_def demo_cat_admin_def demo_admin_def
      cat_target_step_def gput_def demo_cat0_def)

lemma demo_cat_ReadPartitions: "ka_ReadPartitions demo_cat_admin t = Inr [0, 1, 2]"
  by (simp add: demo_cat_admin_def demo_admin_def)

lemma demo_cat_ReadOffsets:
  "ka_ReadOffsets demo_cat_admin t 0 = Inr (0, 2)" "ka_ReadOffsets demo_cat_admin t 1 = Inr (5, 5)"
  "ka_ReadOffsets demo_cat_admin t 2 = Inr (0, 1)"
  by (simp_all add: demo_cat_admin_def demo_admin_def)

lemma demo_cat_ready: "cat_Ready (snd (cat_Run demo_cat_sdk id (map ReadMsg demo_cat_log) demo_cat0))"
  using catg.ready_iff [of demo_cat0 demo_cat_sdk id demo_cat_log]
  by (auto simp: cat_Ready_def cat_Run_msgs catg.gate_ok_def demo_cat0_def gwf_def reaches_def demo_cat_log_def
      demo_message_def)

definition demo_def :: "string \<Rightarrow> string \<Rightarrow> PathDefinition" where
  "demo_def i p = \<lparr>pd_Id = i, pd_MatchPrefix = p, pd_RequiredCapabilities = [], pd_DestinationLocationRole = ''''\<rparr>"

lemma foldNames:
  "foldName ''path_id'' = ''PATH_ID''" "foldName ''match_prefix'' = ''MATCH_PREFIX''"
  "foldName ''direct'' = ''DIRECT''" "foldName ''required_capabilities'' = ''REQUIRED_CAPABILITIES''"
  "foldName ''destination_location_role'' = ''DESTINATION_LOCATION_ROLE''"
  by code_simp+

lemma demo_upper:
  "ToUpper id ''pick'' = ''PICK''" "ToUpper id ''PICK'' = ''PICK''" "ToUpper id ''pack'' = ''PACK''"
  by code_simp+

lemma demo_cat_change:
  "cat_change demo_cat_sdk id (demo_message 0 0 ''a'') = Some (''PICK'', Some (demo_def ''pick'' ''pick''))"
  "cat_change demo_cat_sdk id (demo_message 0 1 ''b'') = Some (''PICK'', Some (demo_def ''PICK'' ''pick-zone''))"
  "cat_change demo_cat_sdk id (demo_message 2 0 ''c'') = Some (''PACK'', Some (demo_def ''pack'' ''pack''))"
  by (simp_all add: cat_change_def ce_Decode_def demo_cat_sdk_def table_sdk_def demo_event_def demo_message_def
      demo_path_json_def demo_def_def decode_pathData_def dec_object_def dec_field_def field_values_def foldNames
      TypeProcessPathCreated_def TypeProcessPathUpdated_def TypeProcessPathDeactivated_def
      demo_upper del: foldName.simps)

theorem cat_ready_iff_witness:
  "cat_Ready (snd (cat_Run demo_cat_sdk id (map ReadMsg demo_cat_log) demo_cat0))"
  using cat_ready_iff [OF demo_cat_New surjective_pairing demo_cat_ReadPartitions, THEN conjunct1,
      of demo_cat_sdk id demo_cat_log]
  by (simp add: demo_cat_ReadOffsets demo_cat_log_def demo_message_def)

theorem cat_ready_complete_witness:
  "map_of (cc_paths (snd (cat_Run demo_cat_sdk id (map ReadMsg demo_cat_log) demo_cat0))) ''PACK'' = Some (demo_def ''pack'' ''pack'')"
proof -
  let ?c = "snd (cat_Run demo_cat_sdk id (map ReadMsg demo_cat_log) demo_cat0)"
  have o: "in_log_order demo_cat_log demo_cat_log"
    by (auto simp: in_log_order_def demo_cat_log_def demo_message_def less_Suc_eq numeral_3_eq_3)
  have "?c \<in> set (cat_observed demo_cat_sdk id demo_cat_log demo_cat0)"
    by (simp add: demo_cat_log_def)
  from cat_ready_complete [OF demo_cat_New demo_cat_ReadPartitions o this demo_cat_ready]
  obtain read rest where r: "demo_cat_log = read @ rest" "\<forall>m \<in> set demo_cat_log. held demo_cat_admin ''t'' [0, 1, 2] m \<longrightarrow> m \<in> set read"
    "\<forall>key. map_of (cc_paths ?c) key = latest (changes demo_cat_sdk id key read)" by blast
  have "\<forall>m \<in> set demo_cat_log. held demo_cat_admin ''t'' [0, 1, 2] m"
    by (simp add: held_def demo_cat_log_def demo_message_def demo_cat_ReadOffsets)
  then have "set demo_cat_log \<subseteq> set read" using r(2) by blast
  moreover have "set rest \<subseteq> set demo_cat_log" unfolding r(1) by simp
  ultimately have "set rest \<subseteq> set read" by blast
  moreover have "distinct (read @ rest)" unfolding r(1) [symmetric] by (simp add: demo_cat_log_def demo_message_def)
  ultimately have "rest = []" by (cases rest) auto
  then have "read = demo_cat_log" using r(1) by simp
  then show ?thesis
    using r(3) by (simp add: changes_def List.map_filter_def demo_cat_log_def demo_cat_change latest_def)
qed

theorem cat_holds_latest_witness:
  "map_of (cc_paths (snd (cat_Run demo_cat_sdk id (map ReadMsg demo_cat_log) demo_cat0))) ''PICK''
     = Some (demo_def ''PICK'' ''pick-zone'')"
  using cat_holds_latest [OF demo_cat_New surjective_pairing, of demo_cat_sdk id demo_cat_log "''PICK''"]
  by (simp add: changes_def List.map_filter_def demo_cat_log_def demo_cat_change latest_def)

lemma demo_cat_changes:
  "changes demo_cat_sdk id key [demo_message 0 0 ''a'', demo_message 2 0 ''c'']
     = changes demo_cat_sdk id key [demo_message 2 0 ''c'', demo_message 0 0 ''a'']"
  by (auto simp: changes_def List.map_filter_def demo_cat_change)

lemma demo_prefixes: "lprefix id (demo_def ''pick'' ''pick'') \<noteq> lprefix id (demo_def ''pack'' ''pack'')"
  by code_simp

theorem cat_replay_order_free_witness:
  "cat_Lookup id id (snd (cat_Run demo_cat_sdk id (map ReadMsg [demo_message 0 0 ''a'', demo_message 2 0 ''c'']) demo_cat0)) ''pick-7''
   = cat_Lookup id rev (snd (cat_Run demo_cat_sdk id (map ReadMsg [demo_message 2 0 ''c'', demo_message 0 0 ''a'']) demo_cat0)) ''pick-7''"
proof (rule cat_replay_order_free [OF surjective_pairing surjective_pairing])
  show "\<forall>key. changes demo_cat_sdk id key [demo_message 0 0 ''a'', demo_message 2 0 ''c'']
     = changes demo_cat_sdk id key [demo_message 2 0 ''c'', demo_message 0 0 ''a'']" using demo_cat_changes by blast
  show "distinct (map (lprefix id \<circ> snd) (cc_paths (snd (cat_Run demo_cat_sdk id
      (map ReadMsg [demo_message 0 0 ''a'', demo_message 2 0 ''c'']) demo_cat0))))"
    using demo_prefixes by (simp add: cat_Run_msgs cat_step_paths demo_cat_change demo_cat0_def gput_def)
qed (simp_all add: demo_cat0_def)

theorem shared_prefix_ambiguous_witness:
  "let d = demo_def ''pick'' ''pick''; d' = demo_def ''pick2'' ''pick'';
       c = \<lparr>cc_paths = [(''PICK'', d), (''PICK2'', d')], cc_ready = True, cc_closes = 1, cc_target = []\<rparr> in
   cat_Lookup id id c ''pick'' = Inr d \<and> cat_Lookup id rev c ''pick'' = Inr d'"
proof -
  let ?d = "demo_def ''pick'' ''pick''" and ?d' = "demo_def ''pick2'' ''pick''"
  let ?c = "\<lparr>cc_paths = [(''PICK'', ?d), (''PICK2'', ?d')], cc_ready = True, cc_closes = 1, cc_target = []\<rparr>"
  have "map snd (cc_paths ?c) = [?d, ?d']" "lprefix id ?d = lprefix id ?d'" by (simp_all add: lprefix_def demo_def_def)
  moreover have "recognizes id ''pick'' ?d" by (simp add: recognizes_def lprefix_def demo_def_def ToLower_def)
  ultimately show ?thesis unfolding Let_def by (rule shared_prefix_ambiguous)
qed

end
