(* ===== verification/Boot.thy ===== *)
theory Boot
  imports Mcp KafkaCatalog Relay
begin

text \<open>
  The composition roots \<open>cmd/workforce\<close>, \<open>cmd/mcp\<close>, \<open>cmd/workforce-projector\<close> and
  \<open>cmd/workforce-reports\<close>: configuration read from the environment, the adapters it selects, the
  order in which a process boots, and what the servers do when a listener fails or a signal
  arrives. What boot dials (Postgres, Kafka, the file system, the peers behind the HTTP clients)
  is the record \<open>world\<close>; telemetry and logging are not modelled.
\<close>

section \<open>Configuration\<close>

text \<open>\<open>os.Getenv\<close>: unset is empty. \<open>os.Exit(1)\<close> while reading it is an error of the boot.\<close>

type_synonym env = "string \<Rightarrow> string"

definition envOrDefault :: "env \<Rightarrow> string \<Rightarrow> string \<Rightarrow> string" where
  "envOrDefault env key def = (if env key \<noteq> '''' then env key else def)"

definition requireEnv :: "env \<Rightarrow> string \<Rightarrow> err + string" where
  "requireEnv env key = (if env key = '''' then Inl (Other (''missing required env var '' @ key)) else Inr (env key))"

text \<open>\<open>strconv.ParseFloat\<close> and \<open>time.ParseDuration\<close> are parameters.\<close>

definition envFloatOrDefault :: "(string \<Rightarrow> err + f64) \<Rightarrow> env \<Rightarrow> string \<Rightarrow> f64 \<Rightarrow> err + f64" where
  "envFloatOrDefault parse env key def =
     (if env key = '''' then Inr def
      else case parse (env key) of
          Inl e \<Rightarrow> Inl (Wrap (''invalid float env var '' @ key) e)
        | Inr f \<Rightarrow> Inr f)"

definition envDurationOrDefault :: "(string \<Rightarrow> err + duration) \<Rightarrow> env \<Rightarrow> string \<Rightarrow> duration \<Rightarrow> duration" where
  "envDurationOrDefault parse env key def =
     (if env key = '''' then def
      else case parse (env key) of
          Inl _ \<Rightarrow> def
        | Inr d \<Rightarrow> if d \<le> 0 then def else d)"

definition serviceVersion :: "string \<Rightarrow> env \<Rightarrow> string" where
  "serviceVersion version env = (if version \<noteq> '''' then version else envOrDefault env ''SERVICE_VERSION'' ''dev'')"

datatype log_level = LevelDebug | LevelInfo | LevelWarn | LevelError

definition newLogger :: "(string \<Rightarrow> string) \<Rightarrow> string \<Rightarrow> log_level" where
  "newLogger uni level = (let l = ToLower uni level in
     if l = ''debug'' then LevelDebug else if l = ''warn'' then LevelWarn
     else if l = ''error'' then LevelError else LevelInfo)"

text \<open>The other three binaries also take \<open>warning\<close>.\<close>

definition newLogger_warning :: "(string \<Rightarrow> string) \<Rightarrow> string \<Rightarrow> log_level" where
  "newLogger_warning uni level = (let l = ToLower uni level in
     if l = ''debug'' then LevelDebug else if l = ''warn'' \<or> l = ''warning'' then LevelWarn
     else if l = ''error'' then LevelError else LevelInfo)"

section \<open>What boot dials\<close>

record ('s, 'c, 'm) world =
  bw_readFile :: "string \<Rightarrow> err + string"
  bw_yaml :: "string \<Rightarrow> err + pathDocument list"
  bw_uni :: "string \<Rightarrow> string"
  bw_catalogue :: "string list \<Rightarrow> ('s, 'c) op"
  bw_catalogueReady :: "'c \<Rightarrow> ('s, unit) op"
  bw_catalogueLookup :: "'c \<Rightarrow> string \<Rightarrow> ('s, PathDefinition) op"
  bw_rates :: "string list \<Rightarrow> ('s, 'm) op"
  bw_ratesReady :: "'m \<Rightarrow> ('s, unit) op"
  bw_ratesMean :: "'m \<Rightarrow> PathId \<Rightarrow> ('s, f64) op"
  bw_ratesIdle :: "'m \<Rightarrow> PathId \<Rightarrow> ('s, f64) op"
  bw_laborPerformance :: "string \<Rightarrow> PathId \<Rightarrow> ('s, f64) op"
  bw_fulfillmentExecution :: "string \<Rightarrow> Capability \<Rightarrow> ('s, int) op"
  bw_migrate :: "string \<Rightarrow> string \<Rightarrow> ('s, unit) op"
  bw_pool :: "string \<Rightarrow> ('s, unit) op"
  bw_repos :: "'s ports"
  bw_outbox :: "DomainEvent list \<Rightarrow> ('s, unit) op"
  bw_log :: "DomainEvent list \<Rightarrow> ('s, unit) op"
  bw_uow :: "('s, unit) op \<Rightarrow> ('s, unit) op"
  bw_telemetry :: "('s, unit) op"
  bw_parseFloat :: "string \<Rightarrow> err + f64"
  bw_parseDuration :: "string \<Rightarrow> err + duration"
  bw_plat :: "f64 \<Rightarrow> int"
  bw_memory :: "'s ports"
  bw_reports :: "string \<Rightarrow> 's ReportsClient"
  bw_readOnlyPool :: "string \<Rightarrow> ('s, unit) op"
  bw_wait :: "duration \<Rightarrow> ('s, unit) op"

text \<open>A retried constructor: the closure assigns a variable outside it, nil until it succeeds.\<close>

definition assigning :: "('s, 'a) op \<Rightarrow> ('s \<times> 'a option, unit) op" where
  "assigning m = (\<lambda>(s, v). case m s of (Inl e, s') \<Rightarrow> (Inl e, (s', v)) | (Inr a, s') \<Rightarrow> (Inr (), (s', Some a)))"

definition beside :: "('s, unit) op \<Rightarrow> ('s \<times> 'a option, unit) op" where
  "beside m = (\<lambda>(s, v). case m s of (r, s') \<Rightarrow> (r, (s', v)))"

definition retry_new :: "string \<Rightarrow> ('s, 'a) op \<Rightarrow> (duration \<Rightarrow> ('s, unit) op) \<Rightarrow> ('s, 'a) op" where
  "retry_new what m wait s = (case Retry what (assigning m) (\<lambda>d. beside (wait d)) (s, None) of
       (Inl e, (s', _)) \<Rightarrow> (Inl e, s')
     | (Inr _, (s', Some a)) \<Rightarrow> (Inr a, s')
     | (Inr _, (s', None)) \<Rightarrow> (Inl (Other ''nil''), s'))"

section \<open>The OLTP service\<close>

type_synonym 's lookup = "string \<Rightarrow> ('s, PathDefinition) op"

text \<open>
  The Kafka catalogue's \<open>Run\<close> goroutine is started before \<open>WaitReady\<close> waits for its replay;
  \<open>bw_catalogueReady\<close> is that wait, with its timeout.
\<close>

definition wireCatalogue :: "env \<Rightarrow> ('s, 'c, 'm) world \<Rightarrow> ('s, 's lookup) op" where
  "wireCatalogue env W =
     (if envOrDefault env ''PATH_CATALOGUE_SOURCE'' ''file'' = ''kafka'' then
        (let csv = env ''KAFKA_BROKERS'' in
         if csv = '''' then ofail (Other ''PATH_CATALOGUE_SOURCE=kafka requires KAFKA_BROKERS to be set'')
         else ocatch (retry_new ''connect process-path catalogue kafka consumer''
             (bw_catalogue W (split_char (CHR '','') csv)) (bw_wait W)) (\<lambda>r. case r of
           Inl e \<Rightarrow> ofail (Wrap ''failed to start the Kafka-sourced process-path catalogue'' e)
         | Inr c \<Rightarrow> ocatch (bw_catalogueReady W c) (\<lambda>r. case r of
             Inl e \<Rightarrow> ofail (Wrap ''process-path catalogue did not become ready'' e)
           | Inr _ \<Rightarrow> oret (bw_catalogueLookup W c))))
      else (case filecatalog_Load (bw_readFile W) (bw_yaml W)
              (envOrDefault env ''PATH_CATALOGUE_FILE'' ''/etc/workforce-management/process-paths.yaml'') of
          Inl e \<Rightarrow> ofail (Wrap ''failed to load the process-path catalogue'' e)
        | Inr cat \<Rightarrow> oret (\<lambda>p. olift (Lookup (bw_uni W) cat p))))"

definition openPostgresPool :: "('s, 'c, 'm) world \<Rightarrow> string \<Rightarrow> string \<Rightarrow> string \<Rightarrow> ('s, unit) op" where
  "openPostgresPool W databaseURL migrationsDatabaseURL migrationsPath =
     obind (Retry ''run migrations'' (bw_migrate W migrationsDatabaseURL migrationsPath) (bw_wait W)) (\<lambda>_.
     Retry ''open postgres pool'' (bw_pool W databaseURL) (bw_wait W))"

definition buildMeasuredRateClient :: "('s, 'c, 'm) world \<Rightarrow> string \<Rightarrow> string \<Rightarrow> PathId \<Rightarrow> ('s, f64) op" where
  "buildMeasuredRateClient W mode baseURL =
     (if mode \<noteq> ''http'' then lp_Permissive_MeanActualSeconds else bw_laborPerformance W baseURL)"

definition buildInstalledCapacityClient :: "('s, 'c, 'm) world \<Rightarrow> string \<Rightarrow> string \<Rightarrow> Capability \<Rightarrow> ('s, int) op" where
  "buildInstalledCapacityClient W mode baseURL =
     (if mode \<noteq> ''http'' then fe_Permissive_InstalledCapacity else bw_fulfillmentExecution W baseURL)"

definition newMeasuredRateClients ::
  "env \<Rightarrow> ('s, 'c, 'm) world \<Rightarrow> ('s, (PathId \<Rightarrow> ('s, f64) op) \<times> (PathId \<Rightarrow> ('s, f64) op) option) op" where
  "newMeasuredRateClients env W =
     (let mode = envOrDefault env ''LABOR_PERFORMANCE_MODE'' ''permissive'' in
      if mode \<noteq> ''kafka-cache'' then oret (buildMeasuredRateClient W mode (env ''LABOR_PERFORMANCE_BASE_URL''), None)
      else let csv = env ''KAFKA_BROKERS'' in
        if csv = '''' then ofail (Other ''LABOR_PERFORMANCE_MODE=kafka-cache requires KAFKA_BROKERS to be set'')
        else ocatch (retry_new ''connect labor-performance measured rate cache kafka consumer''
            (bw_rates W (split_char (CHR '','') csv)) (bw_wait W)) (\<lambda>r. case r of
          Inl e \<Rightarrow> ofail (Wrap ''failed to start the Kafka-sourced labor-performance measured rate cache'' e)
        | Inr c \<Rightarrow> ocatch (bw_ratesReady W c) (\<lambda>r. case r of
            Inl e \<Rightarrow> ofail (Wrap ''labor-performance measured rate cache did not become ready'' e)
          | Inr _ \<Rightarrow> oret (bw_ratesMean W c, Some (bw_ratesIdle W c)))))"

text \<open>
  The pool is never nil here, so kafka mode always publishes through the outbox; the relay comes
  with it.
\<close>

definition newOutboxPublisher :: "env \<Rightarrow> ('s, 'c, 'm) world \<Rightarrow> (DomainEvent list \<Rightarrow> ('s, unit) op) \<times> relay_config" where
  "newOutboxPublisher env W = (bw_outbox W,
     NewOutboxRelay [WithInterval (envDurationOrDefault (bw_parseDuration W) env ''OUTBOX_RELAY_INTERVAL'' second_ns)])"

definition newEventPublisher ::
  "env \<Rightarrow> ('s, 'c, 'm) world \<Rightarrow> err + (DomainEvent list \<Rightarrow> ('s, unit) op) \<times> relay_config option" where
  "newEventPublisher env W =
     (let mode = envOrDefault env ''EVENT_PUBLISHER'' ''log'' in
      if mode = ''kafka'' then (case newOutboxPublisher env W of (publisher, relay) \<Rightarrow> Inr (publisher, Some relay))
      else if mode = ''log'' then Inr (bw_log W, None)
      else Inl (Other (''unknown EVENT_PUBLISHER '' @ env ''EVENT_PUBLISHER'' @ '' (want kafka or log)'')))"

definition wireRepos :: "env \<Rightarrow> ('s, 'c, 'm) world \<Rightarrow> err + 's ports \<times> relay_config option" where
  "wireRepos env W = (case newEventPublisher env W of
       Inl e \<Rightarrow> Inl e
     | Inr (publisher, relay) \<Rightarrow> Inr ((bw_repos W)\<lparr>Publish := publisher, UnitOfWork := Some (bw_uow W)\<rparr>, relay))"

definition newOLTPHandler ::
  "env \<Rightarrow> ('s, 'c, 'm) world \<Rightarrow> 's ports \<Rightarrow> (PathId \<Rightarrow> ('s, f64) op) \<Rightarrow> (PathId \<Rightarrow> ('s, f64) op) option \<Rightarrow> f64 \<Rightarrow>
     's lookup \<Rightarrow> Readiness \<Rightarrow> err + 's Handler" where
  "newOLTPHandler env W P measuredRate idleShare maxHoursPerShift catalogue readiness =
     (let installedCapacity = buildInstalledCapacityClient W (envOrDefault env ''INSTALLED_CAPACITY_MODE'' ''permissive'')
            (env ''FULFILLMENT_EXECUTION_BASE_URL'') in
      map_sum id (\<lambda>threshold. \<lparr>h_UseCases = \<lparr>dp_ports = P, dp_lookup = Some catalogue, dp_capacity = installedCapacity,
          dp_measured = Some measuredRate, dp_idle = idleShare, dp_threshold = threshold,
          dp_maxHours = maxHoursPerShift, dp_plat = bw_plat W\<rparr>,
        h_Catalogue = Some catalogue, h_Readiness = readiness\<rparr>)
       (envFloatOrDefault (bw_parseFloat W) env ''IDLE_SHARE_TRIM_THRESHOLD'' DefaultIdleShareTrimThreshold))"

text \<open>\<open>run\<close>, up to the handler the server serves and the relay beside it.\<close>

definition boot :: "env \<Rightarrow> ('s, 'c, 'm) world \<Rightarrow> ('s, 's Handler \<times> relay_config option) op" where
  "boot env W =
     obind (bw_telemetry W) (\<lambda>_.
     let readiness = Some 0 in
     obind (olift (requireEnv env ''DATABASE_URL'')) (\<lambda>databaseURL.
     let migrationsDatabaseURL = envOrDefault env ''MIGRATIONS_DATABASE_URL'' databaseURL;
         migrationsPath = envOrDefault env ''MIGRATIONS_PATH'' ''migrations'' in
     obind (olift (envFloatOrDefault (bw_parseFloat W) env ''MAX_HOURS_PER_SHIFT'' (Fin 8))) (\<lambda>maxHoursPerShift.
     obind (wireCatalogue env W) (\<lambda>catalogue.
     obind (openPostgresPool W databaseURL migrationsDatabaseURL migrationsPath) (\<lambda>_.
     obind (olift (wireRepos env W)) (\<lambda>(P, relay).
     obind (newMeasuredRateClients env W) (\<lambda>(measuredRate, idleShare).
     obind (olift (newOLTPHandler env W P measuredRate idleShare maxHoursPerShift catalogue readiness)) (\<lambda>h.
     oret (h, relay)))))))))"

section \<open>The MCP server\<close>

text \<open>
  Without a \<open>DATABASE_URL\<close> the MCP server runs on the in-memory repositories. Telemetry that
  cannot be set up is logged and the server boots all the same.
\<close>

definition newRepos :: "('s, 'c, 'm) world \<Rightarrow> string \<Rightarrow> string \<Rightarrow> string \<Rightarrow> ('s, 's ports) op" where
  "newRepos W databaseURL migrationsDatabaseURL migrationsPath =
     (if databaseURL = '''' then oret (bw_memory W)
      else obind (Retry ''run migrations'' (bw_migrate W migrationsDatabaseURL migrationsPath) (bw_wait W)) (\<lambda>_.
        obind (Retry ''open postgres pool'' (bw_pool W databaseURL) (bw_wait W)) (\<lambda>_.
        oret (bw_repos W))))"

definition mcp_boot :: "env \<Rightarrow> ('s, 'c, 'm) world \<Rightarrow> ('s, 's Deps) op" where
  "mcp_boot env W =
     ocatch (bw_telemetry W) (\<lambda>_.
     let databaseURL = env ''DATABASE_URL'';
         migrationsDatabaseURL = envOrDefault env ''MIGRATIONS_DATABASE_URL'' databaseURL;
         migrationsPath = envOrDefault env ''MIGRATIONS_PATH'' ''migrations'' in
     obind (olift (envFloatOrDefault (bw_parseFloat W) env ''MAX_HOURS_PER_SHIFT'' (Fin 8))) (\<lambda>maxHoursPerShift.
     obind (newRepos W databaseURL migrationsDatabaseURL migrationsPath) (\<lambda>P.
     oret (mcp_deps P maxHoursPerShift (bw_plat W) (env ''REPORTS_BASE_URL'') (bw_reports W)))))"

section \<open>The projector and the reports server\<close>

definition errMissingAnalyticsURL :: err where
  "errMissingAnalyticsURL = Other ''ANALYTICS_DATABASE_URL is required''"

definition openAnalyticsPool :: "('s, 'c, 'm) world \<Rightarrow> string \<Rightarrow> string \<Rightarrow> ('s, unit) op" where
  "openAnalyticsPool W analyticsURL migrationsPath =
     obind (Retry ''run migrations'' (bw_migrate W analyticsURL migrationsPath) (bw_wait W)) (\<lambda>_.
     Retry ''open analytics postgres pool'' (bw_pool W analyticsURL) (bw_wait W))"

text \<open>What boot hands to \<open>newAnalyticsPipeline\<close>: an open pool and the brokers.\<close>

definition projector_boot :: "env \<Rightarrow> ('s, 'c, 'm) world \<Rightarrow> ('s, string list) op" where
  "projector_boot env W =
     ocatch (bw_telemetry W) (\<lambda>_.
     let analyticsURL = env ''ANALYTICS_DATABASE_URL'' in
     if analyticsURL = '''' then ofail errMissingAnalyticsURL
     else let kafkaBrokers = split_char (CHR '','') (envOrDefault env ''KAFKA_BROKERS'' ''localhost:9092'');
         migrationsPath = envOrDefault env ''ANALYTICS_MIGRATIONS_PATH'' ''migrations/analytics'' in
       obind (openAnalyticsPool W analyticsURL migrationsPath) (\<lambda>_. oret kafkaBrokers))"

definition reports_boot :: "env \<Rightarrow> ('s, 'c, 'm) world \<Rightarrow> ('s, unit) op" where
  "reports_boot env W =
     ocatch (bw_telemetry W) (\<lambda>_.
     let analyticsURL = env ''ANALYTICS_DATABASE_URL'' in
     if analyticsURL = '''' then ofail errMissingAnalyticsURL
     else Retry ''open read-only analytics postgres pool'' (bw_readOnlyPool W analyticsURL) (bw_wait W))"

section \<open>What a boot that succeeds has wired\<close>

lemma obind_ok: "(obind m f s = (Inr b, s')) \<longleftrightarrow> (\<exists>a s1. m s = (Inr a, s1) \<and> f a s1 = (Inr b, s'))"
  by (cases "m s"; cases "fst (m s)") (auto simp: obind_app)

lemma ocatch_ok: "(ocatch m (\<lambda>r. case r of Inl e \<Rightarrow> ofail (g e) | Inr a \<Rightarrow> f a) s = (Inr b, s'))
    \<longleftrightarrow> (\<exists>a s1. m s = (Inr a, s1) \<and> f a s1 = (Inr b, s'))"
  by (cases "m s"; cases "fst (m s)") (auto simp: ocatch_app)

lemma olift_ok: "(olift x s = (Inr a, s')) \<longleftrightarrow> x = Inr a \<and> s' = s"
  by auto

lemma requireEnv_ok: "requireEnv env key = Inr v \<longleftrightarrow> v = env key \<and> v \<noteq> ''''"
  by (auto simp: requireEnv_def)

lemma envFloatOrDefault_ok: "envFloatOrDefault parse env key def = Inr f \<longleftrightarrow>
    (if env key = '''' then f = def else parse (env key) = Inr f)"
  by (auto simp: envFloatOrDefault_def split: sum.splits)

text \<open>The catalogue a process serves from: the file's, or a replica that has become ready.\<close>

definition catalogue_of :: "env \<Rightarrow> ('s, 'c, 'm) world \<Rightarrow> 's lookup \<Rightarrow> bool" where
  "catalogue_of env W lookup \<longleftrightarrow>
     (if env ''PATH_CATALOGUE_SOURCE'' = ''kafka''
      then env ''KAFKA_BROKERS'' \<noteq> '''' \<and> (\<exists>c s s'. bw_catalogueReady W c s = (Inr (), s') \<and> lookup = bw_catalogueLookup W c)
      else \<exists>cat. filecatalog_Load (bw_readFile W) (bw_yaml W)
          (envOrDefault env ''PATH_CATALOGUE_FILE'' ''/etc/workforce-management/process-paths.yaml'') = Inr cat
        \<and> lookup = (\<lambda>p. olift (Lookup (bw_uni W) cat p)))"

lemma wireCatalogue_ok: "wireCatalogue env W s = (Inr lookup, s') \<Longrightarrow> catalogue_of env W lookup"
  by (auto simp: wireCatalogue_def catalogue_of_def envOrDefault_def ocatch_ok Let_def split: if_splits sum.splits)

text \<open>How the events of a booted process leave it.\<close>

definition publisher_of :: "env \<Rightarrow> ('s, 'c, 'm) world \<Rightarrow> 's ports \<Rightarrow> relay_config option \<Rightarrow> bool" where
  "publisher_of env W P relay \<longleftrightarrow>
     (if env ''EVENT_PUBLISHER'' = ''kafka'' then Publish P = bw_outbox W \<and> (\<exists>r. relay = Some r \<and> 0 < rc_interval r \<and> 0 < rc_batchSize r)
      else env ''EVENT_PUBLISHER'' \<in> {'''', ''log''} \<and> Publish P = bw_log W \<and> relay = None)"

lemma relay_config_ok: "0 < rc_interval (snd (newOutboxPublisher env W))" "0 < rc_batchSize (snd (newOutboxPublisher env W))"
  by (auto simp: newOutboxPublisher_def NewOutboxRelay_def WithInterval_def)

lemma wireRepos_ok:
  "wireRepos env W = Inr (P, relay) \<Longrightarrow> publisher_of env W P relay \<and> UnitOfWork P = Some (bw_uow W)"
  using relay_config_ok [of env W]
  by (auto simp: wireRepos_def newEventPublisher_def publisher_of_def envOrDefault_def newOutboxPublisher_def Let_def
      split: if_splits sum.splits)

lemma retry_loop_ok:
  "retry_loop what opn wait i d s = (Inr u, s') \<Longrightarrow> \<exists>s1. opn s1 = (Inr (), s')"
proof (induction what opn wait i d s rule: retry_loop.induct)
  case (1 what opn wait i d s)
  show ?case
  proof (cases "opn s")
    case (Pair r s1)
    show ?thesis
    proof (cases r)
      case (Inl e)
      with Pair 1(2) have "\<not> Retries \<le> i" by (auto simp: retry_loop.simps)
      then show ?thesis
        using Pair Inl 1(2) 1(1) [OF Pair [symmetric] Inl]
        by (cases "wait d s1"; cases "fst (wait d s1)") (auto simp: retry_loop.simps [of what opn wait i])
    next
      case (Inr v)
      then show ?thesis using Pair 1(2) by (auto simp: retry_loop.simps)
    qed
  qed
qed

lemma Retry_ok: "Retry what opn wait s = (Inr u, s') \<Longrightarrow> \<exists>s1. opn s1 = (Inr (), s')"
  by (auto simp: Retry_def RetryWithDelay_def dest: retry_loop_ok)

text \<open>The database a process serves from: migrated, and its pool opened.\<close>

definition database_of :: "env \<Rightarrow> ('s, 'c, 'm) world \<Rightarrow> bool" where
  "database_of env W \<longleftrightarrow> env ''DATABASE_URL'' \<noteq> ''''
     \<and> (\<exists>s s'. bw_migrate W (envOrDefault env ''MIGRATIONS_DATABASE_URL'' (env ''DATABASE_URL''))
          (envOrDefault env ''MIGRATIONS_PATH'' ''migrations'') s = (Inr (), s'))
     \<and> (\<exists>s s'. bw_pool W (env ''DATABASE_URL'') s = (Inr (), s'))"

lemma openPostgresPool_ok:
  assumes "openPostgresPool W url murl path s = (Inr u, s')"
  shows "(\<exists>s s'. bw_migrate W murl path s = (Inr (), s')) \<and> (\<exists>s s'. bw_pool W url s = (Inr (), s'))"
  using assms Retry_ok unfolding openPostgresPool_def obind_ok by metis

lemma newOLTPHandler_ok:
  "newOLTPHandler env W P mr idle mx cat g = Inr h \<Longrightarrow>
     h_Catalogue h = Some cat \<and> h_Readiness h = g \<and> dp_ports (h_UseCases h) = P
     \<and> dp_lookup (h_UseCases h) = Some cat \<and> dp_maxHours (h_UseCases h) = mx
     \<and> dp_capacity (h_UseCases h) = buildInstalledCapacityClient W
         (envOrDefault env ''INSTALLED_CAPACITY_MODE'' ''permissive'') (env ''FULFILLMENT_EXECUTION_BASE_URL'')"
  by (auto simp: newOLTPHandler_def Let_def map_sum_def split: sum.splits)

lemma boot_parts:
  assumes "boot env W s = (Inr (h, relay), s')"
  obtains url mx lookup P mr idle x s1 s2 s3 s4 s5 s6 where
    "requireEnv env ''DATABASE_URL'' = Inr url"
    "envFloatOrDefault (bw_parseFloat W) env ''MAX_HOURS_PER_SHIFT'' (Fin 8) = Inr mx"
    "wireCatalogue env W s1 = (Inr lookup, s2)"
    "openPostgresPool W url (envOrDefault env ''MIGRATIONS_DATABASE_URL'' url)
        (envOrDefault env ''MIGRATIONS_PATH'' ''migrations'') s3 = (Inr x, s4)"
    "wireRepos env W = Inr (P, relay)"
    "newMeasuredRateClients env W s5 = (Inr (mr, idle), s6)"
    "newOLTPHandler env W P mr idle mx lookup (Some 0) = Inr h"
  using assms unfolding boot_def Let_def obind_ok olift_ok case_prod_beta oret_def prod.inject sum.inject
  by (elim exE conjE) (metis prod.collapse)

lemma boot_ok:
  assumes "boot env W s = (Inr (h, relay), s')"
  obtains lookup P where "database_of env W" "catalogue_of env W lookup" "wireRepos env W = Inr (P, relay)"
    "envFloatOrDefault (bw_parseFloat W) env ''MAX_HOURS_PER_SHIFT'' (Fin 8) = Inr (dp_maxHours (h_UseCases h))"
    "h_Catalogue h = Some lookup" "dp_lookup (h_UseCases h) = Some lookup" "dp_ports (h_UseCases h) = P"
    "h_Readiness h = Some 0"
    "dp_capacity (h_UseCases h) = buildInstalledCapacityClient W
         (envOrDefault env ''INSTALLED_CAPACITY_MODE'' ''permissive'') (env ''FULFILLMENT_EXECUTION_BASE_URL'')"
proof -
  obtain url mx lookup P mr idle x s1 s2 s3 s4 s5 s6 where
    url: "requireEnv env ''DATABASE_URL'' = Inr url" and
    mx: "envFloatOrDefault (bw_parseFloat W) env ''MAX_HOURS_PER_SHIFT'' (Fin 8) = Inr mx" and
    cat: "wireCatalogue env W s1 = (Inr lookup, s2)" and
    pool: "openPostgresPool W url (envOrDefault env ''MIGRATIONS_DATABASE_URL'' url)
        (envOrDefault env ''MIGRATIONS_PATH'' ''migrations'') s3 = (Inr x, s4)" and
    repos: "wireRepos env W = Inr (P, relay)" and
    "newMeasuredRateClients env W s5 = (Inr (mr, idle), s6)" and
    h: "newOLTPHandler env W P mr idle mx lookup (Some 0) = Inr h"
    by (rule boot_parts [OF assms])
  have u: "url = env ''DATABASE_URL''" and u0: "url \<noteq> ''''" using url unfolding requireEnv_ok by blast+
  have "database_of env W"
    using openPostgresPool_ok [OF pool] u0 unfolding database_of_def u by (intro conjI) blast+
  moreover note H = newOLTPHandler_ok [OF h]
  moreover have "envFloatOrDefault (bw_parseFloat W) env ''MAX_HOURS_PER_SHIFT'' (Fin 8) = Inr (dp_maxHours (h_UseCases h))"
    using mx H by simp
  ultimately show thesis using that [of lookup P] wireCatalogue_ok [OF cat] repos by blast
qed

section \<open>Properties of boot\<close>

text \<open>
  C24: the service boots closed. Whenever \<open>run\<close> gets as far as serving, \<open>DATABASE_URL\<close> is set, the
  migrations have run and the pool is open; path ids are validated and commits are checked against
  one and the same catalogue, which is the loaded file or a Kafka replica that is ready; events go
  where \<open>EVENT_PUBLISHER\<close> says, with a relay exactly when that is the outbox; every request runs in
  the unit of work; the limit is the configured one or 8 hours; without a configured capacity source
  it is the one that refuses every commit; and \<open>/readyz\<close> answers 200.
\<close>

theorem boot_fails_closed:
  assumes "boot env W s = (Inr (h, relay), s')"
  shows "database_of env W
    \<and> (\<exists>lookup. catalogue_of env W lookup \<and> h_Catalogue h = Some lookup \<and> dp_lookup (h_UseCases h) = Some lookup)
    \<and> publisher_of env W (dp_ports (h_UseCases h)) relay
    \<and> UnitOfWork (dp_ports (h_UseCases h)) = Some (bw_uow W)
    \<and> envFloatOrDefault (bw_parseFloat W) env ''MAX_HOURS_PER_SHIFT'' (Fin 8) = Inr (dp_maxHours (h_UseCases h))
    \<and> (env ''INSTALLED_CAPACITY_MODE'' = '''' \<longrightarrow> dp_capacity (h_UseCases h) = fe_Permissive_InstalledCapacity)
    \<and> hs_Status (fst (handleReadyz h req)) = 200"
proof -
  obtain lookup P where b: "database_of env W" "catalogue_of env W lookup" "wireRepos env W = Inr (P, relay)"
    "envFloatOrDefault (bw_parseFloat W) env ''MAX_HOURS_PER_SHIFT'' (Fin 8) = Inr (dp_maxHours (h_UseCases h))"
    "h_Catalogue h = Some lookup" "dp_lookup (h_UseCases h) = Some lookup" "dp_ports (h_UseCases h) = P"
    "h_Readiness h = Some 0"
    "dp_capacity (h_UseCases h) = buildInstalledCapacityClient W
         (envOrDefault env ''INSTALLED_CAPACITY_MODE'' ''permissive'') (env ''FULFILLMENT_EXECUTION_BASE_URL'')"
    by (rule boot_ok [OF assms])
  have "env ''INSTALLED_CAPACITY_MODE'' = '''' \<Longrightarrow> dp_capacity (h_UseCases h) = fe_Permissive_InstalledCapacity"
    unfolding b(9) by (simp add: envOrDefault_def buildInstalledCapacityClient_def)
  moreover have "hs_Status (fst (handleReadyz h req)) = 200"
    unfolding handleReadyz_def b(8) by (simp add: gate_Ready_def writeJSON_def)
  ultimately show ?thesis using b(1,2,4,5,6,7) wireRepos_ok [OF b(3)] by blast
qed

definition demo_env :: "string \<Rightarrow> env" where
  "demo_env mx key = (if key = ''DATABASE_URL'' then ''postgres://db'' else if key = ''EVENT_PUBLISHER'' then ''kafka''
     else if key = ''MAX_HOURS_PER_SHIFT'' then mx else '''')"

definition demo_world :: "(pg, unit, unit) world" where
  "demo_world = \<lparr>bw_readFile = (\<lambda>_. Inr ''paths:''),
     bw_yaml = (\<lambda>_. Inr [\<lparr>yd_Id = ''pack'', yd_MatchPrefix = ''pack'', yd_Direct = True, yd_RequiredCapabilities = [''pack-station'']\<rparr>]),
     bw_uni = id, bw_catalogue = (\<lambda>_. oret ()), bw_catalogueReady = (\<lambda>_. oret ()),
     bw_catalogueLookup = (\<lambda>_ _. ofail (Sentinel ErrUnknownPath)), bw_rates = (\<lambda>_. oret ()), bw_ratesReady = (\<lambda>_. oret ()),
     bw_ratesMean = (\<lambda>_ _. ofail (Sentinel ErrMeasuredRateUnavailable)),
     bw_ratesIdle = (\<lambda>_ _. ofail (Sentinel ErrIdleShareUnavailable)),
     bw_laborPerformance = (\<lambda>_ _. ofail (Sentinel ErrMeasuredRateUnavailable)),
     bw_fulfillmentExecution = (\<lambda>_ _. oret 3), bw_migrate = (\<lambda>_ _. oret ()), bw_pool = (\<lambda>_. oret ()),
     bw_repos = demo_ports, bw_outbox = Publish demo_ports, bw_log = (\<lambda>_. oret ()), bw_uow = UnitOfWork_Execute,
     bw_telemetry = oret (), bw_parseFloat = (\<lambda>v. if v = ''NaN'' then Inr NaN else Inl (Other ''invalid syntax'')),
     bw_parseDuration = (\<lambda>_. Inl (Other ''invalid duration'')), bw_plat = (\<lambda>_. 0), bw_memory = demo_ports,
     bw_reports = (\<lambda>_. \<lparr>rc_GetLabor = (\<lambda>_. ofail (Other ''refused'')), rc_GetFreshness = ofail (Other ''refused'')\<rparr>),
     bw_readOnlyPool = (\<lambda>_. oret ()), bw_wait = (\<lambda>_. oret ())\<rparr>"

lemma Retry_oret: "Retry what (oret ()) wait s = (Inr (), s)"
  by (simp add: Retry_def RetryWithDelay_def retry_loop.simps)

lemma demo_boots:
  assumes "mx \<in> {'''', ''NaN''}"
  shows "\<exists>h relay. boot (demo_env mx) demo_world s = (Inr (h, relay), s)
    \<and> dp_maxHours (h_UseCases h) = (if mx = '''' then Fin 8 else NaN)"
  using assms
  by (auto simp: boot_def demo_world_def demo_env_def requireEnv_def envOrDefault_def envFloatOrDefault_def
      wireCatalogue_def filecatalog_Load_def openPostgresPool_def Retry_oret wireRepos_def newEventPublisher_def
      newOutboxPublisher_def newMeasuredRateClients_def newOLTPHandler_def op_simps obind_app)

lemma demo_boots_as:
  "\<exists>h relay. boot (demo_env '''') demo_world s = (Inr (h, relay), s) \<and> dp_maxHours (h_UseCases h) = Fin 8"
  "\<exists>h relay. boot (demo_env ''NaN'') demo_world s = (Inr (h, relay), s)"
  using demo_boots [of "''''" s] demo_boots [of "''NaN''" s] by simp_all blast

theorem boot_fails_closed_witness:
  "\<exists>h relay s. boot (demo_env '''') demo_world (demo_pg [] [] empty_db) = (Inr (h, relay), s)
    \<and> UnitOfWork (dp_ports (h_UseCases h)) = Some UnitOfWork_Execute \<and> dp_maxHours (h_UseCases h) = Fin 8"
proof -
  obtain h relay where b: "boot (demo_env '''') demo_world (demo_pg [] [] empty_db) = (Inr (h, relay), demo_pg [] [] empty_db)"
    "dp_maxHours (h_UseCases h) = Fin 8" using demo_boots_as(1) by blast
  moreover have "UnitOfWork (dp_ports (h_UseCases h)) = Some (bw_uow demo_world)"
    using boot_fails_closed [OF b(1)] by blast
  ultimately show ?thesis unfolding demo_world_def by auto
qed

text \<open>
  A limit of \<open>NaN\<close> boots, because \<open>strconv.ParseFloat\<close> accepts it and nothing checks it, and
  it lifts the limit: from then on no shift is ever refused hours for exceeding it.
\<close>

theorem nan_limit_lifts_limit:
  assumes "boot env W s = (Inr (h, relay), s')" "env ''MAX_HOURS_PER_SHIFT'' \<noteq> ''''"
    and "bw_parseFloat W (env ''MAX_HOURS_PER_SHIFT'') = Inr NaN"
  shows "LogHours a hours (dp_maxHours (h_UseCases h)) \<noteq> Inl (Sentinel ErrMaxHoursExceeded)"
proof -
  have "envFloatOrDefault (bw_parseFloat W) env ''MAX_HOURS_PER_SHIFT'' (Fin 8) = Inr (dp_maxHours (h_UseCases h))"
    by (rule boot_ok [OF assms(1)])
  then have "dp_maxHours (h_UseCases h) = NaN" unfolding envFloatOrDefault_ok using assms(2,3) by simp
  then show ?thesis by (simp add: LogHours_def)
qed

section \<open>The deployed composition\<close>

text \<open>A world whose repositories, outbox and unit of work are the Postgres adapters.\<close>

definition pg_world :: "sdk \<Rightarrow> (string \<times> string) list \<Rightarrow> (path_row list \<Rightarrow> path_row list) \<Rightarrow>
    (pg, 'c, 'm) world \<Rightarrow> (pg, 'c, 'm) world" where
  "pg_world k trace ord W = W\<lparr>bw_repos := pg_ports k trace ord,
     bw_outbox := OutboxPublisher_Publish (pg_encoders k trace ord), bw_uow := UnitOfWork_Execute\<rparr>"

text \<open>
  C25: with the outbox as its publisher, the file as its catalogue and the permissive peers, what
  boot serves on Postgres is the handler the theorems on the HTTP service are about, over the
  catalogue of the file; the relay runs beside it.
\<close>

theorem boot_serves_postgres:
  assumes "boot env (pg_world k trace ord W) s = (Inr (h, relay), s')"
    and "env ''EVENT_PUBLISHER'' = ''kafka''" "env ''PATH_CATALOGUE_SOURCE'' = ''''"
    and "env ''LABOR_PERFORMANCE_MODE'' = ''''" "env ''INSTALLED_CAPACITY_MODE'' = ''''"
  shows "\<exists>cat th. relay \<noteq> None
    \<and> filecatalog_Load (bw_readFile W) (bw_yaml W)
        (envOrDefault env ''PATH_CATALOGUE_FILE'' ''/etc/workforce-management/process-paths.yaml'') = Inr cat
    \<and> h = pg_handler k trace ord (Some (Lookup (bw_uni W) cat)) (\<lambda>_. Inl (Sentinel ErrInstalledCapacityUnavailable))
        (Some (\<lambda>_. Inl (Sentinel ErrMeasuredRateUnavailable))) None th (dp_maxHours (h_UseCases h)) (bw_plat W) (Some 0)"
proof -
  obtain url mx lookup P mr idle x s1 s2 s3 s4 s5 s6 where
    cat: "wireCatalogue env (pg_world k trace ord W) s1 = (Inr lookup, s2)" and
    repos: "wireRepos env (pg_world k trace ord W) = Inr (P, relay)" and
    rates: "newMeasuredRateClients env (pg_world k trace ord W) s5 = (Inr (mr, idle), s6)" and
    h: "newOLTPHandler env (pg_world k trace ord W) P mr idle mx lookup (Some 0) = Inr h"
    by (rule boot_parts [OF assms(1)])
  obtain cat where c: "filecatalog_Load (bw_readFile W) (bw_yaml W)
      (envOrDefault env ''PATH_CATALOGUE_FILE'' ''/etc/workforce-management/process-paths.yaml'') = Inr cat"
    "lookup = (\<lambda>p. olift (Lookup (bw_uni W) cat p))"
    using wireCatalogue_ok [OF cat] unfolding catalogue_of_def assms(3) by (auto simp: pg_world_def)
  have r: "mr = (\<lambda>_. olift (Inl (Sentinel ErrMeasuredRateUnavailable)))" "idle = None"
    using rates unfolding newMeasuredRateClients_def Let_def envOrDefault_def assms(4)
    by (auto simp: buildMeasuredRateClient_def lp_Permissive_MeanActualSeconds_def fun_eq_iff)
  have P: "P = pg_ports k trace ord" "relay \<noteq> None"
    using repos unfolding wireRepos_def newEventPublisher_def Let_def envOrDefault_def assms(2)
    by (auto simp: newOutboxPublisher_def pg_world_def pg_ports_def)
  have "buildInstalledCapacityClient (pg_world k trace ord W) (envOrDefault env ''INSTALLED_CAPACITY_MODE'' ''permissive'') b
      = (\<lambda>_. olift (Inl (Sentinel ErrInstalledCapacityUnavailable)))" for b
    unfolding envOrDefault_def assms(5)
    by (simp add: buildInstalledCapacityClient_def fe_Permissive_InstalledCapacity_def fun_eq_iff)
  then have "\<exists>th. h = pg_handler k trace ord (Some (Lookup (bw_uni W) cat)) (\<lambda>_. Inl (Sentinel ErrInstalledCapacityUnavailable))
        (Some (\<lambda>_. Inl (Sentinel ErrMeasuredRateUnavailable))) None th (dp_maxHours (h_UseCases h)) (bw_plat W) (Some 0)"
    using h unfolding newOLTPHandler_def Let_def c(2) r P(1)
    by (auto simp: map_sum_def http_handler_def pg_deps_def pg_world_def split: sum.splits)
  then show ?thesis using P(2) c(1) by blast
qed

lemma demo_world_pg: "pg_world demo_sdk [] (\<lambda>rs. rs) demo_world = demo_world"
  by (simp add: pg_world_def demo_world_def)

theorem boot_serves_postgres_witness:
  "\<exists>cat th h relay s. boot (demo_env '''') demo_world (demo_pg [] [] empty_db) = (Inr (h, relay), s)
    \<and> h = pg_handler demo_sdk [] (\<lambda>rs. rs) (Some (Lookup id cat)) (\<lambda>_. Inl (Sentinel ErrInstalledCapacityUnavailable))
        (Some (\<lambda>_. Inl (Sentinel ErrMeasuredRateUnavailable))) None th (dp_maxHours (h_UseCases h)) (\<lambda>_. 0) (Some 0)"
proof -
  obtain h relay where b: "boot (demo_env '''') demo_world (demo_pg [] [] empty_db) = (Inr (h, relay), demo_pg [] [] empty_db)"
    using demo_boots_as(1) by blast
  have e: "demo_env '''' ''EVENT_PUBLISHER'' = ''kafka''" "demo_env '''' ''PATH_CATALOGUE_SOURCE'' = ''''"
    "demo_env '''' ''LABOR_PERFORMANCE_MODE'' = ''''" "demo_env '''' ''INSTALLED_CAPACITY_MODE'' = ''''"
    by (simp_all add: demo_env_def)
  have w: "bw_uni demo_world = id" "bw_plat demo_world = (\<lambda>_. 0)" by (simp_all add: demo_world_def)
  have b': "boot (demo_env '''') (pg_world demo_sdk [] (\<lambda>rs. rs) demo_world) (demo_pg [] [] empty_db)
      = (Inr (h, relay), demo_pg [] [] empty_db)" unfolding demo_world_pg by (rule b)
  show ?thesis using boot_serves_postgres [OF b' e] b unfolding w by blast
qed

end
