(* ===== verification/Pools.thy ===== *)
theory Pools
  imports Boot
begin

text \<open>
  \<open>postgres/pool.go\<close>, \<open>postgres/migrate.go\<close> and \<open>analyticsstore/pool.go\<close>: how the pools are configured
  and opened, and how migrations run. pgxpool and golang-migrate are the records \<open>pgx\<close> and \<open>migrator\<close>
  of the calls the code makes; the query tracer and the pool's gauges are not modelled.
\<close>

section \<open>Configuration\<close>

text \<open>
  \<open>AfterConnect\<close> is a function of the new connection's \<open>Exec\<close>. A nil map of runtime parameters is None.
\<close>

record 's pool_config =
  pc_MaxConns :: int
  pc_RuntimeParams :: "(string \<rightharpoonup> string) option"
  pc_AfterConnect :: "(string \<Rightarrow> ('s, unit) op) \<Rightarrow> ('s, unit) op"

record ('s, 'p) pgx =
  px_ParseConfig :: "string \<Rightarrow> err + 's pool_config"
  px_NewWithConfig :: "'s pool_config \<Rightarrow> ('s, 'p) op"
  px_Ping :: "'p \<Rightarrow> ('s, unit) op"
  px_Close :: "'p \<Rightarrow> 's \<Rightarrow> 's"

definition quoted :: "string \<Rightarrow> string" where
  "quoted s = CHR 0x27 # s @ [CHR 0x27]"

definition set_statement_timeout :: "string \<Rightarrow> (string \<Rightarrow> ('s, unit) op) \<Rightarrow> ('s, unit) op" where
  "set_statement_timeout t exec = exec (''SET statement_timeout = '' @ quoted t)"

section \<open>The OLTP pool\<close>

definition MaxConns :: int where "MaxConns = 10"
definition StatementTimeout :: string where "StatementTimeout = ''5s''"

definition NewPoolWithLimits :: "('s, 'p) pgx \<Rightarrow> string \<Rightarrow> int \<Rightarrow> string \<Rightarrow> ('s, 'p) op" where
  "NewPoolWithLimits X databaseURL maxConns statementTimeout =
     (case px_ParseConfig X databaseURL of
        Inl e \<Rightarrow> ofail (Wrap ''postgres: parse config'' e)
      | Inr cfg \<Rightarrow>
          let cfg = cfg\<lparr>pc_MaxConns := maxConns, pc_AfterConnect := set_statement_timeout statementTimeout\<rparr> in
          ocatch (px_NewWithConfig X cfg) (\<lambda>r. case r of
              Inl e \<Rightarrow> ofail (Wrap ''postgres: open pool'' e)
            | Inr pool \<Rightarrow> ocatch (px_Ping X pool) (\<lambda>r. case r of
                  Inl e \<Rightarrow> (\<lambda>s. (Inl (Wrap ''postgres: ping'' e), px_Close X pool s))
                | Inr _ \<Rightarrow> oret pool)))"

definition NewPool :: "('s, 'p) pgx \<Rightarrow> string \<Rightarrow> ('s, 'p) op" where
  "NewPool X databaseURL = NewPoolWithLimits X databaseURL MaxConns StatementTimeout"

section \<open>The analytical pools\<close>

definition analytics_MaxConns :: int where "analytics_MaxConns = 5"
definition ReportsMaxConns :: int where "ReportsMaxConns = 5"
definition analytics_StatementTimeout :: string where "analytics_StatementTimeout = ''10s''"
definition ReportsStatementTimeout :: string where "ReportsStatementTimeout = ''15s''"

definition setRuntimeParam :: "string \<Rightarrow> string \<Rightarrow> 's pool_config \<Rightarrow> 's pool_config" where
  "setRuntimeParam k v cfg = cfg\<lparr>pc_RuntimeParams :=
     Some ((case pc_RuntimeParams cfg of None \<Rightarrow> Map.empty | Some m \<Rightarrow> m)(k \<mapsto> v))\<rparr>"

definition newPoolWithLimits :: "('s, 'p) pgx \<Rightarrow> string \<Rightarrow> int \<Rightarrow> string \<Rightarrow> bool \<Rightarrow> ('s, 'p) op" where
  "newPoolWithLimits X databaseURL maxConns statementTimeout readOnly =
     (case px_ParseConfig X databaseURL of
        Inl e \<Rightarrow> ofail e
      | Inr cfg \<Rightarrow>
          let cfg = cfg\<lparr>pc_MaxConns := maxConns\<rparr>;
              cfg = (if readOnly then setRuntimeParam ''default_transaction_read_only'' ''on'' cfg else cfg)
          in px_NewWithConfig X (cfg\<lparr>pc_AfterConnect := set_statement_timeout statementTimeout\<rparr>))"

definition analytics_NewPool :: "('s, 'p) pgx \<Rightarrow> string \<Rightarrow> ('s, 'p) op" where
  "analytics_NewPool X databaseURL = newPoolWithLimits X databaseURL analytics_MaxConns analytics_StatementTimeout False"

definition NewReadOnlyPool :: "('s, 'p) pgx \<Rightarrow> string \<Rightarrow> ('s, 'p) op" where
  "NewReadOnlyPool X databaseURL = newPoolWithLimits X databaseURL ReportsMaxConns ReportsStatementTimeout True"

section \<open>Migrations\<close>

text \<open>\<open>mg_NoChange\<close> is \<open>errors.Is(err, migrate.ErrNoChange)\<close>; the deferred \<open>Close\<close> ignores its errors.\<close>

record ('s, 'g) migrator =
  mg_New :: "string \<Rightarrow> string \<Rightarrow> ('s, 'g) op"
  mg_Up :: "'g \<Rightarrow> ('s, unit) op"
  mg_NoChange :: "err \<Rightarrow> bool"
  mg_Close :: "'g \<Rightarrow> 's \<Rightarrow> 's"

definition Migrate :: "('s, 'g) migrator \<Rightarrow> string \<Rightarrow> string \<Rightarrow> ('s, unit) op" where
  "Migrate G databaseURL migrationsPath =
     ocatch (mg_New G (''file://'' @ migrationsPath) databaseURL) (\<lambda>r. case r of
         Inl e \<Rightarrow> ofail (Wrap ''postgres: init migrator'' e)
       | Inr m \<Rightarrow> (\<lambda>s. case mg_Up G m s of
             (Inl e, s) \<Rightarrow> (if \<not> mg_NoChange G e then Inl (Wrap ''postgres: apply migrations'' e) else Inr (), mg_Close G m s)
           | (Inr _, s) \<Rightarrow> (Inr (), mg_Close G m s)))"

section \<open>Properties\<close>

text \<open>What every connection of a pool runs first, and what a read-only pool's connections default to.\<close>

lemma limits_applied:
  "NewPool X url s = (Inr pool, s') \<Longrightarrow> \<exists>cfg s0 s1. px_NewWithConfig X cfg s0 = (Inr pool, s1) \<and> pc_MaxConns cfg = 10
     \<and> (\<forall>exec. pc_AfterConnect cfg exec = exec (''SET statement_timeout = '' @ quoted ''5s'')) \<and> px_Ping X pool s1 = (Inr (), s')"
  by (auto simp: NewPool_def NewPoolWithLimits_def MaxConns_def StatementTimeout_def set_statement_timeout_def ocatch_app Let_def
      split: sum.splits prod.splits intro!: exI)

lemma read_only_pool:
  "NewReadOnlyPool X url s = (Inr pool, s') \<Longrightarrow> \<exists>cfg m. px_NewWithConfig X cfg s = (Inr pool, s') \<and> pc_MaxConns cfg = 5
     \<and> pc_RuntimeParams cfg = Some m \<and> m ''default_transaction_read_only'' = Some ''on''
     \<and> (\<forall>exec. pc_AfterConnect cfg exec = exec (''SET statement_timeout = '' @ quoted ''15s''))"
  by (auto simp: NewReadOnlyPool_def newPoolWithLimits_def ReportsMaxConns_def ReportsStatementTimeout_def setRuntimeParam_def
      set_statement_timeout_def Let_def split: sum.splits intro!: exI)

text \<open>
  No pool is left behind: with \<open>opened\<close> counting the open pools, a failed \<open>NewPool\<close> has closed what it
  opened, also when the database does not answer the ping.
\<close>

lemma NewPool_leaks_none:
  assumes "\<And>cfg s r s'. px_NewWithConfig X cfg s = (r, s') \<Longrightarrow> opened s' = opened s + (case r of Inl _ \<Rightarrow> 0 | Inr _ \<Rightarrow> (1 :: int))"
    and "\<And>p s r s'. px_Ping X p s = (r, s') \<Longrightarrow> opened s' = opened s" "\<And>p s. opened (px_Close X p s) = opened s - 1"
    and "NewPool X url s = (r, s')"
  shows "opened s' = opened s + (case r of Inl _ \<Rightarrow> 0 | Inr _ \<Rightarrow> 1)"
proof (cases "px_ParseConfig X url")
  case (Inl e)
  then show ?thesis using assms(4) by (auto simp: NewPool_def NewPoolWithLimits_def)
next
  case (Inr cfg)
  let ?cfg = "cfg\<lparr>pc_MaxConns := MaxConns, pc_AfterConnect := set_statement_timeout StatementTimeout\<rparr>"
  obtain q s1 where q: "px_NewWithConfig X ?cfg s = (q, s1)" by fastforce
  show ?thesis
  proof (cases q)
    case (Inl e)
    then show ?thesis using assms(1) [OF q] assms(4) q Inr by (auto simp: NewPool_def NewPoolWithLimits_def ocatch_app Let_def)
  next
    case pool: (Inr p)
    obtain u s2 where u: "px_Ping X p s1 = (u, s2)" by fastforce
    show ?thesis
      using assms(1) [OF q] assms(2) [OF u] assms(3) [of p s2] assms(4) q u Inr pool
      by (cases u) (auto simp: NewPool_def NewPoolWithLimits_def ocatch_app Let_def)
  qed
qed

lemma Migrate_closes:
  assumes "\<And>p u s r s'. mg_New G p u s = (r, s') \<Longrightarrow> opened s' = opened s + (case r of Inl _ \<Rightarrow> 0 | Inr _ \<Rightarrow> (1 :: int))"
    and "\<And>m s r s'. mg_Up G m s = (r, s') \<Longrightarrow> opened s' = opened s" "\<And>m s. opened (mg_Close G m s) = opened s - 1"
    and "Migrate G url path s = (r, s')"
  shows "opened s' = opened s"
proof -
  obtain q s1 where q: "mg_New G (''file://'' @ path) url s = (q, s1)" by fastforce
  show ?thesis
  proof (cases q)
    case (Inl e)
    then show ?thesis using assms(1) [OF q] assms(4) q by (auto simp: Migrate_def ocatch_app)
  next
    case (Inr m)
    obtain u s2 where u: "mg_Up G m s1 = (u, s2)" by fastforce
    show ?thesis
      using assms(1) [OF q] assms(2) [OF u] assms(3) [of m s2] assms(4) q u Inr
      by (cases u) (auto simp: Migrate_def ocatch_app)
  qed
qed

text \<open>
  Only the OLTP pool is tried at boot. pgxpool opens no connection in \<open>NewWithConfig\<close> (\<open>lazy\<close>), so when the
  database answers no ping, the service and the MCP server do not boot, but the reports server does:
  its pool is never pinged, and the retry around it has nothing to retry.
\<close>

theorem only_oltp_pool_is_tried:
  assumes lazy: "\<And>cfg s. \<exists>p. px_NewWithConfig X cfg s = (Inr p, s)"
    and down: "\<And>p s r s'. px_Ping X p s = (r, s') \<Longrightarrow> r \<noteq> Inr ()"
    and parse: "px_ParseConfig X (env ''ANALYTICS_DATABASE_URL'') = Inr cfg" "env ''ANALYTICS_DATABASE_URL'' \<noteq> ''''"
    and W: "bw_pool W = (\<lambda>url. done_with (NewPool X url))" "bw_readOnlyPool W = (\<lambda>url. done_with (NewReadOnlyPool X url))"
    and tel: "bw_telemetry W s = (t, s1)"
  shows "reports_boot env W s = (Inr (), s1) \<and> openPostgresPool W url murl path s0 \<noteq> (Inr (), s')"
proof
  have "done_with (NewReadOnlyPool X (env ''ANALYTICS_DATABASE_URL'')) s1 = (Inr (), s1)"
  proof -
    obtain p where "NewReadOnlyPool X (env ''ANALYTICS_DATABASE_URL'') s1 = (Inr p, s1)"
      using lazy parse(1) by (auto simp: NewReadOnlyPool_def newPoolWithLimits_def Let_def)
    then show ?thesis by (simp add: done_with_def obind_app)
  qed
  then have "Retry ''open read-only analytics postgres pool'' (bw_readOnlyPool W (env ''ANALYTICS_DATABASE_URL'')) (bw_wait W) s1 = (Inr (), s1)"
    by (simp add: W(2) Retry_def RetryWithDelay_def retry_loop.simps)
  then show "reports_boot env W s = (Inr (), s1)" using parse(2) tel by (simp add: reports_boot_def ocatch_app Let_def)
next
  have n: "NewPool X u t \<noteq> (Inr p, t')" for u t p t'
    using limits_applied [of X u t p t'] down by fastforce
  show "openPostgresPool W url murl path s0 \<noteq> (Inr (), s')"
  proof
    assume "openPostgresPool W url murl path s0 = (Inr (), s')"
    then obtain s1 where "done_with (NewPool X url) s1 = (Inr (), s')"
      using Retry_ok unfolding openPostgresPool_def obind_ok W(1) by metis
    then obtain a where "NewPool X url s1 = (Inr a, s')" by (auto dest: done_with_Inr)
    then show False using n by simp
  qed
qed

end
