(* ===== verification/Telemetry.thy ===== *)
theory Telemetry
  imports Boot Clients
begin

text \<open>
  \<open>adapters/outbound/telemetry\<close> and the request log of \<open>inbound/http/logging.go\<close>: what \<open>Setup\<close> starts and, when
  a step fails, takes down again; the resource attributes; the handler that stamps log records with
  their trace; the circuit breakers' gauge. OpenTelemetry's constructors, exporters and log/slog's
  handlers are parameters.
\<close>

section \<open>Setup\<close>

type_synonym attrs = "(string \<times> string) list"

text \<open>
  \<open>ot_Merge\<close> merges the default resource with the given attributes; \<open>ot_SetGlobals\<close> installs both providers and
  the propagator.
\<close>

record ('s, 'x, 'p) otel =
  ot_Merge :: "attrs \<Rightarrow> err + attrs"
  ot_TraceExporter :: "string \<Rightarrow> ('s, 'x) op"
  ot_NewTracerProvider :: "'x \<Rightarrow> attrs \<Rightarrow> 's \<Rightarrow> 'p \<times> 's"
  ot_MetricExporter :: "string \<Rightarrow> ('s, 'x) op"
  ot_NewMeterProvider :: "'x \<Rightarrow> attrs \<Rightarrow> duration \<Rightarrow> 's \<Rightarrow> 'p \<times> 's"
  ot_SetGlobals :: "'p \<Rightarrow> 'p \<Rightarrow> 's \<Rightarrow> 's"
  ot_RuntimeStart :: "'p \<Rightarrow> ('s, unit) op"
  ot_Shutdown :: "'p \<Rightarrow> ('s, unit) op"

definition DefaultOTLPEndpoint :: string where "DefaultOTLPEndpoint = ''localhost:4317''"
definition defaultEnvironment :: string where "defaultEnvironment = ''local''"
definition metricExportInterval :: duration where "metricExportInterval = 30 * second_ns"

definition Environment :: "env \<Rightarrow> string" where
  "Environment env = (if env ''ENVIRONMENT'' \<noteq> '''' then env ''ENVIRONMENT'' else defaultEnvironment)"

definition newResource :: "env \<Rightarrow> ('s, 'x, 'p) otel \<Rightarrow> string \<Rightarrow> string \<Rightarrow> err + attrs" where
  "newResource env T serviceName sdkVersion =
     ot_Merge T [(''service.name'', serviceName), (''service.version'', sdkVersion),
       (''deployment.environment.name'', Environment env)]"

text \<open>\<open>errors.Join\<close>: nil when every error is.\<close>

definition errors_Join :: "err option list \<Rightarrow> err option" where
  "errors_Join es = (case List.map_filter id es of [] \<Rightarrow> None | es \<Rightarrow> Some (Joined es))"

definition nil_err :: "err + unit \<Rightarrow> err option" where
  "nil_err r = (case r of Inl e \<Rightarrow> Some e | Inr _ \<Rightarrow> None)"

definition shutdown_both :: "('s, 'x, 'p) otel \<Rightarrow> 'p \<Rightarrow> 'p \<Rightarrow> ('s, unit) op" where
  "shutdown_both T tracer meter s =
     (case ot_Shutdown T tracer s of (r1, s) \<Rightarrow> case ot_Shutdown T meter s of (r2, s) \<Rightarrow>
        (case errors_Join [nil_err r1, nil_err r2] of None \<Rightarrow> Inr () | Some e \<Rightarrow> Inl e, s))"

text \<open>The result is the shutdown function.\<close>

definition Setup :: "env \<Rightarrow> ('s, 'x, 'p) otel \<Rightarrow> string \<Rightarrow> string \<Rightarrow> string \<Rightarrow> ('s, ('s, unit) op) op" where
  "Setup env T serviceName sdkVersion otlpEndpoint =
     (let endpoint = (if otlpEndpoint = '''' then DefaultOTLPEndpoint else otlpEndpoint) in
      case newResource env T serviceName sdkVersion of
        Inl e \<Rightarrow> ofail e
      | Inr res \<Rightarrow> obind (ot_TraceExporter T endpoint) (\<lambda>traceExporter s.
          case ot_NewTracerProvider T traceExporter res s of (tracer, s) \<Rightarrow>
            (case ot_MetricExporter T endpoint s of
               (Inl e, s) \<Rightarrow> (case ot_Shutdown T tracer s of (r, s) \<Rightarrow>
                  (Inl (the (errors_Join [Some e, nil_err r])), s))
             | (Inr metricExporter, s) \<Rightarrow>
                 (case ot_NewMeterProvider T metricExporter res metricExportInterval s of (meter, s) \<Rightarrow>
                    case ot_RuntimeStart T meter (ot_SetGlobals T tracer meter s) of
                      (Inl e, s) \<Rightarrow> (case ot_Shutdown T tracer s of (r1, s) \<Rightarrow> case ot_Shutdown T meter s of (r2, s) \<Rightarrow>
                        (Inl (the (errors_Join [Some e, nil_err r1, nil_err r2])), s))
                    | (Inr _, s) \<Rightarrow> (Inr (shutdown_both T tracer meter), s)))))"

text \<open>
  \<open>running\<close> counts the providers running: the constructors start one each, \<open>Shutdown\<close> stops one whatever it
  returns, nothing else changes it.
\<close>

definition providers :: "('s, 'x, 'p) otel \<Rightarrow> ('s \<Rightarrow> int) \<Rightarrow> bool" where
  "providers T running \<longleftrightarrow>
     (\<forall>u s r s'. ot_TraceExporter T u s = (r, s') \<longrightarrow> running s' = running s)
     \<and> (\<forall>u s r s'. ot_MetricExporter T u s = (r, s') \<longrightarrow> running s' = running s)
     \<and> (\<forall>x a s p s'. ot_NewTracerProvider T x a s = (p, s') \<longrightarrow> running s' = running s + 1)
     \<and> (\<forall>x a d s p s'. ot_NewMeterProvider T x a d s = (p, s') \<longrightarrow> running s' = running s + 1)
     \<and> (\<forall>p q s. running (ot_SetGlobals T p q s) = running s)
     \<and> (\<forall>p s r s'. ot_RuntimeStart T p s = (r, s') \<longrightarrow> running s' = running s)
     \<and> (\<forall>p s r s'. ot_Shutdown T p s = (r, s') \<longrightarrow> running s' = running s - 1)"

lemma shutdown_stops_both: "providers T running \<Longrightarrow> shutdown_both T p q s = (r, s') \<Longrightarrow> running s' = running s - 2"
  by (fastforce simp: shutdown_both_def providers_def split: prod.splits)

theorem Setup_unwinds:
  assumes "providers T running" "Setup env T name v endpoint s = (r, s')"
  shows "case r of
      Inl _ \<Rightarrow> running s' = running s
    | Inr shutdown \<Rightarrow> running s' = running s + 2 \<and> (\<forall>t q t'. shutdown t = (q, t') \<longrightarrow> running t' = running t - 2)"
proof (cases "newResource env T name v")
  case (Inl e)
  then show ?thesis using assms(2) by (auto simp: Setup_def)
next
  case (Inr res)
  let ?u = "if endpoint = '''' then DefaultOTLPEndpoint else endpoint"
  obtain x s1 where x: "ot_TraceExporter T ?u s = (x, s1)" by fastforce
  show ?thesis
  proof (cases x)
    case (Inl e)
    have "running s1 = running s" using assms(1) x by (auto simp: providers_def)
    then show ?thesis using assms(2) x Inr Inl by (auto simp: Setup_def obind_app Let_def)
  next
    case te: (Inr te)
    obtain tp s2 where tp: "ot_NewTracerProvider T te res s1 = (tp, s2)" by fastforce
    obtain y s3 where y: "ot_MetricExporter T ?u s2 = (y, s3)" by fastforce
    have 3: "running s3 = running s + 1" using assms(1) x tp y by (auto simp: providers_def)
    show ?thesis
    proof (cases y)
      case (Inl e)
      obtain q s4 where q: "ot_Shutdown T tp s3 = (q, s4)" by fastforce
      then have "running s4 = running s" using assms(1) 3 by (auto simp: providers_def)
      then show ?thesis using assms(2) x Inr te tp y q Inl by (auto simp: Setup_def obind_app Let_def)
    next
      case me: (Inr me)
      obtain mp s4 where mp: "ot_NewMeterProvider T me res metricExportInterval s3 = (mp, s4)" by fastforce
      obtain g s5 where g: "ot_RuntimeStart T mp (ot_SetGlobals T tp mp s4) = (g, s5)" by fastforce
      have 5: "running s5 = running s + 2" using assms(1) 3 mp g by (auto simp: providers_def)
      show ?thesis
      proof (cases g)
        case (Inl e)
        obtain q s6 where q: "ot_Shutdown T tp s5 = (q, s6)" by fastforce
        obtain q' s7 where q': "ot_Shutdown T mp s6 = (q', s7)" by fastforce
        have "running s7 = running s" using assms(1) 5 q q' by (auto simp: providers_def)
        then show ?thesis using assms(2) x Inr te tp y me mp g Inl q q' by (auto simp: Setup_def obind_app Let_def)
      next
        case (Inr z)
        then have "r = Inr (shutdown_both T tp mp)" "s' = s5"
          using assms(2) x \<open>newResource env T name v = Inr res\<close> te tp y me mp g by (auto simp: Setup_def obind_app Let_def)
        then show ?thesis using 5 shutdown_stops_both [OF assms(1)] by auto
      qed
    qed
  qed
qed

section \<open>The trace handler\<close>

text \<open>
  A log/slog handler, by its operations on its own states \<open>'h\<close>. The span context of the logging call is None
  when it is not valid.
\<close>

datatype attr = AString string | AInt int

record slog_record =
  lr_Level :: log_level
  lr_Message :: string
  lr_Attrs :: "(string \<times> attr) list"

record span_context =
  sc_TraceID :: string
  sc_SpanID :: string

record ('h, 's) slog_handler =
  sl_Enabled :: "'h \<Rightarrow> log_level \<Rightarrow> bool"
  sl_Handle :: "'h \<Rightarrow> span_context option \<Rightarrow> slog_record \<Rightarrow> ('s, unit) op"
  sl_WithAttrs :: "'h \<Rightarrow> (string \<times> attr) list \<Rightarrow> 'h"
  sl_WithGroup :: "'h \<Rightarrow> string \<Rightarrow> 'h"

definition traceIDKey :: string where "traceIDKey = ''trace_id''"
definition spanIDKey :: string where "spanIDKey = ''span_id''"

definition TraceHandler_Handle ::
  "('h, 's) slog_handler \<Rightarrow> 'h \<Rightarrow> span_context option \<Rightarrow> slog_record \<Rightarrow> ('s, unit) op" where
  "TraceHandler_Handle inner h ctx record = sl_Handle inner h ctx (case ctx of
       Some sc \<Rightarrow> record\<lparr>lr_Attrs := lr_Attrs record @ [(traceIDKey, AString (sc_TraceID sc)), (spanIDKey, AString (sc_SpanID sc))]\<rparr>
     | None \<Rightarrow> record)"

text \<open>A \<open>TraceHandler\<close> is its inner handler; the wrapped results of \<open>WithAttrs\<close> and \<open>WithGroup\<close> are again one.\<close>

definition NewTraceHandler :: "('h, 's) slog_handler \<Rightarrow> ('h, 's) slog_handler" where
  "NewTraceHandler inner = \<lparr>sl_Enabled = sl_Enabled inner, sl_Handle = TraceHandler_Handle inner,
     sl_WithAttrs = sl_WithAttrs inner, sl_WithGroup = sl_WithGroup inner\<rparr>"

section \<open>The request log\<close>

text \<open>\<open>InfoContext\<close> and \<open>ErrorContext\<close>: the handler's error is dropped.\<close>

definition log_context ::
  "('h, 's) slog_handler \<Rightarrow> 'h \<Rightarrow> span_context option \<Rightarrow> log_level \<Rightarrow> string \<Rightarrow> (string \<times> attr) list \<Rightarrow> 's \<Rightarrow> 's" where
  "log_context L h ctx level msg attrs s =
     (if sl_Enabled L h level then snd (sl_Handle L h ctx \<lparr>lr_Level = level, lr_Message = msg, lr_Attrs = attrs\<rparr> s) else s)"

text \<open>What the middleware sees of a request, and of its response once \<open>next\<close> has served it.\<close>

record logged_request =
  lq_Method :: string
  lq_Path :: string
  lq_RequestID :: string

record logged_response =
  lp_Status :: int
  lp_Bytes :: int
  lp_Route :: string

definition RequestLogger ::
  "('h, 's) slog_handler \<Rightarrow> 'h \<Rightarrow> span_context option \<Rightarrow> ('s \<Rightarrow> time) \<Rightarrow> ('s \<Rightarrow> logged_response \<times> 's) \<Rightarrow> logged_request \<Rightarrow>
     's \<Rightarrow> logged_response \<times> 's" where
  "RequestLogger L h ctx now serve_next r s =
     (let start = now s in
      case serve_next s of (ww, s') \<Rightarrow>
        let attrs = [(''method'', AString (lq_Method r)), (''path'', AString (sanitizeForLog (lq_Path r))),
              (''route'', AString (lp_Route ww)), (''status'', AInt (lp_Status ww)),
              (''duration_ms'', AInt (go_quot (time_Sub (now s') start) 1000000)),
              (''bytes'', AInt (lp_Bytes ww)), (''request_id'', AString (lq_RequestID r))];
            level = (if lp_Status ww \<ge> 500 then LevelError else LevelInfo)
        in (ww, log_context L h ctx level ''http request'' attrs s'))"

text \<open>A handler that keeps what it is given, at a least level.\<close>

fun level_rank :: "log_level \<Rightarrow> int" where
  "level_rank LevelDebug = -4"
| "level_rank LevelInfo = 0"
| "level_rank LevelWarn = 4"
| "level_rank LevelError = 8"

definition keeping :: "(log_level, slog_record list) slog_handler" where
  "keeping = \<lparr>sl_Enabled = (\<lambda>h l. level_rank h \<le> level_rank l), sl_Handle = (\<lambda>_ _ r s. (Inr (), s @ [r])),
     sl_WithAttrs = (\<lambda>h _. h), sl_WithGroup = (\<lambda>h _. h)\<rparr>"

lemma line_breaks: "char_of (10 :: nat) = CHR 0x0A" "char_of (13 :: nat) = CHR 0x0D"
  by code_simp+

lemma sanitized: "CHR 0x0A \<notin> set (sanitizeForLog s) \<and> CHR 0x0D \<notin> set (sanitizeForLog s)"
  by (simp add: sanitizeForLog_def line_breaks)

text \<open>
  A request served without touching the log leaves, at a level the logger keeps, exactly one record: no line of
  it can be forged through the path, it is an error exactly for a 5xx, and it carries the trace it belongs to
  exactly when there is one.
\<close>

theorem request_logged_once:
  assumes "serve_next s = (ww, s)" "level_rank lvl \<le> level_rank (if lp_Status ww \<ge> 500 then LevelError else LevelInfo)"
  shows "\<exists>rec p. RequestLogger (NewTraceHandler keeping) lvl ctx now serve_next r s = (ww, s @ [rec])
    \<and> (lr_Level rec = LevelError \<longleftrightarrow> lp_Status ww \<ge> 500)
    \<and> map_of (lr_Attrs rec) ''path'' = Some (AString p) \<and> CHR 0x0A \<notin> set p \<and> CHR 0x0D \<notin> set p
    \<and> map_of (lr_Attrs rec) ''trace_id'' = map_option (\<lambda>sc. AString (sc_TraceID sc)) ctx
    \<and> map_of (lr_Attrs rec) ''span_id'' = map_option (\<lambda>sc. AString (sc_SpanID sc)) ctx"
  using assms sanitized [of "lq_Path r"]
  by (cases ctx) (auto simp: RequestLogger_def log_context_def NewTraceHandler_def TraceHandler_Handle_def keeping_def
      traceIDKey_def spanIDKey_def Let_def)

section \<open>The circuit breakers' gauge\<close>

text \<open>The gauge keeps, per attribute set, the last value recorded.\<close>

type_synonym gauge = "string \<rightharpoonup> int"

definition SetState :: "gauge recorder" where
  "SetState dependency state g = g(dependency \<mapsto> state)"

text \<open>The gauge shows the state each breaker last changed to, by gobreaker's number; the two do not mix.\<close>

lemma gauge_last:
  assumes "dep \<noteq> dep'"
  shows "RecordStateChange dep (Some SetState) name from_state to_state g dep = Some (state_num to_state)"
    and "RecordStateChange dep (Some SetState) name from_state to_state g dep' = g dep'"
  using assms by (simp_all add: RecordStateChange_def SetState_def)

end
