(* ===== verification/Serve.thy ===== *)
theory Serve
  imports HttpApi Projector "HOL-Library.Sublist"
begin

text \<open>
  The life of a booted process. \<open>serveWorkforce\<close> and the calls \<open>run\<close> has deferred (\<open>cmd/workforce/main.go\<close>) as a
  step relation: the main goroutine's statements are \<open>main_step\<close>; what the HTTP server, the requests in flight, the
  outbox relay, the consumers' goroutines, the lag gauge, the libraries main waits for and the clock do meanwhile is
  \<open>env_step\<close>; the two interleave freely until main returns.
  The life of \<open>cmd/workforce-projector\<close> follows. \<open>http.Server\<close> is the standard library's: \<open>Shutdown\<close>
  closes the listener, then waits for the requests in flight or for its context. The \<open>Close\<close> of a kafka-go
  reader or writer and the telemetry flush are calls that return when \<open>answers\<close> says so; pgxpool's \<open>Close\<close>
  refuses new connections and waits for those handed out.
\<close>

section \<open>The OLTP service\<close>

text \<open>The calls deferred by \<open>serveWorkforce\<close> and by \<open>run\<close>, in the order they then run (\<open>ClosePool\<close> and \<open>AwaitConnections\<close> are one).\<close>

datatype deferred_call =
    CancelShutdownCtx | StopRelay | CancelRateConsumer | CloseRepos | ClosePool | AwaitConnections
  | CancelCatalogueConsumer | FlushTelemetry

definition defers :: "deferred_call list" where
  "defers = [StopRelay, CancelRateConsumer, CloseRepos, ClosePool, AwaitConnections, CancelCatalogueConsumer, FlushTelemetry]"

text \<open>The statement the main goroutine is at; \<open>Returning\<close>: it runs the deferred calls, its result fixed.\<close>

datatype main_at =
    AtSelect | AtCancelCatalogue | AtCloseCatalogue | AtCancelRates | AtCloseRates | AtWithTimeout | AtShutdown | AtDrain
  | AtStopRelay "err option" | AtAwaitRelay "err option" | Returning "deferred_call list" "err option" | Returned "err option"

text \<open>
  \<open>wp_outbox\<close> counts the committed rows not yet published. \<open>wp_tenSeconds\<close> is \<open>shutdownCtx\<close>: None before it is made,
  then whether its ten seconds have passed; \<open>wp_flushLate\<close> says so of the flush's five. \<open>wp_kafka\<close>: the publisher
  is Kafka's, so there are a relay, writers and the gauge; without it \<open>relayDone\<close> starts closed. \<open>wp_catalogue\<close> and \<open>wp_rates\<close>
  are the Kafka sources of the catalogue and the rates, if configured, and whether their goroutine still runs.
\<close>

record workforce_proc =
  wp_at :: main_at
  wp_gate :: Readiness
  wp_serverErr :: "err option"
  wp_listening :: bool
  wp_inflight :: nat
  wp_kafka :: bool
  wp_catalogue :: "bool option"
  wp_rates :: "bool option"
  wp_catalogueCtx :: bool
  wp_ratesCtx :: bool
  wp_outbox :: nat
  wp_relayCtx :: bool
  wp_relayDone :: bool
  wp_poolClosed :: bool
  wp_requestConns :: nat
  wp_relayConn :: bool
  wp_gaugeConn :: bool
  wp_answered :: bool
  wp_tenSeconds :: "bool option"
  wp_flushLate :: bool

definition proc_start :: "bool \<Rightarrow> bool option \<Rightarrow> bool option \<Rightarrow> workforce_proc" where
  "proc_start kafka catalogue rates = \<lparr>wp_at = AtSelect, wp_gate = Some 0, wp_serverErr = None, wp_listening = True, wp_inflight = 0,
     wp_kafka = kafka, wp_catalogue = catalogue, wp_rates = rates, wp_catalogueCtx = True, wp_ratesCtx = True,
     wp_outbox = 0, wp_relayCtx = True, wp_relayDone = (\<not> kafka), wp_poolClosed = False, wp_requestConns = 0,
     wp_relayConn = False, wp_gaugeConn = False, wp_answered = False, wp_tenSeconds = None, wp_flushLate = False\<rparr>"

definition ErrServerClosed :: err where "ErrServerClosed = Other ''http: Server closed''"

text \<open>
  At the select, \<open>ListenAndServe\<close>'s error makes \<open>serveWorkforce\<close> return it, with the gate as it is; a signal starts the
  shutdown, whose first statement flips the gate. \<open>Shutdown\<close> answers, once idle, whatever closing the listener did (\<open>lnerr\<close>).
\<close>

inductive main_step :: "workforce_proc \<Rightarrow> workforce_proc \<Rightarrow> bool" where
  listener_failed: "wp_at p = AtSelect \<Longrightarrow> wp_serverErr p = Some e \<Longrightarrow>
    main_step p (p\<lparr>wp_at := Returning defers (if e = ErrServerClosed then None else Some e)\<rparr>)"
| signalled: "wp_at p = AtSelect \<Longrightarrow> main_step p (p\<lparr>wp_at := AtCancelCatalogue, wp_gate := SetNotReady (wp_gate p)\<rparr>)"
| cancel_catalogue: "wp_at p = AtCancelCatalogue \<Longrightarrow> main_step p (p\<lparr>wp_at := AtCloseCatalogue, wp_catalogueCtx := False\<rparr>)"
| close_catalogue: "wp_at p = AtCloseCatalogue \<Longrightarrow> wp_catalogue p = None \<or> wp_answered p \<Longrightarrow>
    main_step p (p\<lparr>wp_at := AtCancelRates, wp_answered := False\<rparr>)"
| cancel_rates: "wp_at p = AtCancelRates \<Longrightarrow> main_step p (p\<lparr>wp_at := AtCloseRates, wp_ratesCtx := False\<rparr>)"
| close_rates: "wp_at p = AtCloseRates \<Longrightarrow> wp_rates p = None \<or> wp_answered p \<Longrightarrow>
    main_step p (p\<lparr>wp_at := AtWithTimeout, wp_answered := False\<rparr>)"
| with_timeout: "wp_at p = AtWithTimeout \<Longrightarrow> main_step p (p\<lparr>wp_at := AtShutdown, wp_tenSeconds := Some False\<rparr>)"
| close_listener: "wp_at p = AtShutdown \<Longrightarrow> main_step p (p\<lparr>wp_at := AtDrain, wp_listening := False\<rparr>)"
| drained: "wp_at p = AtDrain \<Longrightarrow> wp_inflight p = 0 \<Longrightarrow> main_step p (p\<lparr>wp_at := AtStopRelay lnerr\<rparr>)"
| drain_timeout: "wp_at p = AtDrain \<Longrightarrow> wp_tenSeconds p = Some True \<Longrightarrow>
    main_step p (p\<lparr>wp_at := AtStopRelay (Some (Sentinel DeadlineExceeded))\<rparr>)"
| stop_relay: "wp_at p = AtStopRelay err \<Longrightarrow> main_step p (p\<lparr>wp_at := AtAwaitRelay err, wp_relayCtx := False\<rparr>)"
| relay_joined: "wp_at p = AtAwaitRelay err \<Longrightarrow> wp_relayDone p \<or> wp_tenSeconds p = Some True \<Longrightarrow>
    main_step p (p\<lparr>wp_at := Returning (CancelShutdownCtx # defers) err\<rparr>)"
| cancel_shutdown: "wp_at p = Returning (CancelShutdownCtx # ds) err \<Longrightarrow> main_step p (p\<lparr>wp_at := Returning ds err\<rparr>)"
| stop_relay_deferred: "wp_at p = Returning (StopRelay # ds) err \<Longrightarrow>
    main_step p (p\<lparr>wp_at := Returning ds err, wp_relayCtx := False\<rparr>)"
| cancel_rates_deferred: "wp_at p = Returning (CancelRateConsumer # ds) err \<Longrightarrow>
    main_step p (p\<lparr>wp_at := Returning ds err, wp_ratesCtx := False\<rparr>)"
| close_repos: "wp_at p = Returning (CloseRepos # ds) err \<Longrightarrow> \<not> wp_kafka p \<or> wp_answered p \<Longrightarrow>
    main_step p (p\<lparr>wp_at := Returning ds err, wp_answered := False\<rparr>)"
| close_pool: "wp_at p = Returning (ClosePool # ds) err \<Longrightarrow> main_step p (p\<lparr>wp_at := Returning ds err, wp_poolClosed := True\<rparr>)"
| pool_closed: "wp_at p = Returning (AwaitConnections # ds) err \<Longrightarrow>
    wp_requestConns p = 0 \<and> \<not> wp_relayConn p \<and> \<not> wp_gaugeConn p \<Longrightarrow> main_step p (p\<lparr>wp_at := Returning ds err\<rparr>)"
| cancel_catalogue_deferred: "wp_at p = Returning (CancelCatalogueConsumer # ds) err \<Longrightarrow>
    main_step p (p\<lparr>wp_at := Returning ds err, wp_catalogueCtx := False\<rparr>)"
| flush_telemetry: "wp_at p = Returning (FlushTelemetry # ds) err \<Longrightarrow> wp_answered p \<or> wp_flushLate p \<Longrightarrow>
    main_step p (p\<lparr>wp_at := Returning ds err, wp_answered := False\<rparr>)"
| returned: "wp_at p = Returning [] err \<Longrightarrow> main_step p (p\<lparr>wp_at := Returned err\<rparr>)"

text \<open>
  The listener may fail while it is open. A request may be accepted while it is open; it holds at most one
  connection at a time and commits its rows before it is done. A relay pass begins with a connection and its context live, and
  ends having published some of the outbox; \<open>Run\<close> sees the cancelled context between passes and closes
  \<open>relayDone\<close> (its \<open>context.Canceled\<close> is not reported). A consumer's \<open>Run\<close> ends when its context is cancelled, or by itself with an error, which is
  only logged. The gauge's callback, too, takes a connection for its query, until \<open>closeRepos\<close> has unregistered it.
\<close>

definition gauge_registered :: "workforce_proc \<Rightarrow> bool" where
  "gauge_registered p \<longleftrightarrow> wp_kafka p \<and> (case wp_at p of Returning ds _ \<Rightarrow> CloseRepos \<in> set ds | _ \<Rightarrow> True)"

inductive env_step :: "workforce_proc \<Rightarrow> workforce_proc \<Rightarrow> bool" where
  listen_error: "wp_listening p \<Longrightarrow> env_step p (p\<lparr>wp_listening := False, wp_serverErr := Some e\<rparr>)"
| accept: "wp_listening p \<Longrightarrow> env_step p (p\<lparr>wp_inflight := Suc (wp_inflight p)\<rparr>)"
| request_begins: "wp_requestConns p < wp_inflight p \<Longrightarrow> \<not> wp_poolClosed p \<Longrightarrow>
    env_step p (p\<lparr>wp_requestConns := Suc (wp_requestConns p)\<rparr>)"
| request_commits: "wp_requestConns p = Suc n \<Longrightarrow> env_step p (p\<lparr>wp_requestConns := n, wp_outbox := wp_outbox p + rows\<rparr>)"
| request_done: "wp_inflight p = Suc n \<Longrightarrow> wp_requestConns p \<le> n \<Longrightarrow> env_step p (p\<lparr>wp_inflight := n\<rparr>)"
| pass_begins: "\<not> wp_relayDone p \<Longrightarrow> \<not> wp_relayConn p \<Longrightarrow> wp_relayCtx p \<Longrightarrow> \<not> wp_poolClosed p \<Longrightarrow>
    env_step p (p\<lparr>wp_relayConn := True\<rparr>)"
| pass_ends: "wp_relayConn p \<Longrightarrow> sent \<le> wp_outbox p \<Longrightarrow> env_step p (p\<lparr>wp_relayConn := False, wp_outbox := wp_outbox p - sent\<rparr>)"
| relay_exit: "\<not> wp_relayDone p \<Longrightarrow> \<not> wp_relayConn p \<Longrightarrow> \<not> wp_relayCtx p \<Longrightarrow> env_step p (p\<lparr>wp_relayDone := True\<rparr>)"
| catalogue_stops: "wp_catalogue p = Some True \<Longrightarrow> env_step p (p\<lparr>wp_catalogue := Some False\<rparr>)"
| rates_stop: "wp_rates p = Some True \<Longrightarrow> env_step p (p\<lparr>wp_rates := Some False\<rparr>)"
| gauge_begins: "gauge_registered p \<Longrightarrow> \<not> wp_poolClosed p \<Longrightarrow> env_step p (p\<lparr>wp_gaugeConn := True\<rparr>)"
| gauge_ends: "wp_gaugeConn p \<Longrightarrow> env_step p (p\<lparr>wp_gaugeConn := False\<rparr>)"
| answers: "wp_at p \<in> {AtCloseCatalogue, AtCloseRates} \<or> (\<exists>c ds err. wp_at p = Returning (c # ds) err \<and> c \<in> {CloseRepos, FlushTelemetry}) \<Longrightarrow>
    env_step p (p\<lparr>wp_answered := True\<rparr>)"
| ten_seconds_passed: "wp_tenSeconds p = Some False \<Longrightarrow> env_step p (p\<lparr>wp_tenSeconds := Some True\<rparr>)"
| flush_late: "wp_at p = Returning (FlushTelemetry # ds) err \<Longrightarrow> env_step p (p\<lparr>wp_flushLate := True\<rparr>)"

inductive served :: "workforce_proc \<Rightarrow> bool" where
  served_start: "served (proc_start kafka catalogue rates)"
| served_main: "served p \<Longrightarrow> main_step p q \<Longrightarrow> served q"
| served_env: "served p \<Longrightarrow> \<forall>err. wp_at p \<noteq> Returned err \<Longrightarrow> env_step p q \<Longrightarrow> served q"

inductive_cases main_stepE: "main_step p q"
inductive_cases env_stepE: "env_step p q"

text \<open>Whether main has begun to shut down or return, and the deferred calls it has not run yet.\<close>

definition ending :: "main_at \<Rightarrow> bool" where
  "ending a \<longleftrightarrow> a \<noteq> AtSelect \<and> (\<forall>err. a \<noteq> Returned err)"

definition left :: "main_at \<Rightarrow> deferred_call list" where
  "left a = (case a of Returning ds _ \<Rightarrow> ds | Returned _ \<Rightarrow> [] | _ \<Rightarrow> CancelShutdownCtx # defers)"

definition result_of :: "main_at \<Rightarrow> err option option" where
  "result_of a = (case a of Returning _ err \<Rightarrow> Some err | Returned err \<Rightarrow> Some err | AtStopRelay err \<Rightarrow> Some err
     | AtAwaitRelay err \<Rightarrow> Some err | _ \<Rightarrow> None)"

definition no_conns :: "workforce_proc \<Rightarrow> bool" where
  "no_conns p \<longleftrightarrow> wp_requestConns p = 0 \<and> \<not> wp_relayConn p \<and> \<not> wp_gaugeConn p"

definition defers_inv :: "workforce_proc \<Rightarrow> bool" where
  "defers_inv p \<longleftrightarrow> suffix (left (wp_at p)) (CancelShutdownCtx # defers)
     \<and> (StopRelay \<notin> set (left (wp_at p)) \<longrightarrow> \<not> wp_relayCtx p)
     \<and> (CancelRateConsumer \<notin> set (left (wp_at p)) \<longrightarrow> \<not> wp_ratesCtx p)
     \<and> (wp_poolClosed p \<longleftrightarrow> ClosePool \<notin> set (left (wp_at p)))
     \<and> (AwaitConnections \<notin> set (left (wp_at p)) \<longrightarrow> no_conns p)
     \<and> (CancelCatalogueConsumer \<notin> set (left (wp_at p)) \<longrightarrow> \<not> wp_catalogueCtx p)"

definition stage :: "main_at \<Rightarrow> nat" where
  "stage a = (case a of AtSelect \<Rightarrow> 0 | AtCancelCatalogue \<Rightarrow> 1 | AtCloseCatalogue \<Rightarrow> 2 | AtCancelRates \<Rightarrow> 3 | AtCloseRates \<Rightarrow> 4
     | AtWithTimeout \<Rightarrow> 5 | AtShutdown \<Rightarrow> 6 | AtDrain \<Rightarrow> 7 | AtStopRelay _ \<Rightarrow> 8 | AtAwaitRelay _ \<Rightarrow> 9 | Returning _ _ \<Rightarrow> 10 | Returned _ \<Rightarrow> 11)"

definition proc_inv :: "workforce_proc \<Rightarrow> bool" where
  "proc_inv p \<longleftrightarrow> wp_gate p \<noteq> None \<and> (wp_listening p \<longrightarrow> wp_serverErr p = None)
     \<and> (stage (wp_at p) = 0 \<longrightarrow> gate_Ready (wp_gate p) \<and> wp_catalogueCtx p \<and> wp_ratesCtx p \<and> (wp_listening p \<or> wp_serverErr p \<noteq> None))
     \<and> (0 < stage (wp_at p) \<and> stage (wp_at p) < 10 \<longrightarrow> \<not> gate_Ready (wp_gate p))
     \<and> (stage (wp_at p) \<le> 8 \<longrightarrow> wp_relayCtx p)
     \<and> (stage (wp_at p) \<le> 5 \<longrightarrow> wp_tenSeconds p = None) \<and> (6 \<le> stage (wp_at p) \<and> stage (wp_at p) < 10 \<longrightarrow> wp_tenSeconds p \<noteq> None)
     \<and> (7 \<le> stage (wp_at p) \<longrightarrow> \<not> wp_listening p)
     \<and> (8 \<le> stage (wp_at p) \<and> \<not> gate_Ready (wp_gate p) \<longrightarrow>
          wp_inflight p = 0 \<or> wp_tenSeconds p = Some True \<and> result_of (wp_at p) \<noteq> Some None)
     \<and> (9 \<le> stage (wp_at p) \<and> \<not> gate_Ready (wp_gate p) \<longrightarrow> \<not> wp_relayCtx p)
     \<and> (10 \<le> stage (wp_at p) \<and> \<not> gate_Ready (wp_gate p) \<longrightarrow> wp_relayDone p \<or> wp_tenSeconds p = Some True)
     \<and> (10 \<le> stage (wp_at p) \<and> gate_Ready (wp_gate p) \<longrightarrow>
          (\<exists>e. wp_serverErr p = Some e \<and> result_of (wp_at p) = Some (if e = ErrServerClosed then None else Some e)))"

lemmas place_defs = left_def result_of_def defers_def no_conns_def

lemma gate_simps: "gate_Ready (Some 0)" "g \<noteq> None \<Longrightarrow> \<not> gate_Ready (SetNotReady g) \<and> SetNotReady g \<noteq> None"
  by (auto simp: gate_Ready_def SetNotReady_def)

lemma suffix_pool: "suffix ds (CancelShutdownCtx # defers) \<Longrightarrow> ClosePool \<in> set ds \<Longrightarrow> AwaitConnections \<in> set ds"
  by (auto simp: defers_def suffix_Cons)

lemma main_defers_inv: "main_step p q \<Longrightarrow> defers_inv p \<Longrightarrow> defers_inv q"
  by (erule main_stepE) (auto simp: defers_inv_def place_defs suffix_Cons)

lemma env_defers_inv: "env_step p q \<Longrightarrow> defers_inv p \<Longrightarrow> defers_inv q"
  by (erule env_stepE) (auto simp: defers_inv_def no_conns_def dest: suffix_pool)

lemma main_step_inv: "main_step p q \<Longrightarrow> proc_inv p \<Longrightarrow> proc_inv q"
  by (erule main_stepE) (simp_all add: proc_inv_def stage_def result_of_def gate_simps)

lemma env_step_inv: "env_step p q \<Longrightarrow> proc_inv p \<Longrightarrow> proc_inv q"
  by (erule env_stepE) (force simp: proc_inv_def stage_def)+

lemma served_inv: "served p \<Longrightarrow> proc_inv p \<and> defers_inv p"
proof (induction rule: served.induct)
  case (served_start kafka catalogue rates)
  show ?case by (auto simp: proc_inv_def defers_inv_def proc_start_def stage_def place_defs gate_simps)
next
  case (served_main p q)
  then show ?case using main_step_inv main_defers_inv by blast
next
  case (served_env p q)
  then show ?case using env_step_inv [of p q] env_defers_inv [of p q] by blast
qed

text \<open>
  C26: the order of a shutdown, whatever requests, relay, consumers and libraries do meanwhile.
  The consumers' contexts are cancelled while \<open>/readyz\<close> still answers ready only if the listener has failed and the
  deferred calls run; otherwise not before it has turned. The relay's context is cancelled only once the listener is closed and, unless
  it had failed, every request is done or the ten seconds have passed. The pool is closed after the listener, the relay's and the rates'
  contexts. When main has returned, everything is stopped and no connection is held; after a signal, each request was done or the result
  is an error and the ten seconds passed, and the relay was joined or they passed; without one, the result is the listener's error.
  (A consumer whose \<open>Run\<close> fails stops by itself at any time, see \<open>stopped_consumer_unnoticed\<close>.)
\<close>

theorem shutdown_order:
  assumes "served p"
  shows "(gate_Ready (wp_gate p) \<and> \<not> (wp_catalogueCtx p \<and> wp_ratesCtx p) \<longrightarrow> \<not> wp_listening p \<and> wp_serverErr p \<noteq> None)
    \<and> (\<not> wp_relayCtx p \<longrightarrow> \<not> wp_listening p
        \<and> (gate_Ready (wp_gate p) \<and> wp_serverErr p \<noteq> None \<or> wp_inflight p = 0 \<or> wp_tenSeconds p = Some True))
    \<and> (wp_poolClosed p \<longrightarrow> \<not> wp_listening p \<and> \<not> wp_relayCtx p \<and> \<not> wp_ratesCtx p)
    \<and> (\<forall>err. wp_at p = Returned err \<longrightarrow> wp_poolClosed p \<and> no_conns p \<and> \<not> wp_relayCtx p \<and> \<not> wp_ratesCtx p \<and> \<not> wp_catalogueCtx p
        \<and> (if gate_Ready (wp_gate p)
           then \<exists>e. wp_serverErr p = Some e \<and> err = (if e = ErrServerClosed then None else Some e)
           else (wp_inflight p = 0 \<or> err \<noteq> None \<and> wp_tenSeconds p = Some True)
             \<and> (wp_relayDone p \<or> wp_tenSeconds p = Some True)))"
proof -
  have i: "proc_inv p" and d: "defers_inv p" using served_inv [OF assms] by auto
  have at9: "\<not> wp_relayCtx p \<Longrightarrow> \<not> stage (wp_at p) \<le> 8" using i by (simp add: proc_inv_def)
  have mid: "0 < stage (wp_at p) \<Longrightarrow> stage (wp_at p) < 10 \<Longrightarrow> \<not> gate_Ready (wp_gate p)" using i by (simp add: proc_inv_def)
  have sel: "stage (wp_at p) = 0 \<Longrightarrow> wp_catalogueCtx p \<and> wp_ratesCtx p" using i by (simp add: proc_inv_def)
  have late: "7 \<le> stage (wp_at p) \<and> (10 \<le> stage (wp_at p) \<or> \<not> gate_Ready (wp_gate p))" if "\<not> wp_relayCtx p"
    using at9 [OF that] mid by linarith
  have pool: "10 \<le> stage (wp_at p) \<and> \<not> wp_relayCtx p \<and> \<not> wp_ratesCtx p" if "wp_poolClosed p"
    using d that by (cases "wp_at p") (auto simp: defers_inv_def left_def stage_def defers_def suffix_Cons)
  have early: "10 \<le> stage (wp_at p)" if "gate_Ready (wp_gate p)" "\<not> (wp_catalogueCtx p \<and> wp_ratesCtx p)"
    using sel mid that by (meson gr0I not_less)
  have gone: "wp_poolClosed p \<and> no_conns p \<and> \<not> wp_relayCtx p \<and> \<not> wp_ratesCtx p \<and> \<not> wp_catalogueCtx p" if "wp_at p = Returned err" for err
    using d that by (simp add: defers_inv_def left_def)
  have last: "if gate_Ready (wp_gate p) then \<exists>e. wp_serverErr p = Some e \<and> err = (if e = ErrServerClosed then None else Some e)
      else (wp_inflight p = 0 \<or> err \<noteq> None \<and> wp_tenSeconds p = Some True) \<and> (wp_relayDone p \<or> wp_tenSeconds p = Some True)"
    if r: "wp_at p = Returned err" for err
  proof -
    have st: "stage (wp_at p) = 11" "result_of (wp_at p) = Some err" using r by (simp_all add: stage_def result_of_def)
    show ?thesis using i unfolding proc_inv_def st by (cases "gate_Ready (wp_gate p)") auto
  qed
  have closed: "7 \<le> stage (wp_at p) \<Longrightarrow> \<not> wp_listening p" using i by (simp add: proc_inv_def)
  have failed: "10 \<le> stage (wp_at p) \<Longrightarrow> gate_Ready (wp_gate p) \<Longrightarrow> wp_serverErr p \<noteq> None" using i by (auto simp: proc_inv_def)
  have cut: "wp_inflight p = 0 \<or> wp_tenSeconds p = Some True" if "\<not> wp_relayCtx p" "\<not> gate_Ready (wp_gate p)"
  proof -
    have "8 \<le> stage (wp_at p)" using at9 [OF that(1)] by linarith
    then show ?thesis using i that(2) unfolding proc_inv_def by blast
  qed
  have 1: "gate_Ready (wp_gate p) \<and> \<not> (wp_catalogueCtx p \<and> wp_ratesCtx p) \<longrightarrow> \<not> wp_listening p \<and> wp_serverErr p \<noteq> None"
    using early closed failed by fastforce
  have 2: "\<not> wp_relayCtx p \<longrightarrow> \<not> wp_listening p
      \<and> (gate_Ready (wp_gate p) \<and> wp_serverErr p \<noteq> None \<or> wp_inflight p = 0 \<or> wp_tenSeconds p = Some True)"
    using late closed failed cut by blast
  have 3: "wp_poolClosed p \<longrightarrow> \<not> wp_listening p \<and> \<not> wp_relayCtx p \<and> \<not> wp_ratesCtx p"
    using pool closed by fastforce
  show ?thesis using 1 2 3 gone last by blast
qed

text \<open>How many statements main has left, and what it can be waiting for.\<close>

definition statements_left :: "main_at \<Rightarrow> nat" where
  "statements_left a = (case a of AtSelect \<Rightarrow> 19 | AtCancelCatalogue \<Rightarrow> 18 | AtCloseCatalogue \<Rightarrow> 17 | AtCancelRates \<Rightarrow> 16
     | AtCloseRates \<Rightarrow> 15 | AtWithTimeout \<Rightarrow> 14 | AtShutdown \<Rightarrow> 13 | AtDrain \<Rightarrow> 12 | AtStopRelay _ \<Rightarrow> 11 | AtAwaitRelay _ \<Rightarrow> 10
     | Returning ds _ \<Rightarrow> Suc (length ds) | Returned _ \<Rightarrow> 0)"

definition held_up :: "workforce_proc \<Rightarrow> bool" where
  "held_up p = (case wp_at p of
       AtCloseCatalogue \<Rightarrow> wp_catalogue p \<noteq> None \<and> \<not> wp_answered p
     | AtCloseRates \<Rightarrow> wp_rates p \<noteq> None \<and> \<not> wp_answered p
     | AtDrain \<Rightarrow> wp_inflight p \<noteq> 0 \<and> wp_tenSeconds p \<noteq> Some True
     | AtAwaitRelay _ \<Rightarrow> \<not> wp_relayDone p \<and> wp_tenSeconds p \<noteq> Some True
     | Returning (CloseRepos # _) _ \<Rightarrow> wp_kafka p \<and> \<not> wp_answered p
     | Returning (AwaitConnections # _) _ \<Rightarrow> \<not> no_conns p
     | Returning (FlushTelemetry # _) _ \<Rightarrow> \<not> wp_answered p \<and> \<not> wp_flushLate p
     | _ \<Rightarrow> False)"

lemma main_step_counts: "main_step p q \<Longrightarrow> statements_left (wp_at q) < statements_left (wp_at p)"
  by (erule main_stepE) (simp_all add: statements_left_def defers_def)

lemma env_step_waits: "env_step p q \<Longrightarrow> wp_at q = wp_at p \<and> (wp_tenSeconds p = Some True \<longrightarrow> wp_tenSeconds q = Some True)"
  by (erule env_stepE) auto

lemma main_enabled:
  assumes "ending (wp_at p)"
  shows "(\<exists>q. main_step p q) \<longleftrightarrow> \<not> held_up p"
proof
  assume "\<exists>q. main_step p q"
  then show "\<not> held_up p" by (auto elim!: main_stepE simp: held_up_def no_conns_def)
next
  assume h: "\<not> held_up p"
  show "\<exists>q. main_step p q"
  proof (cases "wp_at p")
    case (Returning ds err)
    show ?thesis
    proof (cases ds)
      case Nil
      then show ?thesis using Returning main_step.returned by blast
    next
      case (Cons c cs)
      then show ?thesis using h Returning
        by (cases c) (auto simp: held_up_def no_conns_def intro: main_step.intros)
    qed
  qed (use h assms in \<open>auto simp: held_up_def ending_def intro: main_step.intros\<close>)
qed

lemma main_ending: "main_step p q \<Longrightarrow> ending (wp_at p) \<Longrightarrow> ending (wp_at q) \<or> (\<exists>err. wp_at q = Returned err)"
  by (erule main_stepE) (auto simp: ending_def)

text \<open>A life goes on by main's steps and the others', until main has returned.\<close>

definition life_step :: "workforce_proc \<Rightarrow> workforce_proc \<Rightarrow> bool" where
  "life_step p q \<longleftrightarrow> (\<forall>err. wp_at p \<noteq> Returned err) \<and> (main_step p q \<or> env_step p q)"

lemma served_life: "life_step\<^sup>*\<^sup>* p q \<Longrightarrow> served p \<Longrightarrow> served q"
  by (induction rule: rtranclp_induct) (auto simp: life_step_def intro: served_main served_env)

lemma give_back_requests:
  "\<forall>err. wp_at p \<noteq> Returned err \<Longrightarrow> life_step\<^sup>*\<^sup>* p (p\<lparr>wp_requestConns := 0\<rparr>)"
proof (induction "wp_requestConns p" arbitrary: p)
  case 0
  then have "p\<lparr>wp_requestConns := 0\<rparr> = p" by simp
  then show ?case by simp
next
  case (Suc n)
  let ?q = "p\<lparr>wp_requestConns := n, wp_outbox := wp_outbox p + 0\<rparr>"
  have "life_step p ?q" using Suc.prems request_commits [OF Suc.hyps(2) [symmetric], of 0] by (simp add: life_step_def)
  moreover have "life_step\<^sup>*\<^sup>* ?q (?q\<lparr>wp_requestConns := 0\<rparr>)" using Suc.hyps(1) [of ?q] Suc.prems by simp
  ultimately show ?case by (simp add: converse_rtranclp_into_rtranclp)
qed

lemma give_back:
  assumes "\<forall>err. wp_at p \<noteq> Returned err"
  shows "\<exists>q. life_step\<^sup>*\<^sup>* p q \<and> wp_at q = wp_at p \<and> no_conns q"
proof -
  let ?p1 = "p\<lparr>wp_requestConns := 0\<rparr>"
  let ?p2 = "if wp_relayConn p then ?p1\<lparr>wp_relayConn := False, wp_outbox := wp_outbox ?p1 - 0\<rparr> else ?p1"
  let ?p3 = "if wp_gaugeConn p then ?p2\<lparr>wp_gaugeConn := False\<rparr> else ?p2"
  have 1: "life_step\<^sup>*\<^sup>* p ?p1" by (rule give_back_requests [OF assms])
  have 2: "life_step\<^sup>*\<^sup>* ?p1 ?p2"
    using assms pass_ends [of ?p1 0] by (auto simp: life_step_def intro!: r_into_rtranclp)
  have 3: "life_step\<^sup>*\<^sup>* ?p2 ?p3"
    using assms gauge_ends [of ?p2] by (auto simp: life_step_def intro!: r_into_rtranclp)
  have "life_step\<^sup>*\<^sup>* p ?p3" using 1 2 3 by (meson rtranclp_trans)
  then show ?thesis by (intro exI [of _ ?p3]) (auto simp: no_conns_def)
qed

text \<open>Whatever main waits for can come: it is then no longer held up.\<close>

lemma unblock:
  assumes "served p" "ending (wp_at p)" "held_up p"
  shows "\<exists>q. life_step\<^sup>*\<^sup>* p q \<and> wp_at q = wp_at p \<and> \<not> held_up q"
proof -
  have nr: "\<forall>err. wp_at p \<noteq> Returned err" using assms(2) by (simp add: ending_def)
  have ans: ?thesis if "env_step p (p\<lparr>wp_answered := True\<rparr>)" "\<not> held_up (p\<lparr>wp_answered := True\<rparr>)"
    using that nr by (intro exI [of _ "p\<lparr>wp_answered := True\<rparr>"]) (auto simp: life_step_def)
  have ten: ?thesis if "7 \<le> stage (wp_at p)" "stage (wp_at p) < 10"
  proof -
    have "wp_tenSeconds p \<noteq> None" using served_inv [OF assms(1)] that by (auto simp: proc_inv_def)
    moreover have "wp_tenSeconds p \<noteq> Some True"
      using assms(3) that by (auto simp: held_up_def stage_def split: main_at.splits)
    ultimately have "wp_tenSeconds p = Some False" by (cases "wp_tenSeconds p") auto
    then have "life_step p (p\<lparr>wp_tenSeconds := Some True\<rparr>)" using nr ten_seconds_passed by (simp add: life_step_def)
    moreover have "\<not> held_up (p\<lparr>wp_tenSeconds := Some True\<rparr>)"
      using that by (cases "wp_at p") (auto simp: held_up_def stage_def)
    ultimately show ?thesis by (intro exI [of _ "p\<lparr>wp_tenSeconds := Some True\<rparr>"]) auto
  qed
  show ?thesis
  proof (cases "wp_at p")
    case AtCloseCatalogue
    then show ?thesis by (intro ans answers) (auto simp: held_up_def)
  next
    case AtCloseRates
    then show ?thesis by (intro ans answers) (auto simp: held_up_def)
  next
    case (Returning ds err)
    then obtain c cs where ds: "ds = c # cs" using assms(3) by (cases ds) (auto simp: held_up_def)
    show ?thesis
    proof (cases "c = AwaitConnections")
      case True
      obtain q where "life_step\<^sup>*\<^sup>* p q" "wp_at q = wp_at p" "no_conns q" using give_back [OF nr] by blast
      then show ?thesis using True Returning ds by (intro exI [of _ q]) (simp add: held_up_def)
    next
      case False
      then have "c \<in> {CloseRepos, FlushTelemetry}" using assms(3) Returning ds by (cases c) (auto simp: held_up_def)
      then show ?thesis using Returning ds by (intro ans answers) (auto simp: held_up_def)
    qed
  next
    case AtDrain
    then show ?thesis by (intro ten) (simp_all add: stage_def)
  next
    case (AtAwaitRelay err)
    then show ?thesis by (intro ten) (simp_all add: stage_def)
  qed (use assms(3) in \<open>auto simp: held_up_def\<close>)
qed

lemma can_return:
  "served p \<Longrightarrow> ending (wp_at p) \<Longrightarrow> \<exists>q err. life_step\<^sup>*\<^sup>* p q \<and> wp_at q = Returned err"
proof (induction "statements_left (wp_at p)" arbitrary: p rule: less_induct)
  case less
  obtain p' where p': "life_step\<^sup>*\<^sup>* p p'" "wp_at p' = wp_at p" "\<not> held_up p'"
    using unblock [OF less.prems] by (cases "held_up p") auto
  have e: "ending (wp_at p')" and s: "served p'" using less.prems p' served_life by auto
  obtain q where q: "main_step p' q" using main_enabled [OF e] p'(3) by auto
  have step: "life_step\<^sup>*\<^sup>* p q" using p'(1) q e by (auto simp: life_step_def ending_def intro: rtranclp.rtrancl_into_rtrancl)
  from main_ending [OF q e] show ?case
  proof
    assume "ending (wp_at q)"
    moreover have "statements_left (wp_at q) < statements_left (wp_at p)" using main_step_counts [OF q] p'(2) by simp
    ultimately obtain r err where "life_step\<^sup>*\<^sup>* q r" "wp_at r = Returned err"
      using less.hyps served_main [OF s q] by blast
    then show ?thesis using step by (meson rtranclp_trans)
  qed (use step in blast)
qed

text \<open>
  C27: a shutdown ends unless something outside holds it up. Once main has left the select it has at most eighteen
  statements left, each of its steps leaves it fewer, no other goroutine sets it back, and it can always still return. It waits exactly
  where \<open>held_up\<close> says: in a Kafka reader's \<open>Close\<close>, before the ten seconds have even begun; for requests in flight and for the relay, not past the ten
  seconds; in the Kafka writers' \<open>Close\<close> and for connections handed out by the pool, with no limit; for the flush, not past its five seconds.
\<close>

theorem shutdown_ends:
  assumes "served p" "ending (wp_at p)"
  shows "statements_left (wp_at p) \<le> 18
    \<and> (\<forall>q. main_step p q \<longrightarrow> statements_left (wp_at q) < statements_left (wp_at p))
    \<and> (\<forall>q. env_step p q \<longrightarrow> wp_at q = wp_at p \<and> (wp_tenSeconds p = Some True \<longrightarrow> wp_tenSeconds q = Some True))
    \<and> ((\<exists>q. main_step p q) \<longleftrightarrow> \<not> held_up p)
    \<and> (wp_at p \<in> {AtCloseCatalogue, AtCloseRates} \<longrightarrow> wp_tenSeconds p = None)
    \<and> (\<exists>q err. life_step\<^sup>*\<^sup>* p q \<and> wp_at q = Returned err)"
proof -
  have i: "proc_inv p" and d: "defers_inv p" using served_inv [OF assms(1)] by auto
  have "length (left (wp_at p)) \<le> 8" using d by (auto simp: defers_inv_def defers_def dest!: suffix_length_le)
  then have "statements_left (wp_at p) \<le> 18"
    using assms(2) by (cases "wp_at p") (auto simp: statements_left_def ending_def left_def)
  moreover have "wp_at p \<in> {AtCloseCatalogue, AtCloseRates} \<longrightarrow> wp_tenSeconds p = None"
    using i by (auto simp: proc_inv_def stage_def)
  ultimately show ?thesis
    using main_step_counts env_step_waits main_enabled [OF assms(2)] can_return [OF assms] by blast
qed

text \<open>A process that is draining one request, and one that has returned.\<close>

definition draining :: workforce_proc where
  "draining = (proc_start True (Some True) None)\<lparr>wp_at := AtDrain, wp_gate := Some 1, wp_listening := False, wp_inflight := 1,
     wp_catalogueCtx := False, wp_ratesCtx := False, wp_tenSeconds := Some False\<rparr>"

definition stranded :: workforce_proc where
  "stranded = draining\<lparr>wp_at := Returned None, wp_inflight := 0, wp_outbox := 1, wp_relayCtx := False, wp_relayDone := True,
     wp_poolClosed := True\<rparr>"

lemma served_main_eq: "served p \<Longrightarrow> main_step p q \<Longrightarrow> q = r \<Longrightarrow> served r"
  by (blast intro: served_main)

lemma served_env_eq: "served p \<Longrightarrow> env_step p q \<Longrightarrow> \<forall>err. wp_at p \<noteq> Returned err \<Longrightarrow> q = r \<Longrightarrow> served r"
  by (blast intro: served_env)

lemma served_draining: "served draining"
proof -
  let ?s = "proc_start True (Some True) None"
  let ?a = "?s\<lparr>wp_inflight := 1\<rparr>"
  let ?b = "?a\<lparr>wp_at := AtCancelCatalogue, wp_gate := Some 1\<rparr>"
  let ?c = "?b\<lparr>wp_at := AtCloseCatalogue, wp_catalogueCtx := False\<rparr>"
  let ?d = "?c\<lparr>wp_at := AtCloseRates, wp_ratesCtx := False\<rparr>"
  have "served ?a" by (rule served_env_eq [OF served_start accept]) (simp_all add: proc_start_def)
  then have "served ?b" by (rule served_main_eq [OF _ signalled]) (simp_all add: proc_start_def SetNotReady_def)
  then have "served ?c" by (rule served_main_eq [OF _ cancel_catalogue]) simp_all
  then have "served (?c\<lparr>wp_answered := True\<rparr>)" by (rule served_env_eq [OF _ answers]) simp_all
  then have "served (?c\<lparr>wp_at := AtCancelRates\<rparr>)"
    by (rule served_main_eq [OF _ close_catalogue]) (simp_all add: proc_start_def)
  then have "served ?d" by (rule served_main_eq [OF _ cancel_rates]) simp_all
  then have "served (?d\<lparr>wp_at := AtWithTimeout\<rparr>)" by (rule served_main_eq [OF _ close_rates]) (simp_all add: proc_start_def)
  then have "served (?d\<lparr>wp_at := AtShutdown, wp_tenSeconds := Some False\<rparr>)"
    by (rule served_main_eq [OF _ with_timeout]) simp_all
  then show ?thesis by (rule served_main_eq [OF _ close_listener]) (simp_all add: draining_def proc_start_def)
qed

lemma served_stranded: "served stranded"
proof -
  let ?b = "draining\<lparr>wp_requestConns := 1\<rparr>"
  let ?c = "draining\<lparr>wp_outbox := 1\<rparr>"
  let ?d = "?c\<lparr>wp_inflight := 0\<rparr>"
  let ?e = "?d\<lparr>wp_at := AtAwaitRelay None, wp_relayCtx := False\<rparr>"
  let ?f = "\<lambda>ds. ?d\<lparr>wp_at := Returning ds None, wp_relayCtx := False, wp_relayDone := True\<rparr>"
  note d = draining_def proc_start_def
  have "served ?b" by (rule served_env_eq [OF served_draining request_begins]) (simp_all add: d)
  then have "served ?c" by (rule served_env_eq [OF _ request_commits [where rows = 1]]) (simp_all add: d)
  then have "served ?d" by (rule served_env_eq [OF _ request_done]) (simp_all add: d)
  then have "served (?d\<lparr>wp_at := AtStopRelay None\<rparr>)" by (rule served_main_eq [OF _ drained]) (simp_all add: d)
  then have "served ?e" by (rule served_main_eq [OF _ stop_relay]) simp_all
  then have "served (?e\<lparr>wp_relayDone := True\<rparr>)" by (rule served_env_eq [OF _ relay_exit]) (simp_all add: d)
  then have "served (?f (CancelShutdownCtx # defers))" by (rule served_main_eq [OF _ relay_joined]) (simp_all add: d)
  then have "served (?f defers)" by (rule served_main_eq [OF _ cancel_shutdown]) (simp_all add: d)
  then have "served (?f (tl defers))" by (rule served_main_eq [OF _ stop_relay_deferred]) (simp_all add: defers_def d)
  then have "served (?f (drop 2 defers))" by (rule served_main_eq [OF _ cancel_rates_deferred]) (simp_all add: defers_def d)
  then have "served ((?f (drop 2 defers))\<lparr>wp_answered := True\<rparr>)" by (rule served_env_eq [OF _ answers]) (simp_all add: defers_def d)
  then have "served (?f (drop 3 defers))" by (rule served_main_eq [OF _ close_repos]) (simp_all add: defers_def d)
  then have "served ((?f (drop 4 defers))\<lparr>wp_poolClosed := True\<rparr>)"
    by (rule served_main_eq [OF _ close_pool]) (simp_all add: defers_def d)
  then have "served ((?f (drop 5 defers))\<lparr>wp_poolClosed := True\<rparr>)"
    by (rule served_main_eq [OF _ pool_closed]) (simp_all add: defers_def d)
  then have "served ((?f (drop 6 defers))\<lparr>wp_poolClosed := True\<rparr>)"
    by (rule served_main_eq [OF _ cancel_catalogue_deferred]) (simp_all add: defers_def d)
  then have "served ((?f (drop 6 defers))\<lparr>wp_poolClosed := True, wp_answered := True\<rparr>)"
    by (rule served_env_eq [OF _ answers]) (simp_all add: defers_def d)
  then have "served ((?f [])\<lparr>wp_poolClosed := True\<rparr>)"
    by (rule served_main_eq [OF _ flush_telemetry]) (simp_all add: defers_def d)
  then show ?thesis by (rule served_main_eq [OF _ returned]) (simp_all add: stranded_def d)
qed

theorem shutdown_order_witness: "wp_at stranded = Returned None \<and> no_conns stranded \<and> wp_inflight stranded = 0"
proof -
  have "wp_at stranded = Returned None \<and> \<not> gate_Ready (wp_gate stranded)" by (simp add: stranded_def draining_def gate_Ready_def)
  then show ?thesis using shutdown_order [OF served_stranded] by auto
qed

theorem shutdown_ends_witness:
  "held_up draining \<and> statements_left (wp_at draining) \<le> 18 \<and> (\<exists>q err. life_step\<^sup>*\<^sup>* draining q \<and> wp_at q = Returned err)"
  using shutdown_ends [OF served_draining] by (simp add: draining_def proc_start_def ending_def held_up_def)

text \<open>
  An event committed by a request that completes during the shutdown can be left behind,
  although nothing is late: the relay's context is cancelled before any further pass, so the process
  returns cleanly, well within the ten seconds and with its relay joined, and the row is still
  unpublished.
\<close>

theorem shutdown_strands_events:
  "\<exists>p. served p \<and> wp_at p = Returned None \<and> wp_tenSeconds p = Some False \<and> wp_relayDone p \<and> wp_outbox p = 1"
  using served_stranded by (intro exI [of _ stranded]) (simp add: stranded_def draining_def)

text \<open>
  A catalogue consumer that fails is not noticed. Its \<open>Run\<close> may return an error while the process serves; from
  then on the process goes on answering from the catalogue as it was, and, as long as main is at its select, \<open>/readyz\<close>
  answers ready; the consumer is never started again.
\<close>

theorem stopped_consumer_unnoticed:
  assumes "served p" "wp_catalogue p = Some False" "life_step\<^sup>*\<^sup>* p q"
  shows "wp_catalogue q = Some False \<and> (wp_at q = AtSelect \<longrightarrow> gate_Ready (wp_gate q))"
proof -
  have "wp_catalogue q = Some False" using assms(3)
  proof (induction rule: rtranclp_induct)
    case (step y z)
    then show ?case by (auto simp: life_step_def elim!: main_stepE env_stepE)
  qed (rule assms(2))
  moreover have "wp_at q = AtSelect \<longrightarrow> gate_Ready (wp_gate q)"
    using served_inv [OF served_life [OF assms(3,1)]] by (simp add: proc_inv_def stage_def)
  ultimately show ?thesis by blast
qed

theorem stopped_consumer_unnoticed_witness:
  "\<exists>p. served p \<and> wp_at p = AtSelect \<and> wp_listening p \<and> wp_catalogue p = Some False \<and> gate_Ready (wp_gate p)"
proof -
  let ?p = "(proc_start True (Some True) None)\<lparr>wp_catalogue := Some False\<rparr>"
  have s: "served ?p" by (rule served_env_eq [OF served_start catalogue_stops]) (simp_all add: proc_start_def)
  show ?thesis
    using stopped_consumer_unnoticed [OF s _ rtranclp.rtrancl_refl] s by (intro exI [of _ ?p]) (simp add: proc_start_def)
qed

section \<open>The projector\<close>

text \<open>
  \<open>cmd/workforce-projector\<close> after its boot: the consumer runs beside the admin server, whatever
  \<open>Run\<close> returns is logged, and main waits for a signal. \<open>pj_consumer\<close> is None while \<open>Run\<close> runs and
  what it returned afterwards; the reader's answers arrive in batches.
\<close>

record 's projector_proc =
  pj_returned :: bool
  pj_consumer :: "err option option"
  pj_state :: 's

definition projector_healthz :: "'s projector_proc \<Rightarrow> http_response option" where
  "projector_healthz p = (if pj_returned p then None
     else Some \<lparr>hs_Status = 200, hs_ContentType = ''text/plain; charset=utf-8'', hs_Location = None,
       hs_Body = JsonBody (JObj [(''status'', JStr ''ok'')])\<rparr>)"

inductive projector_step :: "sdk \<Rightarrow> 's AnalyticsConsumer \<Rightarrow> 's projector_proc \<Rightarrow> 's projector_proc \<Rightarrow> bool" for k c where
  consumed: "\<not> pj_returned p \<Longrightarrow> pj_consumer p = None \<Longrightarrow> analytics_Run k c reads (pj_state p) = (r, s) \<Longrightarrow>
    projector_step k c p (p\<lparr>pj_consumer := r, pj_state := s\<rparr>)"
| projector_signalled: "\<not> pj_returned p \<Longrightarrow> projector_step k c p (p\<lparr>pj_returned := True\<rparr>)"

inductive_cases projector_stepE: "projector_step k c p q"

lemma projector_stopped:
  "(projector_step k c)\<^sup>*\<^sup>* p q \<Longrightarrow> pj_consumer p = Some r \<Longrightarrow> pj_consumer q = Some r \<and> pj_state q = pj_state p"
  by (induction rule: rtranclp_induct) (auto elim: projector_stepE)

text \<open>
  A projector whose consumer has stopped stays up. After \<open>Run\<close> has returned, with whatever
  error, the process projects nothing ever again, and until a signal ends it \<open>/healthz\<close> answers 200.
\<close>

theorem projector_outlives_consumer:
  assumes "(projector_step k c)\<^sup>*\<^sup>* p q" "pj_consumer p = Some (Some e)"
  shows "pj_state q = pj_state p \<and> (\<not> pj_returned q \<longrightarrow> map_option hs_Status (projector_healthz q) = Some 200)"
  using projector_stopped [OF assms] by (simp add: projector_healthz_def)

section \<open>The MCP server and the reports server\<close>

text \<open>
  \<open>serveMCP\<close> (\<open>cmd/mcp\<close>) and the end of \<open>run\<close> in \<open>cmd/workforce-reports\<close> are alike: the server runs on a goroutine,
  main waits for a signal and then gives the requests in flight ten seconds. \<open>sv_failed\<close> is the error
  \<open>ListenAndServe\<close> returned, once it has. They differ in what main waits for: only \<open>serveMCP\<close> (\<open>watches\<close>) also
  waits for that error.
\<close>

datatype serving = Waiting | ShuttingDown | Stopped "err option"

record server_proc =
  sv_at :: serving
  sv_listening :: bool
  sv_failed :: "err option"
  sv_inflight :: nat
  sv_deadline :: bool

definition server_start :: server_proc where
  "server_start = \<lparr>sv_at = Waiting, sv_listening = True, sv_failed = None, sv_inflight = 0, sv_deadline = False\<rparr>"

inductive serve_step :: "bool \<Rightarrow> server_proc \<Rightarrow> server_proc \<Rightarrow> bool" for watches where
  listen_error: "sv_at p = Waiting \<Longrightarrow> sv_failed p = None \<Longrightarrow>
    serve_step watches p (p\<lparr>sv_failed := Some e, sv_listening := False\<rparr>)"
| server_err: "watches \<Longrightarrow> sv_at p = Waiting \<Longrightarrow> sv_failed p = Some e \<Longrightarrow>
    serve_step watches p (p\<lparr>sv_at := Stopped (if e \<noteq> ErrServerClosed then Some e else None)\<rparr>)"
| stop_signal: "sv_at p = Waiting \<Longrightarrow> serve_step watches p (p\<lparr>sv_at := ShuttingDown, sv_listening := False\<rparr>)"
| shut_down: "sv_at p = ShuttingDown \<Longrightarrow> sv_inflight p = 0 \<Longrightarrow> serve_step watches p (p\<lparr>sv_at := Stopped None\<rparr>)"
| shut_down_late: "sv_at p = ShuttingDown \<Longrightarrow> sv_deadline p \<Longrightarrow>
    serve_step watches p (p\<lparr>sv_at := Stopped (Some (Sentinel DeadlineExceeded))\<rparr>)"
| take_request: "sv_listening p \<Longrightarrow> serve_step watches p (p\<lparr>sv_inflight := Suc (sv_inflight p)\<rparr>)"
| answer_request: "sv_inflight p = Suc n \<Longrightarrow> (\<forall>r. sv_at p \<noteq> Stopped r) \<Longrightarrow> serve_step watches p (p\<lparr>sv_inflight := n\<rparr>)"
| ten_seconds: "sv_at p = ShuttingDown \<Longrightarrow> serve_step watches p (p\<lparr>sv_deadline := True\<rparr>)"

inductive_cases serve_stepE: "serve_step watches p q"

definition mcp_step :: "server_proc \<Rightarrow> server_proc \<Rightarrow> bool" where "mcp_step = serve_step True"
definition reports_step :: "server_proc \<Rightarrow> server_proc \<Rightarrow> bool" where "reports_step = serve_step False"

definition server_inv :: "server_proc \<Rightarrow> bool" where
  "server_inv p \<longleftrightarrow> (sv_listening p \<longleftrightarrow> sv_at p = Waiting \<and> sv_failed p = None)
     \<and> (sv_deadline p \<longrightarrow> sv_at p \<noteq> Waiting)
     \<and> (sv_at p = Stopped None \<longrightarrow> sv_inflight p = 0 \<or> sv_failed p = Some ErrServerClosed)
     \<and> (\<forall>e. sv_at p = Stopped (Some e) \<longrightarrow> sv_failed p = Some e \<or> e = Sentinel DeadlineExceeded \<and> sv_deadline p)"

lemma served_server:
  assumes "(serve_step watches)\<^sup>*\<^sup>* server_start p"
  shows "server_inv p"
  using assms
proof (induction rule: rtranclp_induct)
  case base
  show ?case by (simp add: server_inv_def server_start_def)
next
  case (step p q)
  from step.hyps(2) step.IH show ?case by (cases rule: serve_step.cases) (auto simp: server_inv_def split: if_splits)
qed

lemma failed_stays:
  "(serve_step watches)\<^sup>*\<^sup>* p q \<Longrightarrow> sv_failed p = Some e \<Longrightarrow> \<not> sv_listening p \<Longrightarrow> sv_failed q = Some e \<and> \<not> sv_listening q"
  by (induction rule: rtranclp_induct) (auto elim: serve_stepE)

text \<open>
  A server that ends has a reason. The MCP server returns an error only when its listener failed with it
  or the ten seconds passed, and returns none only with every request answered; and it never waits on a
  closed listener, the step that returns its error being enabled until it is taken or a signal comes.
\<close>

theorem mcp_server_ends:
  assumes "mcp_step\<^sup>*\<^sup>* server_start p"
  shows "(sv_at p = Waiting \<and> \<not> sv_listening p \<longrightarrow>
      (\<exists>e. sv_failed p = Some e \<and> mcp_step p (p\<lparr>sv_at := Stopped (if e \<noteq> ErrServerClosed then Some e else None)\<rparr>)))
    \<and> (\<forall>e. sv_at p = Stopped (Some e) \<longrightarrow> sv_failed p = Some e \<or> e = Sentinel DeadlineExceeded \<and> sv_deadline p)
    \<and> (sv_at p = Stopped None \<longrightarrow> sv_inflight p = 0 \<or> sv_failed p = Some ErrServerClosed)"
proof -
  have i: "server_inv p" by (rule served_server [OF assms [unfolded mcp_step_def]])
  have "mcp_step p (p\<lparr>sv_at := Stopped (if e \<noteq> ErrServerClosed then Some e else None)\<rparr>)"
    if "sv_at p = Waiting" "sv_failed p = Some e" for e
    unfolding mcp_step_def by (rule server_err [OF TrueI that])
  then show ?thesis using i by (cases "sv_failed p") (simp_all add: server_inv_def)
qed

text \<open>
  The reports server outlives its listener: once \<open>ListenAndServe\<close> has failed, the error is only logged,
  and the process stays up with its listener closed, whatever else happens, until a signal comes.
\<close>

theorem reports_outlives_listener:
  assumes "reports_step\<^sup>*\<^sup>* server_start p" "sv_failed p = Some e" "reports_step\<^sup>*\<^sup>* p q" "sv_at q = Waiting" "reports_step q q'"
  shows "\<not> sv_listening q \<and> (sv_at q' = Waiting \<or> q' = q\<lparr>sv_at := ShuttingDown, sv_listening := False\<rparr>)"
proof -
  have "\<not> sv_listening p" using served_server [OF assms(1) [unfolded reports_step_def]] assms(2) by (simp add: server_inv_def)
  then have "\<not> sv_listening q" using failed_stays [OF assms(3) [unfolded reports_step_def] assms(2)] by simp
  then show ?thesis using assms(4,5) unfolding reports_step_def by (auto elim: serve_stepE)
qed

end
